(* ===== verification/Prelude.thy ===== *)
theory Prelude
  imports Main "HOL-Library.Word"
begin

text \<open>
  Shared vocabulary of the development: the machine-integer types of the Rust source, the
  sequencing of fallible stateful calls (Rust's \<open>?\<close> operator), and the generic lemmas on
  words, lists and results that the component theories rely on.
\<close>

unbundle bit_operations_syntax

section \<open>Machine integers\<close>

type_synonym u8 = "8 word"
type_synonym u16 = "16 word"
type_synonym u32 = "32 word"
type_synonym u64 = "64 word"
type_synonym i32 = "32 word"
type_synonym i64 = "64 word"

text \<open>
  \<open>mask_bits\<close> collects, for every bit-mask constant, the lemma saying which bits it has;
  \<open>rv_frame\<close> collects the frame lemmas (which state parts an operation leaves alone).
\<close>

named_theorems mask_bits
named_theorems rv_frame

section \<open>Sequencing fallible stateful calls\<close>

text \<open>
  A call that may fail and may have changed the state before failing returns the pair of its
  result and the state it leaves behind. \<open>and_then\<close> is what \<open>e?\<close> does in the source: a
  failure is passed on together with the state as it is at that point.
\<close>

definition and_then :: "('e + 'a) \<times> 's \<Rightarrow> ('a \<Rightarrow> 's \<Rightarrow> ('e + 'b) \<times> 's) \<Rightarrow> ('e + 'b) \<times> 's" where
  "and_then r k = (case r of (Inl e, s) \<Rightarrow> (Inl e, s) | (Inr v, s) \<Rightarrow> k v s)"

lemma and_then_simps [simp]:
  "and_then (Inl e, s) k = (Inl e, s)"
  "and_then (Inr v, s) k = k v s"
  by (simp_all add: and_then_def)

lemma and_then_InrE:
  assumes "and_then r k = (Inr v, s')"
  obtains u s where "r = (Inr u, s)" "k u s = (Inr v, s')"
  using assms by (auto simp: and_then_def split: prod.splits sum.splits)

lemma and_then_cases:
  assumes "and_then r k = (x, s')"
  obtains e where "r = (Inl e, s')" "x = Inl e"
  | u s where "r = (Inr u, s)" "k u s = (x, s')"
  using assms by (auto simp: and_then_def split: prod.splits sum.splits)

text \<open>A property of the final state that the first call and every continuation keep.\<close>

lemma and_then_state:
  assumes "P (snd r)" and "\<And>v s. r = (Inr v, s) \<Longrightarrow> P s \<Longrightarrow> P (snd (k v s))"
  shows "P (snd (and_then r k))"
  using assms by (auto simp: and_then_def split: prod.splits sum.splits)

section \<open>Words\<close>

text \<open>A value below \<open>2 ^ n\<close> has no bit from position \<open>n\<close> on.\<close>

lemma bit_less_exp:
  fixes x :: "'a::len word"
  assumes "bit x k" "unat x < 2 ^ n"
  shows "k < n"
proof (rule ccontr)
  assume "\<not> k < n"
  have "bit (unat x) k" using assms(1) by (simp add: bit_unsigned_iff bit_imp_le_length)
  moreover have "take_bit n (unat x) = unat x" using assms(2) by (simp add: take_bit_nat_eq_self)
  ultimately have "bit (take_bit n (unat x)) k" by simp
  with \<open>\<not> k < n\<close> show False by (simp add: bit_take_bit_iff)
qed

lemma unat_and_mask_less:
  fixes x :: "'a::len word"
  shows "unat (x AND mask n) < 2 ^ n"
proof -
  have "x AND mask n = take_bit n x" by (simp add: take_bit_eq_mask)
  then show ?thesis by (simp add: unsigned_take_bit_eq)
qed

text \<open>
  The bits of a mask given as a numeral: a run of \<open>n\<close> ones from position \<open>a\<close>. The
  simplifier moves \<open>bit\<close> of a word numeral to the integer numeral, so the lemmas are about
  integers and serve every width.
\<close>

lemma bit_run_iff:
  fixes w :: int
  assumes "w = push_bit a (mask n)"
  shows "bit w k \<longleftrightarrow> a \<le> k \<and> k < a + n"
  using assms by (auto simp: bit_simps)

lemma bit_low_mask [mask_bits]:
  "bit (3 :: int) k \<longleftrightarrow> k < 2"
  "bit (7 :: int) k \<longleftrightarrow> k < 3"
  "bit (0xf :: int) k \<longleftrightarrow> k < 4"
  "bit (0x1f :: int) k \<longleftrightarrow> k < 5"
  "bit (0x3f :: int) k \<longleftrightarrow> k < 6"
  "bit (0x7f :: int) k \<longleftrightarrow> k < 7"
  "bit (0xff :: int) k \<longleftrightarrow> k < 8"
  "bit (0x1ff :: int) k \<longleftrightarrow> k < 9"
  "bit (0x3ff :: int) k \<longleftrightarrow> k < 10"
  "bit (0xfff :: int) k \<longleftrightarrow> k < 12"
  "bit (0xffff :: int) k \<longleftrightarrow> k < 16"
  "bit (0xffffffff :: int) k \<longleftrightarrow> k < 32"
  using bit_run_iff [of "3" 0 2 k]
    bit_run_iff [of "7" 0 3 k]
    bit_run_iff [of "0xf" 0 4 k]
    bit_run_iff [of "0x1f" 0 5 k]
    bit_run_iff [of "0x3f" 0 6 k]
    bit_run_iff [of "0x7f" 0 7 k]
    bit_run_iff [of "0xff" 0 8 k]
    bit_run_iff [of "0x1ff" 0 9 k]
    bit_run_iff [of "0x3ff" 0 10 k]
    bit_run_iff [of "0xfff" 0 12 k]
    bit_run_iff [of "0xffff" 0 16 k]
    bit_run_iff [of "0xffffffff" 0 32 k]
  by (simp_all add: mask_eq_exp_minus_1 numeral_2_eq_2)

text \<open>Masking with a run of low ones bounds a value.\<close>

lemma unat_and_low_mask:
  fixes x :: "'a::len word"
  shows "unat (x AND 3) < 4" "unat (x AND 7) < 8" "unat (x AND 0x1f) < 32"
    "unat (x AND 0x3f) < 64" "unat (x AND 0x7f) < 128" "unat (x AND 0xff) < 256"
    "unat (x AND 0x1ff) < 512" "unat (x AND 0x3ff) < 1024" "unat (x AND 0xfff) < 4096"
  using unat_and_mask_less [of x 2] unat_and_mask_less [of x 3] unat_and_mask_less [of x 5]
    unat_and_mask_less [of x 6] unat_and_mask_less [of x 7] unat_and_mask_less [of x 8]
    unat_and_mask_less [of x 9] unat_and_mask_less [of x 10] unat_and_mask_less [of x 12]
  by (simp_all add: mask_eq_exp_minus_1)

lemma word_neq_0_iff: "(w :: 'a::len word) \<noteq> 0 \<longleftrightarrow> (\<exists>j. bit w j)"
  by (metis bit_0_eq bit_eqI bot_apply bot_bool_def)

lemma unat_of_nat_small: "n < 2 ^ LENGTH('a) \<Longrightarrow> unat (of_nat n :: 'a::len word) = n"
  by (simp add: unsigned_of_nat take_bit_nat_eq_self)

lemma unat_drop_bit_div: "unat (drop_bit n (x :: 'a::len word)) = unat x div 2 ^ n"
  unfolding unat_drop_bit_eq by (rule drop_bit_eq_div)

section \<open>Bit fields\<close>

text \<open>
  Reading a field out of a word assembled by shifts and disjunctions: \<open>fields\<close> turns a masked
  shift into a truncated one, distributes it over the disjunction and drops every operand
  that lies outside the window.
\<close>

named_theorems fields

lemma unat_exp: "n < LENGTH('a) \<Longrightarrow> unat (2 ^ n :: 'a::len word) = 2 ^ n"
  by (simp add: unat_eq_nat_uint uint_2p word_gt_0 exp_eq_zero_iff nat_power_eq)

lemma word_field_bit: "x < 2 ^ n \<Longrightarrow> n < LENGTH('a) \<Longrightarrow> bit (x :: 'a::len word) k \<Longrightarrow> k < n"
  by (metis bit_less_exp unat_mono unat_exp)

lemma and_low_mask [fields]:
  fixes w :: "'a::len word"
  shows "w AND 1 = take_bit 1 w" "w AND 3 = take_bit 2 w" "w AND 7 = take_bit 3 w"
    "w AND 0xf = take_bit 4 w" "w AND 0x1f = take_bit 5 w" "w AND 0x3f = take_bit 6 w"
    "w AND 0x7f = take_bit 7 w" "w AND 0xff = take_bit 8 w" "w AND 0x1ff = take_bit 9 w"
    "w AND 0x3ff = take_bit 10 w" "w AND 0xfff = take_bit 12 w" "w AND 0xffff = take_bit 16 w"
  by (simp_all add: take_bit_eq_mask mask_eq_exp_minus_1)

lemma field_or [fields]:
  fixes a b :: "'a::len word"
  shows "take_bit n (a OR b) = take_bit n a OR take_bit n b"
    "drop_bit n (a OR b) = drop_bit n a OR drop_bit n b"
  by simp_all

lemma field_push_high [fields]: "n \<le> j \<Longrightarrow> take_bit n (push_bit j (x :: 'a::len word)) = 0"
  by (rule bit_word_eqI) (simp add: bit_simps)

lemma field_drop_push [fields]:
  fixes x :: "'a::len word"
  shows "lo \<le> j \<Longrightarrow> drop_bit lo (push_bit j x) = take_bit (LENGTH('a) - lo) (push_bit (j - lo) x)"
    "j \<le> lo \<Longrightarrow> drop_bit lo (push_bit j x) = drop_bit (lo - j) (take_bit (LENGTH('a) - j) x)"
  by (rule bit_word_eqI; auto simp: bit_simps algebra_simps)+

lemma field_drop_take [fields]: "n \<le> m \<Longrightarrow> drop_bit m (take_bit n (x :: 'a::len word)) = 0"
  by (rule bit_word_eqI) (simp add: bit_simps)

lemma drop_bit_small: "x < 2 ^ b \<Longrightarrow> b < LENGTH('a) \<Longrightarrow> b \<le> m \<Longrightarrow> drop_bit m (x :: 'a::len word) = 0"
  by (rule bit_word_eqI) (auto simp: bit_simps dest: word_field_bit)

lemma take_bit_small: "x < 2 ^ b \<Longrightarrow> b < LENGTH('a) \<Longrightarrow> b \<le> m \<Longrightarrow> take_bit m (x :: 'a::len word) = x"
  by (rule bit_word_eqI) (auto simp: bit_simps dest: word_field_bit)

lemma field_drop_small [fields]:
  fixes x :: u32
  shows "x < 8 \<Longrightarrow> 3 \<le> m \<Longrightarrow> drop_bit m x = 0" "x < 32 \<Longrightarrow> 5 \<le> m \<Longrightarrow> drop_bit m x = 0"
    "x < 128 \<Longrightarrow> 7 \<le> m \<Longrightarrow> drop_bit m x = 0"
  using drop_bit_small [of x 3] drop_bit_small [of x 5] drop_bit_small [of x 7] by simp_all

lemma field_take_small [fields]:
  fixes x :: u32
  shows "x < 8 \<Longrightarrow> 3 \<le> m \<Longrightarrow> take_bit m x = x" "x < 32 \<Longrightarrow> 5 \<le> m \<Longrightarrow> take_bit m x = x"
    "x < 128 \<Longrightarrow> 7 \<le> m \<Longrightarrow> take_bit m x = x"
  using take_bit_small [of x 3] take_bit_small [of x 5] take_bit_small [of x 7] by simp_all

end
