(* ===== verification/Rv_Types.thy ===== *)
theory Rv_Types
  imports Prelude
begin

text \<open>
  The vocabulary of the emulator: \<open>src/src/types.rs\<close> (memory map, privilege levels, sign
  extension), \<open>src/src/trap.rs\<close> (exceptions, interrupts, traps as values) and the helpers of
  \<open>src/src/device.rs\<close>. A fallible operation returns \<open>'a res\<close>, a trap or a value, as
  \<open>Res<T>\<close> does in the source.
\<close>

section \<open>Memory map and privilege levels\<close>

abbreviation (input) NUM_REGS :: nat where "NUM_REGS \<equiv> 32"

abbreviation (input) SYSCON_BASE :: u64 where "SYSCON_BASE \<equiv> 0x00100000"
abbreviation (input) RTC_BASE :: u64 where "RTC_BASE \<equiv> 0x00101000"
abbreviation (input) CLINT_BASE :: u64 where "CLINT_BASE \<equiv> 0x02000000"
abbreviation (input) PLIC_BASE :: u64 where "PLIC_BASE \<equiv> 0x0c000000"
abbreviation (input) UART0_BASE :: u64 where "UART0_BASE \<equiv> 0x10000000"
abbreviation (input) VIRTIO_BASE :: u64 where "VIRTIO_BASE \<equiv> 0x10001000"
abbreviation (input) VIRTIO_STRIDE :: u64 where "VIRTIO_STRIDE \<equiv> 0x1000"
abbreviation (input) VIRTIO_NET_BASE :: u64 where "VIRTIO_NET_BASE \<equiv> VIRTIO_BASE + VIRTIO_STRIDE"
abbreviation (input) VIRTIO_RNG_BASE :: u64 where "VIRTIO_RNG_BASE \<equiv> VIRTIO_BASE + 2 * VIRTIO_STRIDE"
abbreviation (input) DRAM_BASE :: u64 where "DRAM_BASE \<equiv> 0x80000000"

abbreviation (input) VIRTIO0_IRQ :: u32 where "VIRTIO0_IRQ \<equiv> 1"
abbreviation (input) VIRTIO_NET_IRQ :: u32 where "VIRTIO_NET_IRQ \<equiv> 2"
abbreviation (input) VIRTIO_RNG_IRQ :: u32 where "VIRTIO_RNG_IRQ \<equiv> 3"
abbreviation (input) UART0_IRQ :: u32 where "UART0_IRQ \<equiv> 10"
abbreviation (input) RTC_IRQ :: u32 where "RTC_IRQ \<equiv> 11"
abbreviation (input) DRAM_SIZE_DEFAULT :: u64 where "DRAM_SIZE_DEFAULT \<equiv> 128 * 1024 * 1024"

abbreviation (input) PRIV_USER :: u32 where "PRIV_USER \<equiv> 0"
abbreviation (input) PRIV_SUPERVISOR :: u32 where "PRIV_SUPERVISOR \<equiv> 1"
abbreviation (input) PRIV_MACHINE :: u32 where "PRIV_MACHINE \<equiv> 3"
abbreviation (input) PRIV_LEAST_SUPPORTED :: u32 where "PRIV_LEAST_SUPPORTED \<equiv> PRIV_USER"

definition privilege_name :: "u32 \<Rightarrow> string" where
  "privilege_name p =
     (if p = PRIV_USER then ''U''
      else if p = PRIV_SUPERVISOR then ''S''
      else if p = PRIV_MACHINE then ''M''
      else ''?'')"

section \<open>Sign extension\<close>

text \<open>
  Shifting left puts the sign bit at position 63; the arithmetic shift back spreads it. The
  source is only called with \<open>1 \<le> bits \<le> 64\<close>.
\<close>

definition sign_extend :: "u64 \<Rightarrow> nat \<Rightarrow> i64" where
  "sign_extend value bits = (let shift = 64 - bits in signed_drop_bit shift (push_bit shift value))"

definition sext32 :: "u32 \<Rightarrow> u64" where
  "sext32 value = scast value"

section \<open>Traps\<close>

datatype exception =
    InstructionAddressMisaligned
  | InstructionAccessFault
  | IllegalInstruction
  | Breakpoint
  | LoadAddressMisaligned
  | LoadAccessFault
  | StoreAMOAddressMisaligned
  | StoreAMOAccessFault
  | ECallFromUMode
  | ECallFromSMode
  | ECallFromMMode
  | InstructionPageFault
  | LoadPageFault
  | StoreAMOPageFault

fun exc_code :: "exception \<Rightarrow> u64" where
  "exc_code InstructionAddressMisaligned = 0"
| "exc_code InstructionAccessFault = 1"
| "exc_code IllegalInstruction = 2"
| "exc_code Breakpoint = 3"
| "exc_code LoadAddressMisaligned = 4"
| "exc_code LoadAccessFault = 5"
| "exc_code StoreAMOAddressMisaligned = 6"
| "exc_code StoreAMOAccessFault = 7"
| "exc_code ECallFromUMode = 8"
| "exc_code ECallFromSMode = 9"
| "exc_code ECallFromMMode = 11"
| "exc_code InstructionPageFault = 12"
| "exc_code LoadPageFault = 13"
| "exc_code StoreAMOPageFault = 15"

datatype interrupt =
    SupervisorSoftware
  | MachineSoftware
  | SupervisorTimer
  | MachineTimer
  | SupervisorExternal
  | MachineExternal

text \<open>The enumerator's value: the cause number and the bit position in \<open>mip\<close>/\<open>mie\<close>.\<close>

fun intr_num :: "interrupt \<Rightarrow> nat" where
  "intr_num SupervisorSoftware = 1"
| "intr_num MachineSoftware = 3"
| "intr_num SupervisorTimer = 5"
| "intr_num MachineTimer = 7"
| "intr_num SupervisorExternal = 9"
| "intr_num MachineExternal = 11"

definition intr_cause_code :: "interrupt \<Rightarrow> u64" where
  "intr_cause_code i = push_bit 63 1 OR of_nat (intr_num i)"

record trap =
  t_cause :: exception
  t_tval :: u64

definition trap_new :: "exception \<Rightarrow> u64 \<Rightarrow> trap" where
  "trap_new c v = \<lparr>t_cause = c, t_tval = v\<rparr>"

definition trap_cause_code :: "trap \<Rightarrow> u64" where
  "trap_cause_code t = exc_code (t_cause t)"

type_synonym 'a res = "trap + 'a"

section \<open>Device helpers\<close>

datatype access_type = Instruction | Load | Store

text \<open>Little-endian value of up to eight bytes.\<close>

definition read_le :: "u8 list \<Rightarrow> u64" where
  "read_le bytes = fold (\<lambda>(i, b) v. v OR push_bit (8 * i) (ucast b)) (enumerate 0 (take 8 bytes)) 0"

section \<open>Lemmas\<close>

lemma trap_new_simps [simp]:
  "t_cause (trap_new c v) = c" "t_tval (trap_new c v) = v"
  "trap_new c v = trap_new c' v' \<longleftrightarrow> c = c' \<and> v = v'"
  by (simp_all add: trap_new_def)

lemma trap_cause_code_new [simp]: "trap_cause_code (trap_new c v) = exc_code c"
  by (simp add: trap_cause_code_def)

lemma bit_sign_extend:
  assumes "0 < bits" "bits \<le> 64"
  shows "bit (sign_extend v bits) n \<longleftrightarrow> n < 64 \<and> bit v (if n < bits then n else bits - 1)"
  using assms
  by (auto simp: sign_extend_def Let_def bit_simps)

lemma sint_sign_extend:
  assumes "0 < bits" "bits \<le> 64"
  shows "sint (sign_extend v bits) = signed_take_bit (bits - 1) (uint v)"
proof (rule bit_eqI)
  fix n
  obtain b where b: "bits = Suc b" "b < 64" using assms by (cases bits) auto
  consider "n < b" | "b \<le> n" by linarith
  then show "bit (sint (sign_extend v bits)) n \<longleftrightarrow> bit (signed_take_bit (bits - 1) (uint v)) n"
  proof cases
    case 1
    with b show ?thesis by (simp add: bit_simps bit_sign_extend min_def)
  next
    case 2
    with b have "(if min 63 n < Suc b then min 63 n else b) = b" by auto
    with 2 b show ?thesis by (simp add: bit_simps bit_sign_extend min_def split: if_splits)
  qed
qed

lemma sign_extend_32: "sign_extend (ucast w) 32 = sext32 w"
  by (rule bit_word_eqI) (auto simp: bit_sign_extend sext32_def bit_simps)

lemma exc_code_inj [simp]: "exc_code a = exc_code b \<longleftrightarrow> a = b"
  by (cases a; cases b; simp)

lemma exc_code_less: "exc_code e < 16"
  by (cases e) simp_all

end
