(* ===== verification/Decoder.thy ===== *)
theory Decoder
  imports Rv_Types
begin

text \<open>
  Instruction decoding, \<open>src/src/decoder.rs\<close>: the six formats and their immediates, the
  expansion of compressed instructions to 32-bit ones, and the tracer's mnemonics. The
  expansion is split at the quadrants of the source's \<open>match op\<close>, one definition each.
  Register numbers are natural numbers (\<open>usize\<close>); the immediate is the 64-bit pattern of the
  source's \<open>i64\<close>.
\<close>

section \<open>Formats and opcodes\<close>

datatype format = R | I | S | B | U | J | Unknown

abbreviation (input) LOAD :: u32 where "LOAD \<equiv> 0x03"
abbreviation (input) LOAD_FP :: u32 where "LOAD_FP \<equiv> 0x07"
abbreviation (input) MISC_MEM :: u32 where "MISC_MEM \<equiv> 0x0f"
abbreviation (input) OP_IMM :: u32 where "OP_IMM \<equiv> 0x13"
abbreviation (input) AUIPC :: u32 where "AUIPC \<equiv> 0x17"
abbreviation (input) OP_IMM_32 :: u32 where "OP_IMM_32 \<equiv> 0x1b"
abbreviation (input) STORE :: u32 where "STORE \<equiv> 0x23"
abbreviation (input) STORE_FP :: u32 where "STORE_FP \<equiv> 0x27"
abbreviation (input) AMO :: u32 where "AMO \<equiv> 0x2f"
abbreviation (input) OP :: u32 where "OP \<equiv> 0x33"
abbreviation (input) LUI :: u32 where "LUI \<equiv> 0x37"
abbreviation (input) OP_32 :: u32 where "OP_32 \<equiv> 0x3b"
abbreviation (input) MADD :: u32 where "MADD \<equiv> 0x43"
abbreviation (input) MSUB :: u32 where "MSUB \<equiv> 0x47"
abbreviation (input) NMSUB :: u32 where "NMSUB \<equiv> 0x4b"
abbreviation (input) NMADD :: u32 where "NMADD \<equiv> 0x4f"
abbreviation (input) OP_FP :: u32 where "OP_FP \<equiv> 0x53"
abbreviation (input) BRANCH :: u32 where "BRANCH \<equiv> 0x63"
abbreviation (input) JALR :: u32 where "JALR \<equiv> 0x67"
abbreviation (input) JAL :: u32 where "JAL \<equiv> 0x6f"
abbreviation (input) SYSTEM :: u32 where "SYSTEM \<equiv> 0x73"

record decoded_inst =
  i_raw :: u32
  i_encoded :: u32
  i_length :: u64
  i_opcode :: u32
  i_rd :: nat
  i_rs1 :: nat
  i_rs2 :: nat
  i_funct3 :: u32
  i_funct7 :: u32
  i_imm :: i64
  i_fmt :: format

definition decoded_inst_default :: decoded_inst where
  "decoded_inst_default = \<lparr>i_raw = 0, i_encoded = 0, i_length = 0, i_opcode = 0, i_rd = 0,
     i_rs1 = 0, i_rs2 = 0, i_funct3 = 0, i_funct7 = 0, i_imm = 0, i_fmt = Unknown\<rparr>"

definition funct6 :: "decoded_inst \<Rightarrow> u32" where
  "funct6 i = drop_bit 26 (i_raw i) AND 0x3f"

definition shamt6 :: "decoded_inst \<Rightarrow> u32" where
  "shamt6 i = drop_bit 20 (i_raw i) AND 0x3f"

definition shamt5 :: "decoded_inst \<Rightarrow> u32" where
  "shamt5 i = drop_bit 20 (i_raw i) AND 0x1f"

section \<open>Immediates\<close>

definition imm_i :: "u32 \<Rightarrow> i64" where
  "imm_i raw = sign_extend (ucast (drop_bit 20 raw AND 0xfff)) 12"

definition imm_s :: "u32 \<Rightarrow> i64" where
  "imm_s raw =
     (let b = push_bit 5 (ucast (drop_bit 25 raw AND 0x7f)) OR ucast (drop_bit 7 raw AND 0x1f)
      in sign_extend b 12)"

definition imm_b :: "u32 \<Rightarrow> i64" where
  "imm_b raw =
     (let b = push_bit 12 (ucast (drop_bit 31 raw AND 0x1))
           OR push_bit 11 (ucast (drop_bit 7 raw AND 0x1))
           OR push_bit 5 (ucast (drop_bit 25 raw AND 0x3f))
           OR push_bit 1 (ucast (drop_bit 8 raw AND 0xf))
      in sign_extend b 13)"

definition imm_u :: "u32 \<Rightarrow> i64" where
  "imm_u raw = scast (raw AND 0xfffff000)"

definition imm_j :: "u32 \<Rightarrow> i64" where
  "imm_j raw =
     (let b = push_bit 20 (ucast (drop_bit 31 raw AND 0x1))
           OR push_bit 12 (ucast (drop_bit 12 raw AND 0xff))
           OR push_bit 11 (ucast (drop_bit 20 raw AND 0x1))
           OR push_bit 1 (ucast (drop_bit 21 raw AND 0x3ff))
      in sign_extend b 21)"

definition format_for_opcode :: "u32 \<Rightarrow> format" where
  "format_for_opcode opc =
     (if opc \<in> {LOAD, LOAD_FP, MISC_MEM, OP_IMM, OP_IMM_32, JALR, SYSTEM} then I
      else if opc \<in> {STORE, STORE_FP} then S
      else if opc = BRANCH then B
      else if opc \<in> {AUIPC, LUI} then U
      else if opc = JAL then J
      else if opc \<in> {OP, OP_32, AMO, OP_FP, MADD, MSUB, NMSUB, NMADD} then R
      else Unknown)"

definition decode :: "u32 \<Rightarrow> decoded_inst" where
  "decode raw =
     (let opc = raw AND 0x7f;
          f = format_for_opcode opc;
          im = (case f of I \<Rightarrow> imm_i raw | S \<Rightarrow> imm_s raw | B \<Rightarrow> imm_b raw
                | U \<Rightarrow> imm_u raw | J \<Rightarrow> imm_j raw | R \<Rightarrow> 0 | Unknown \<Rightarrow> 0)
      in \<lparr>i_raw = raw, i_encoded = raw, i_length = 4, i_opcode = opc,
          i_rd = unat (drop_bit 7 raw AND 0x1f),
          i_rs1 = unat (drop_bit 15 raw AND 0x1f),
          i_rs2 = unat (drop_bit 20 raw AND 0x1f),
          i_funct3 = drop_bit 12 raw AND 0x07,
          i_funct7 = drop_bit 25 raw AND 0x7f,
          i_imm = im, i_fmt = f\<rparr>)"

section \<open>The C extension\<close>

definition creg :: "u32 \<Rightarrow> u32" where
  "creg three_bits = three_bits + 8"

definition enc_r :: "u32 \<Rightarrow> u32 \<Rightarrow> u32 \<Rightarrow> u32 \<Rightarrow> u32 \<Rightarrow> u32 \<Rightarrow> u32" where
  "enc_r opc rd f3 rs1 rs2 f7 =
     push_bit 25 f7 OR push_bit 20 rs2 OR push_bit 15 rs1 OR push_bit 12 f3 OR push_bit 7 rd OR opc"

definition enc_i :: "u32 \<Rightarrow> u32 \<Rightarrow> u32 \<Rightarrow> u32 \<Rightarrow> u32 \<Rightarrow> u32" where
  "enc_i opc rd f3 rs1 im =
     push_bit 20 (im AND 0xfff) OR push_bit 15 rs1 OR push_bit 12 f3 OR push_bit 7 rd OR opc"

definition enc_s :: "u32 \<Rightarrow> u32 \<Rightarrow> u32 \<Rightarrow> u32 \<Rightarrow> u32 \<Rightarrow> u32" where
  "enc_s opc f3 rs1 rs2 im =
     push_bit 20 (im AND 0xfe0) OR push_bit 20 rs2 OR push_bit 15 rs1 OR push_bit 12 f3
     OR push_bit 7 (im AND 0x1f) OR opc"

definition enc_b :: "u32 \<Rightarrow> u32 \<Rightarrow> u32 \<Rightarrow> u32 \<Rightarrow> u32 \<Rightarrow> u32" where
  "enc_b opc f3 rs1 rs2 im =
     push_bit 19 (im AND 0x1000) OR push_bit 20 (im AND 0x7e0) OR push_bit 20 rs2
     OR push_bit 15 rs1 OR push_bit 12 f3 OR push_bit 7 (im AND 0x1e)
     OR drop_bit 4 (im AND 0x800) OR opc"

definition enc_u :: "u32 \<Rightarrow> u32 \<Rightarrow> u32 \<Rightarrow> u32" where
  "enc_u opc rd im = (im AND 0xfffff000) OR push_bit 7 rd OR opc"

definition enc_j :: "u32 \<Rightarrow> u32 \<Rightarrow> u32 \<Rightarrow> u32" where
  "enc_j opc rd im =
     push_bit 11 (im AND 0x100000) OR push_bit 20 (im AND 0x7fe) OR push_bit 9 (im AND 0x800)
     OR (im AND 0xff000) OR push_bit 7 rd OR opc"

definition sx :: "u32 \<Rightarrow> nat \<Rightarrow> u32" where
  "sx v n = (let sign = push_bit (n - 1) 1 in (v XOR sign) - sign)"

definition bits16 :: "u16 \<Rightarrow> nat \<Rightarrow> nat \<Rightarrow> u32" where
  "bits16 h hi lo = drop_bit lo (ucast h) AND (push_bit (hi - lo + 1) 1 - 1)"

definition decompress_q0 :: "u16 \<Rightarrow> u32" where
  "decompress_q0 h =
     (let f3 = bits16 h 15 13; rd_p = creg (bits16 h 4 2); rs1_p = creg (bits16 h 9 7) in
      if f3 = 0 then
        (let im = push_bit 6 (bits16 h 10 7) OR push_bit 4 (bits16 h 12 11)
               OR push_bit 3 (bits16 h 5 5) OR push_bit 2 (bits16 h 6 6)
         in if im = 0 then 0 else enc_i OP_IMM rd_p 0x0 2 im)
      else if f3 = 2 then
        (let im = push_bit 6 (bits16 h 5 5) OR push_bit 3 (bits16 h 12 10) OR push_bit 2 (bits16 h 6 6)
         in enc_i LOAD rd_p 0x2 rs1_p im)
      else if f3 = 1 then
        (let im = push_bit 6 (bits16 h 6 5) OR push_bit 3 (bits16 h 12 10)
         in enc_i LOAD_FP rd_p 0x3 rs1_p im)
      else if f3 = 3 then
        (let im = push_bit 6 (bits16 h 6 5) OR push_bit 3 (bits16 h 12 10)
         in enc_i LOAD rd_p 0x3 rs1_p im)
      else if f3 = 5 then
        (let im = push_bit 6 (bits16 h 6 5) OR push_bit 3 (bits16 h 12 10)
         in enc_s STORE_FP 0x3 rs1_p rd_p im)
      else if f3 = 6 then
        (let im = push_bit 6 (bits16 h 5 5) OR push_bit 3 (bits16 h 12 10) OR push_bit 2 (bits16 h 6 6)
         in enc_s STORE 0x2 rs1_p rd_p im)
      else if f3 = 7 then
        (let im = push_bit 6 (bits16 h 6 5) OR push_bit 3 (bits16 h 12 10)
         in enc_s STORE 0x3 rs1_p rd_p im)
      else 0)"

definition decompress_misc_alu :: "u16 \<Rightarrow> u32" where
  "decompress_misc_alu h =
     (let rs2 = bits16 h 6 2; rd_p = creg (bits16 h 4 2); rs1_p = creg (bits16 h 9 7);
          group = bits16 h 11 10 in
      if group = 0 \<or> group = 1 then
        (let shamt = push_bit 5 (bits16 h 12 12) OR rs2;
             f6 = (if group = 0 then 0x00 else 0x10)
         in push_bit 26 f6 OR push_bit 20 shamt OR push_bit 15 rs1_p OR push_bit 12 0x5
            OR push_bit 7 rs1_p OR OP_IMM)
      else if group = 2 then
        (let im = sx (push_bit 5 (bits16 h 12 12) OR rs2) 6
         in enc_i OP_IMM rs1_p 0x7 rs1_p im)
      else
        (let sel = bits16 h 6 5 in
         if bits16 h 12 12 = 0 then
           (if sel = 0 then enc_r OP rs1_p 0x0 rs1_p rd_p 0x20
            else if sel = 1 then enc_r OP rs1_p 0x4 rs1_p rd_p 0x00
            else if sel = 2 then enc_r OP rs1_p 0x6 rs1_p rd_p 0x00
            else enc_r OP rs1_p 0x7 rs1_p rd_p 0x00)
         else
           (if sel = 0 then enc_r OP_32 rs1_p 0x0 rs1_p rd_p 0x20
            else if sel = 1 then enc_r OP_32 rs1_p 0x0 rs1_p rd_p 0x00
            else 0)))"

definition decompress_q1 :: "u16 \<Rightarrow> u32" where
  "decompress_q1 h =
     (let f3 = bits16 h 15 13; rd_rs1 = bits16 h 11 7; rs2 = bits16 h 6 2;
          rs1_p = creg (bits16 h 9 7) in
      if f3 = 0 then
        (let im = sx (push_bit 5 (bits16 h 12 12) OR rs2) 6 in enc_i OP_IMM rd_rs1 0x0 rd_rs1 im)
      else if f3 = 1 then
        (if rd_rs1 = 0 then 0
         else (let im = sx (push_bit 5 (bits16 h 12 12) OR rs2) 6
               in enc_i OP_IMM_32 rd_rs1 0x0 rd_rs1 im))
      else if f3 = 2 then
        (let im = sx (push_bit 5 (bits16 h 12 12) OR rs2) 6 in enc_i OP_IMM rd_rs1 0x0 0 im)
      else if f3 = 3 then
        (if rd_rs1 = 2 then
           (let im = sx (push_bit 9 (bits16 h 12 12) OR push_bit 7 (bits16 h 4 3)
                         OR push_bit 6 (bits16 h 5 5) OR push_bit 5 (bits16 h 2 2)
                         OR push_bit 4 (bits16 h 6 6)) 10
            in if im = 0 then 0 else enc_i OP_IMM 2 0x0 2 im)
         else if rd_rs1 = 0 then 0
         else (let im = sx (push_bit 5 (bits16 h 12 12) OR rs2) 6
               in if im = 0 then 0 else enc_u LUI rd_rs1 (push_bit 12 im)))
      else if f3 = 4 then decompress_misc_alu h
      else if f3 = 5 then
        (let im = sx (push_bit 11 (bits16 h 12 12) OR push_bit 10 (bits16 h 8 8)
                      OR push_bit 8 (bits16 h 10 9) OR push_bit 7 (bits16 h 6 6)
                      OR push_bit 6 (bits16 h 7 7) OR push_bit 5 (bits16 h 2 2)
                      OR push_bit 4 (bits16 h 11 11) OR push_bit 1 (bits16 h 5 3)) 12
         in enc_j JAL 0 im)
      else if f3 = 6 \<or> f3 = 7 then
        (let im = sx (push_bit 8 (bits16 h 12 12) OR push_bit 6 (bits16 h 6 5)
                      OR push_bit 5 (bits16 h 2 2) OR push_bit 3 (bits16 h 11 10)
                      OR push_bit 1 (bits16 h 4 3)) 9
         in enc_b BRANCH (if f3 = 6 then 0x0 else 0x1) rs1_p 0 im)
      else 0)"

definition decompress_q2 :: "u16 \<Rightarrow> u32" where
  "decompress_q2 h =
     (let f3 = bits16 h 15 13; rd_rs1 = bits16 h 11 7; rs2 = bits16 h 6 2 in
      if f3 = 0 then
        (if rd_rs1 = 0 then 0
         else (let shamt = push_bit 5 (bits16 h 12 12) OR rs2
               in push_bit 20 shamt OR push_bit 15 rd_rs1 OR push_bit 12 0x1 OR push_bit 7 rd_rs1
                  OR OP_IMM))
      else if f3 = 2 then
        (if rd_rs1 = 0 then 0
         else (let im = push_bit 6 (bits16 h 3 2) OR push_bit 5 (bits16 h 12 12)
                     OR push_bit 2 (bits16 h 6 4)
               in enc_i LOAD rd_rs1 0x2 2 im))
      else if f3 = 1 then
        (let im = push_bit 6 (bits16 h 4 2) OR push_bit 5 (bits16 h 12 12) OR push_bit 3 (bits16 h 6 5)
         in enc_i LOAD_FP rd_rs1 0x3 2 im)
      else if f3 = 3 then
        (if rd_rs1 = 0 then 0
         else (let im = push_bit 6 (bits16 h 4 2) OR push_bit 5 (bits16 h 12 12)
                     OR push_bit 3 (bits16 h 6 5)
               in enc_i LOAD rd_rs1 0x3 2 im))
      else if f3 = 5 then
        (let im = push_bit 6 (bits16 h 9 7) OR push_bit 3 (bits16 h 12 10)
         in enc_s STORE_FP 0x3 2 rs2 im)
      else if f3 = 4 then
        (if bits16 h 12 12 = 0 then
           (if rs2 = 0 then (if rd_rs1 = 0 then 0 else enc_i JALR 0 0x0 rd_rs1 0)
            else enc_r OP rd_rs1 0x0 0 rs2 0x00)
         else if rs2 = 0 then
           (if rd_rs1 = 0 then 0x00100073 else enc_i JALR 1 0x0 rd_rs1 0)
         else enc_r OP rd_rs1 0x0 rd_rs1 rs2 0x00)
      else if f3 = 6 then
        (let im = push_bit 6 (bits16 h 8 7) OR push_bit 2 (bits16 h 12 9)
         in enc_s STORE 0x2 2 rs2 im)
      else if f3 = 7 then
        (let im = push_bit 6 (bits16 h 9 7) OR push_bit 3 (bits16 h 12 10)
         in enc_s STORE 0x3 2 rs2 im)
      else 0)"

definition decompress :: "u16 \<Rightarrow> u32" where
  "decompress h =
     (if h = 0 then 0
      else (let opq = (ucast (h AND 0x3) :: u32) in
            if opq = 0 then decompress_q0 h
            else if opq = 1 then decompress_q1 h
            else if opq = 2 then decompress_q2 h
            else 0))"

definition is_32bit_instruction :: "u16 \<Rightarrow> bool" where
  "is_32bit_instruction half \<longleftrightarrow> half AND 0x3 = 0x3"

definition decode16 :: "u16 \<Rightarrow> u16 \<Rightarrow> decoded_inst" where
  "decode16 low high =
     (if is_32bit_instruction low then
        (let raw = push_bit 16 (ucast high) OR ucast low
         in (decode raw)\<lparr>i_encoded := raw, i_length := 4\<rparr>)
      else (decode (decompress low))\<lparr>i_encoded := ucast low, i_length := 2\<rparr>)"

section \<open>Mnemonics\<close>

definition mnemonic_op :: "decoded_inst \<Rightarrow> string" where
  "mnemonic_op i =
     (let f3 = i_funct3 i; f7 = i_funct7 i in
      if f7 = 0x01 then
        (if f3 = 0x0 then ''mul'' else if f3 = 0x1 then ''mulh'' else if f3 = 0x2 then ''mulhsu''
         else if f3 = 0x3 then ''mulhu'' else if f3 = 0x4 then ''div'' else if f3 = 0x5 then ''divu''
         else if f3 = 0x6 then ''rem'' else if f3 = 0x7 then ''remu'' else ''unimp'')
      else
        (if f3 = 0x0 then (if f7 = 0x20 then ''sub'' else ''add'')
         else if f3 = 0x1 then ''sll'' else if f3 = 0x2 then ''slt'' else if f3 = 0x3 then ''sltu''
         else if f3 = 0x4 then ''xor'' else if f3 = 0x5 then (if f7 = 0x20 then ''sra'' else ''srl'')
         else if f3 = 0x6 then ''or'' else if f3 = 0x7 then ''and'' else ''unimp''))"

definition mnemonic_op32 :: "decoded_inst \<Rightarrow> string" where
  "mnemonic_op32 i =
     (let f3 = i_funct3 i; f7 = i_funct7 i in
      if f7 = 0x01 then
        (if f3 = 0x0 then ''mulw'' else if f3 = 0x4 then ''divw'' else if f3 = 0x5 then ''divuw''
         else if f3 = 0x6 then ''remw'' else if f3 = 0x7 then ''remuw'' else ''unimp'')
      else
        (if f3 = 0x0 then (if f7 = 0x20 then ''subw'' else ''addw'')
         else if f3 = 0x1 then ''sllw''
         else if f3 = 0x5 then (if f7 = 0x20 then ''sraw'' else ''srlw'')
         else ''unimp''))"

definition mnemonic_amo :: "decoded_inst \<Rightarrow> string" where
  "mnemonic_amo i =
     (let w = (i_funct3 i = 0x2); pick = (\<lambda>a b. if w then a else b);
          f5 = drop_bit 2 (i_funct7 i) AND 0x1f in
      if f5 = 0x00 then pick ''amoadd.w'' ''amoadd.d''
      else if f5 = 0x01 then pick ''amoswap.w'' ''amoswap.d''
      else if f5 = 0x02 then pick ''lr.w'' ''lr.d''
      else if f5 = 0x03 then pick ''sc.w'' ''sc.d''
      else if f5 = 0x04 then pick ''amoxor.w'' ''amoxor.d''
      else if f5 = 0x08 then pick ''amoor.w'' ''amoor.d''
      else if f5 = 0x0c then pick ''amoand.w'' ''amoand.d''
      else if f5 = 0x10 then pick ''amomin.w'' ''amomin.d''
      else if f5 = 0x14 then pick ''amomax.w'' ''amomax.d''
      else if f5 = 0x18 then pick ''amominu.w'' ''amominu.d''
      else if f5 = 0x1c then pick ''amomaxu.w'' ''amomaxu.d''
      else ''unimp'')"

definition mnemonic_system :: "decoded_inst \<Rightarrow> string" where
  "mnemonic_system i =
     (let f3 = i_funct3 i; im = i_imm i AND 0xfff in
      if f3 = 0x0 then
        (if im = 0x000 then ''ecall'' else if im = 0x001 then ''ebreak''
         else if im = 0x102 then ''sret'' else if im = 0x105 then ''wfi''
         else if im = 0x302 then ''mret''
         else if i_funct7 i = 0x09 then ''sfence.vma'' else ''unimp'')
      else if f3 = 0x1 then ''csrrw'' else if f3 = 0x2 then ''csrrs'' else if f3 = 0x3 then ''csrrc''
      else if f3 = 0x5 then ''csrrwi'' else if f3 = 0x6 then ''csrrsi'' else if f3 = 0x7 then ''csrrci''
      else ''unimp'')"

definition mnemonic :: "decoded_inst \<Rightarrow> string" where
  "mnemonic i =
     (let opc = i_opcode i; f3 = i_funct3 i in
      if opc = LUI then ''lui''
      else if opc = AUIPC then ''auipc''
      else if opc = JAL then ''jal''
      else if opc = JALR then ''jalr''
      else if opc = BRANCH then
        (if f3 = 0x0 then ''beq'' else if f3 = 0x1 then ''bne'' else if f3 = 0x4 then ''blt''
         else if f3 = 0x5 then ''bge'' else if f3 = 0x6 then ''bltu'' else if f3 = 0x7 then ''bgeu''
         else ''unimp'')
      else if opc = LOAD then
        (if f3 = 0x0 then ''lb'' else if f3 = 0x1 then ''lh'' else if f3 = 0x2 then ''lw''
         else if f3 = 0x3 then ''ld'' else if f3 = 0x4 then ''lbu'' else if f3 = 0x5 then ''lhu''
         else if f3 = 0x6 then ''lwu'' else ''unimp'')
      else if opc = STORE then
        (if f3 = 0x0 then ''sb'' else if f3 = 0x1 then ''sh'' else if f3 = 0x2 then ''sw''
         else if f3 = 0x3 then ''sd'' else ''unimp'')
      else if opc = OP_IMM then
        (if f3 = 0x0 then ''addi'' else if f3 = 0x1 then ''slli'' else if f3 = 0x2 then ''slti''
         else if f3 = 0x3 then ''sltiu'' else if f3 = 0x4 then ''xori''
         else if f3 = 0x5 then (if funct6 i = 0x10 then ''srai'' else ''srli'')
         else if f3 = 0x6 then ''ori'' else if f3 = 0x7 then ''andi'' else ''unimp'')
      else if opc = OP_IMM_32 then
        (if f3 = 0x0 then ''addiw'' else if f3 = 0x1 then ''slliw''
         else if f3 = 0x5 then (if i_funct7 i = 0x20 then ''sraiw'' else ''srliw'')
         else ''unimp'')
      else if opc = OP then mnemonic_op i
      else if opc = OP_32 then mnemonic_op32 i
      else if opc = MISC_MEM then (if f3 = 0x1 then ''fence.i'' else ''fence'')
      else if opc = AMO then mnemonic_amo i
      else if opc = SYSTEM then mnemonic_system i
      else ''unimp'')"

section \<open>Lemmas\<close>

text \<open>The encoders put every field where the decoder reads it.\<close>

lemma enc_r_fields:
  assumes "opc < 128" "rd < 32" "f3 < 8" "rs1 < 32" "rs2 < 32" "f7 < 128"
  defines "w \<equiv> enc_r opc rd f3 rs1 rs2 f7"
  shows "w AND 0x7f = opc" "drop_bit 7 w AND 0x1f = rd" "drop_bit 12 w AND 0x07 = f3"
    "drop_bit 15 w AND 0x1f = rs1" "drop_bit 20 w AND 0x1f = rs2" "drop_bit 25 w AND 0x7f = f7"
  using assms(1-6) unfolding w_def enc_r_def by (simp_all add: fields)

lemma enc_i_fields:
  fixes im :: u32
  assumes "opc < 128" "rd < 32" "f3 < 8" "rs1 < 32"
  defines "w \<equiv> enc_i opc rd f3 rs1 im"
  shows "w AND 0x7f = opc" "drop_bit 7 w AND 0x1f = rd" "drop_bit 12 w AND 0x07 = f3"
    "drop_bit 15 w AND 0x1f = rs1" "drop_bit 20 w AND 0xfff = im AND 0xfff"
  using assms(1-4) unfolding w_def enc_i_def by (simp_all add: fields)

lemma enc_s_fields:
  fixes im :: u32
  assumes "opc < 128" "f3 < 8" "rs1 < 32" "rs2 < 32"
  defines "w \<equiv> enc_s opc f3 rs1 rs2 im"
  shows "w AND 0x7f = opc" "drop_bit 12 w AND 0x07 = f3"
    "drop_bit 15 w AND 0x1f = rs1" "drop_bit 20 w AND 0x1f = rs2"
  using assms(1-4) unfolding w_def enc_s_def by (simp_all add: fields)

lemma enc_b_fields:
  fixes im :: u32
  assumes "opc < 128" "f3 < 8" "rs1 < 32" "rs2 < 32"
  defines "w \<equiv> enc_b opc f3 rs1 rs2 im"
  shows "w AND 0x7f = opc" "drop_bit 12 w AND 0x07 = f3"
    "drop_bit 15 w AND 0x1f = rs1" "drop_bit 20 w AND 0x1f = rs2"
  using assms(1-4) unfolding w_def enc_b_def by (simp_all add: fields)

lemma enc_u_fields:
  fixes im :: u32
  assumes "opc < 128" "rd < 32"
  defines "w \<equiv> enc_u opc rd im"
  shows "w AND 0x7f = opc" "drop_bit 7 w AND 0x1f = rd"
  using assms(1-2) unfolding w_def enc_u_def by (simp_all add: fields)

lemma enc_j_fields:
  fixes im :: u32
  assumes "opc < 128" "rd < 32"
  defines "w \<equiv> enc_j opc rd im"
  shows "w AND 0x7f = opc" "drop_bit 7 w AND 0x1f = rd"
  using assms(1-2) unfolding w_def enc_j_def by (simp_all add: fields)

lemma sign_extend_cong:
  assumes "0 < n" "n \<le> 64" "\<And>k. k < n \<Longrightarrow> bit a k \<longleftrightarrow> bit b k"
  shows "sign_extend a n = sign_extend b n"
  by (rule bit_word_eqI) (use assms in \<open>simp add: bit_sign_extend\<close>)

lemma reg_high_bit [simp]: "x < (32 :: u32) \<Longrightarrow> 5 \<le> k \<Longrightarrow> \<not> bit x k"
  using word_field_bit [of x 5 k] by auto

lemma f3_high_bit [simp]: "x < (8 :: u32) \<Longrightarrow> 3 \<le> k \<Longrightarrow> \<not> bit x k"
  using word_field_bit [of x 3 k] by auto

lemma opcode_high_bit [simp]: "x < (128 :: u32) \<Longrightarrow> 7 \<le> k \<Longrightarrow> \<not> bit x k"
  using word_field_bit [of x 7 k] by auto

text \<open>Bit positions of an immediate, one at a time.\<close>

lemma below_9:
  "(k :: nat) < 9 \<Longrightarrow>
     k = 0 \<or> k = 1 \<or> k = 2 \<or> k = 3 \<or> k = 4 \<or> k = 5 \<or> k = 6 \<or> k
     = 7 \<or> k = 8"
  by arith

lemma below_12:
  "(k :: nat) < 12 \<Longrightarrow>
     k = 0 \<or> k = 1 \<or> k = 2 \<or> k = 3 \<or> k = 4 \<or> k = 5 \<or> k = 6 \<or> k
     = 7 \<or> k = 8 \<or> k = 9 \<or> k = 10 \<or> k = 11"
  by arith

lemma below_13:
  "(k :: nat) < 13 \<Longrightarrow>
     k = 0 \<or> k = 1 \<or> k = 2 \<or> k = 3 \<or> k = 4 \<or> k = 5 \<or> k = 6 \<or> k
     = 7 \<or> k = 8 \<or> k = 9 \<or> k = 10 \<or> k = 11 \<or> k = 12"
  by arith

lemma below_21:
  "(k :: nat) < 21 \<Longrightarrow>
     k = 0 \<or> k = 1 \<or> k = 2 \<or> k = 3 \<or> k = 4 \<or> k = 5 \<or> k = 6 \<or> k
     = 7 \<or> k = 8 \<or> k = 9 \<or> k = 10 \<or> k = 11 \<or> k = 12 \<or> k = 13 \<or>
     k = 14 \<or> k = 15 \<or> k = 16 \<or> k = 17 \<or> k = 18 \<or> k = 19 \<or> k = 20"
  by arith

lemma imm_i_enc:
  assumes "opc < 128" "rd < 32" "f3 < 8" "rs1 < 32"
  shows "imm_i (enc_i opc rd f3 rs1 im) = sign_extend (ucast im) 12"
  unfolding imm_i_def using assms
  by (simp add: enc_i_fields, intro sign_extend_cong) (auto simp: bit_simps mask_bits)

lemma imm_s_enc:
  assumes "opc < 128" "f3 < 8" "rs1 < 32" "rs2 < 32"
  shows "imm_s (enc_s opc f3 rs1 rs2 im) = sign_extend (ucast im) 12"
  unfolding imm_s_def enc_s_def Let_def
  by (rule sign_extend_cong; (drule below_12; elim disjE)?; use assms in \<open>simp add: bit_simps del: push_bit_Suc\<close>)

lemma imm_b_enc:
  assumes "opc < 128" "f3 < 8" "rs1 < 32" "rs2 < 32" "\<not> bit im 0"
  shows "imm_b (enc_b opc f3 rs1 rs2 im) = sign_extend (ucast im) 13"
  unfolding imm_b_def enc_b_def Let_def
  by (rule sign_extend_cong; (drule below_13; elim disjE)?; use assms in \<open>simp add: bit_simps del: push_bit_Suc\<close>)

lemma bit_upper20: "bit (0xfffff000 :: int) k \<longleftrightarrow> 12 \<le> k \<and> k < 32"
  using bit_run_iff [of "0xfffff000" 12 20 k] by (simp add: mask_eq_exp_minus_1 push_bit_eq_mult)

lemma imm_u_enc:
  assumes "opc < 128" "rd < 32"
  shows "imm_u (enc_u opc rd im) = scast (im AND 0xfffff000)"
  unfolding imm_u_def enc_u_def
  by (rule arg_cong [of _ _ scast], rule bit_word_eqI)
    (use assms in \<open>auto simp: bit_simps bit_upper20\<close>)

lemma imm_j_enc:
  assumes "opc < 128" "rd < 32" "\<not> bit im 0"
  shows "imm_j (enc_j opc rd im) = sign_extend (ucast im) 21"
  unfolding imm_j_def enc_j_def Let_def
  by (rule sign_extend_cong; (drule below_21; elim disjE)?; use assms in \<open>simp add: bit_simps del: push_bit_Suc\<close>)

subsection \<open>Compressed fields\<close>

lemma bits16_mask: "bits16 h hi lo = take_bit (hi - lo + 1) (drop_bit lo (ucast h))"
  by (simp add: bits16_def take_bit_eq_mask mask_eq_exp_minus_1 push_bit_of_1)

lemma bit_bits16 [bit_simps]: "bit (bits16 h hi lo) k \<longleftrightarrow> k \<le> hi - lo \<and> bit h (lo + k)"
  by (auto simp: bits16_mask bit_simps dest: bit_imp_le_length)

lemma bits16_less: "hi - lo < 31 \<Longrightarrow> bits16 h hi lo < 2 ^ (hi - lo + 1)"
  unfolding bits16_mask take_bit_eq_mask by (rule and_mask_less_size) (simp add: word_size)

lemma bits16_reg [simp]:
  "bits16 h 11 7 < 32" "bits16 h 6 2 < 32"
  using bits16_less [of 11 7 h] bits16_less [of 6 2 h] by simp_all

lemma creg_bounds [simp]: "creg (bits16 h 9 7) < 32" "creg (bits16 h 4 2) < 32"
  using bits16_less [of 9 7 h] bits16_less [of 4 2 h]
  by (simp_all add: creg_def word_less_nat_alt unat_word_ariths)

text \<open>The two-instruction sign extension of the expander is sign extension.\<close>

lemma bit_sx:
  assumes n: "0 < n" "n < 32" and v: "v < 2 ^ n" and k: "k < 32"
  shows "bit (sx v n) k \<longleftrightarrow> bit v (if k < n then k else n - 1)"
proof -
  let ?s = "push_bit (n - 1) 1 :: u32"
  have hi: "\<not> bit v j" if "n \<le> j" for j
    using word_field_bit [OF v] n that by fastforce
  show ?thesis
  proof (cases "bit v (n - 1)")
    case True
    have "NOT v AND ?s = 0"
      by (rule bit_word_eqI) (use True in \<open>auto simp: bit_simps\<close>)
    then have "v XOR ?s = v - ?s"
      by (simp add: disjunctive_diff_eq_and_not disjunctive_and_not_eq_xor)
    then have "sx v n = v - push_bit n 1"
      using n by (simp add: sx_def Let_def) (simp flip: power_Suc add: power_eq_if)
    also have "\<dots> = v + NOT (mask n)"
      by (simp add: minus_exp_eq_not_mask [symmetric])
    also have "\<dots> = v OR NOT (mask n)"
      by (rule disjunctive_add_eq_or, rule bit_word_eqI) (use word_field_bit [OF v] n in \<open>auto simp: bit_simps\<close>)
    finally show ?thesis
      using True k by (auto simp: bit_simps)
  next
    case False
    have "v XOR ?s = v + ?s"
      by (rule sym, rule disjunctive_add_eq_xor, rule bit_word_eqI) (use False in \<open>auto simp: bit_simps\<close>)
    then have "sx v n = v"
      by (simp add: sx_def Let_def)
    with False hi show ?thesis
      by (auto simp: not_less)
  qed
qed

subsection \<open>Expansions\<close>

text \<open>What an expansion may be: the illegal word zero, or a word with one of these opcodes.\<close>

definition expansion_ok :: "u32 \<Rightarrow> bool" where
  "expansion_ok w \<longleftrightarrow> w = 0 \<or> w AND 0x7f \<in> {LOAD, LOAD_FP, OP_IMM, OP_IMM_32, STORE, STORE_FP,
     OP, OP_32, LUI, BRANCH, JALR, JAL, SYSTEM}"

lemma shift_imm_opcode:
  assumes "rd < 32" "rs1 < 32"
  shows "(push_bit 26 f6 OR push_bit 20 sh OR push_bit 15 rs1 OR push_bit 12 (5 :: u32) OR push_bit 7 rd
           OR OP_IMM) AND 0x7f = OP_IMM"
    "(push_bit 20 sh OR push_bit 15 rs1 OR push_bit 12 (5 :: u32) OR push_bit 7 rd
           OR OP_IMM) AND 0x7f = OP_IMM"
    "(push_bit 20 sh OR push_bit 15 rs1 OR push_bit 12 (1 :: u32) OR push_bit 7 rd
           OR OP_IMM) AND 0x7f = OP_IMM"
  using assms by (simp_all add: fields)

lemma expansion_ok_enc:
  "expansion_ok 0" "expansion_ok 0x00100073"
  "rd < 32 \<Longrightarrow> f3 < 8 \<Longrightarrow> rs1 < 32 \<Longrightarrow> rs2 < 32 \<Longrightarrow> f7 < 128 \<Longrightarrow> opc \<in> {OP, OP_32} \<Longrightarrow>
     expansion_ok (enc_r opc rd f3 rs1 rs2 f7)"
  "rd < 32 \<Longrightarrow> f3 < 8 \<Longrightarrow> rs1 < 32 \<Longrightarrow> opc \<in> {LOAD, LOAD_FP, OP_IMM, OP_IMM_32, JALR} \<Longrightarrow>
     expansion_ok (enc_i opc rd f3 rs1 im)"
  "f3 < 8 \<Longrightarrow> rs1 < 32 \<Longrightarrow> rs2 < 32 \<Longrightarrow> opc \<in> {STORE, STORE_FP} \<Longrightarrow>
     expansion_ok (enc_s opc f3 rs1 rs2 im)"
  "f3 < 8 \<Longrightarrow> rs1 < 32 \<Longrightarrow> rs2 < 32 \<Longrightarrow> expansion_ok (enc_b BRANCH f3 rs1 rs2 im)"
  "rd < 32 \<Longrightarrow> expansion_ok (enc_u LUI rd im)"
  "rd < 32 \<Longrightarrow> expansion_ok (enc_j JAL rd im)"
  unfolding expansion_ok_def
  by (auto simp: enc_r_fields enc_i_fields enc_s_fields enc_b_fields enc_u_fields enc_j_fields)

lemma expansion_ok_shift:
  assumes "rd < 32" "rs1 < 32"
  shows "expansion_ok (push_bit 26 f6 OR push_bit 20 sh OR push_bit 15 rs1 OR push_bit 12 5 OR push_bit 7 rd
           OR OP_IMM)"
    "expansion_ok (push_bit 20 sh OR push_bit 15 rs1 OR push_bit 12 1 OR push_bit 7 rd OR OP_IMM)"
  unfolding expansion_ok_def shift_imm_opcode [OF assms] by simp_all

lemma expansion_ok_if:
  "(c \<Longrightarrow> expansion_ok a) \<Longrightarrow> (\<not> c \<Longrightarrow> expansion_ok b) \<Longrightarrow> expansion_ok (if c then a else b)"
  by simp

lemmas expansion_rules = expansion_ok_if expansion_ok_enc expansion_ok_shift

lemma decompress_q0_ok: "expansion_ok (decompress_q0 h)"
  unfolding decompress_q0_def Let_def
  by (intro expansion_rules; simp)

lemma decompress_misc_alu_ok: "expansion_ok (decompress_misc_alu h)"
  unfolding decompress_misc_alu_def Let_def
  by (intro expansion_rules; simp)

lemma decompress_q1_ok: "expansion_ok (decompress_q1 h)"
  unfolding decompress_q1_def Let_def
  by (intro expansion_rules decompress_misc_alu_ok; simp)

lemma decompress_q2_ok: "expansion_ok (decompress_q2 h)"
  unfolding decompress_q2_def Let_def
  by (intro expansion_rules; simp)

lemma decompress_ok: "expansion_ok (decompress h)"
  unfolding decompress_def Let_def
  by (intro expansion_rules decompress_q0_ok decompress_q1_ok decompress_q2_ok)

lemma decompress_not_unknown:
  "decompress h \<noteq> 0 \<Longrightarrow> i_fmt (decode (decompress h)) \<noteq> Unknown"
  using decompress_ok [of h]
  by (auto simp: expansion_ok_def decode_def Let_def format_for_opcode_def)

lemma decompress_length_bits: "decompress h \<noteq> 0 \<Longrightarrow> decompress h AND 3 = 3"
proof -
  assume "decompress h \<noteq> 0"
  moreover have "decompress h AND 3 = (decompress h AND 0x7f) AND 3"
    by (simp add: and.assoc)
  ultimately show ?thesis
    using decompress_ok [of h] by (auto simp: expansion_ok_def)
qed

lemma sign_extend_sx:
  assumes "0 < n" "n \<le> m" "m \<le> 32" "n < 32" "v < 2 ^ n"
  shows "sign_extend (ucast (sx v n)) m = sign_extend (ucast v) n"
  by (cases "n = m"; rule bit_word_eqI) (use assms in \<open>auto simp: bit_sign_extend bit_sx bit_simps\<close>)

lemma word_less_expI: "(\<And>k. n \<le> k \<Longrightarrow> \<not> bit x k) \<Longrightarrow> n < LENGTH('a) \<Longrightarrow> (x :: 'a::len word) < 2 ^ n"
  using and_mask_less_size [of n x]
  by (metis bit_take_bit_iff bit_word_eqI leI take_bit_eq_mask word_size)

lemma quadrant_1: "h AND 3 = 1 \<Longrightarrow> decompress h = decompress_q1 h"
  by (auto simp: decompress_def Let_def)

definition cj_offset :: "u16 \<Rightarrow> u32" where
  "cj_offset h = push_bit 11 (bits16 h 12 12) OR push_bit 10 (bits16 h 8 8)
      OR push_bit 8 (bits16 h 10 9) OR push_bit 7 (bits16 h 6 6)
      OR push_bit 6 (bits16 h 7 7) OR push_bit 5 (bits16 h 2 2)
      OR push_bit 4 (bits16 h 11 11) OR push_bit 1 (bits16 h 5 3)"

lemma cj_offset_less: "cj_offset h < 2 ^ 12"
  by (rule word_less_expI) (auto simp: cj_offset_def bit_simps simp del: push_bit_Suc)

lemma bit_cj_offset:
  "k < 12 \<Longrightarrow> bit (cj_offset h) k \<longleftrightarrow> 0 < k \<and> bit h ([0, 3, 4, 5, 11, 2, 7, 6, 9, 10, 8, 12] ! k)"
  unfolding cj_offset_def
  by (drule below_12; elim disjE; simp add: bit_simps del: push_bit_Suc)

definition cb_offset :: "u16 \<Rightarrow> u32" where
  "cb_offset h = push_bit 8 (bits16 h 12 12) OR push_bit 6 (bits16 h 6 5)
      OR push_bit 5 (bits16 h 2 2) OR push_bit 3 (bits16 h 11 10) OR push_bit 1 (bits16 h 4 3)"

lemma cb_offset_less: "cb_offset h < 2 ^ 9"
  by (rule word_less_expI) (auto simp: cb_offset_def bit_simps simp del: push_bit_Suc)

lemma bit_cb_offset:
  "k < 9 \<Longrightarrow> bit (cb_offset h) k \<longleftrightarrow> 0 < k \<and> bit h ([0, 3, 4, 10, 11, 2, 5, 6, 12] ! k)"
  unfolding cb_offset_def
  by (drule below_9; elim disjE; simp add: bit_simps del: push_bit_Suc)

lemma decode16_c: "h AND 3 \<noteq> 3 \<Longrightarrow> decode16 h hi = (decode (decompress h))\<lparr>i_encoded := ucast h, i_length := 2\<rparr>"
  by (simp add: decode16_def is_32bit_instruction_def)

lemma decode_jal:
  assumes "rd < 32" "\<not> bit im 0"
  shows "i_opcode (decode (enc_j JAL rd im)) = JAL" "i_rd (decode (enc_j JAL rd im)) = unat rd"
    "i_imm (decode (enc_j JAL rd im)) = sign_extend (ucast im) 21"
  using assms by (simp_all add: decode_def Let_def enc_j_fields imm_j_enc format_for_opcode_def)

lemma decode_branch:
  assumes "f3 < 8" "rs1 < 32" "rs2 < 32" "\<not> bit im 0"
  defines "i \<equiv> decode (enc_b BRANCH f3 rs1 rs2 im)"
  shows "i_opcode i = BRANCH" "i_funct3 i = f3" "i_rs1 i = unat rs1" "i_rs2 i = unat rs2"
    "i_imm i = sign_extend (ucast im) 13"
  using assms(1-4) unfolding i_def
  by (simp_all add: decode_def Let_def enc_b_fields imm_b_enc format_for_opcode_def)

section \<open>Properties\<close>

text \<open>a compressed jump decodes to a two-byte \<open>JAL x0\<close> whose offset is the sign-extended
  permutation of the halfword's bits that the instruction set prescribes for \<open>C.J\<close>.\<close>

lemma compressed_jump:
  assumes "h AND 3 = 1" "bits16 h 15 13 = 5"
  shows "i_opcode (decode16 h hi) = JAL \<and> i_rd (decode16 h hi) = 0 \<and> i_length (decode16 h hi) = 2 \<and>
    (bit (i_imm (decode16 h hi)) k \<longleftrightarrow>
       k < 64 \<and> 0 < k \<and> bit h ([0, 3, 4, 5, 11, 2, 7, 6, 9, 10, 8, 12] ! min k 11))"
proof -
  have *: "decompress h = enc_j JAL 0 (sx (cj_offset h) 12)"
    using assms by (simp add: quadrant_1 decompress_q1_def Let_def cj_offset_def del: push_bit_Suc)
  have 0: "\<not> bit (sx (cj_offset h) 12) 0"
    using bit_sx [of 12 "cj_offset h" 0] bit_cj_offset [of 0 h] cj_offset_less [of h] by simp
  have "i_imm (decode (decompress h)) = sign_extend (ucast (cj_offset h)) 12"
    unfolding * using decode_jal(3) [OF _ 0, of 0] cj_offset_less [of h]
    by (simp add: sign_extend_sx)
  then have "bit (i_imm (decode (decompress h))) k \<longleftrightarrow> k < 64 \<and> bit (cj_offset h) (min k 11)"
    by (auto simp: bit_sign_extend bit_simps min_def)
  then show ?thesis
    using assms decode_jal [OF _ 0, of 0] bit_cj_offset [of "min k 11" h]
    by (simp add: decode16_c *)
qed

lemma compressed_jump_witness: "i_opcode (decode16 0xa001 0) = JAL \<and> \<not> bit (i_imm (decode16 0xa001 0)) 5"
  using compressed_jump [of "0xa001" 0 5] by (simp add: bits16_def)

text \<open>a compressed branch decodes to a two-byte \<open>BEQ\<close> or \<open>BNE\<close> of the compressed register against
  \<open>x0\<close>, with the sign-extended permuted offset of \<open>C.BEQZ\<close> and \<open>C.BNEZ\<close>.\<close>

lemma compressed_branch:
  assumes "h AND 3 = 1" "bits16 h 15 13 \<in> {6, 7}"
  shows "i_opcode (decode16 h hi) = BRANCH \<and> i_rs1 (decode16 h hi) = 8 + unat (bits16 h 9 7) \<and>
    i_rs2 (decode16 h hi) = 0 \<and> i_funct3 (decode16 h hi) = bits16 h 15 13 - 6 \<and>
    i_length (decode16 h hi) = 2 \<and>
    (bit (i_imm (decode16 h hi)) k \<longleftrightarrow>
       k < 64 \<and> 0 < k \<and> bit h ([0, 3, 4, 10, 11, 2, 5, 6, 12] ! min k 8))"
proof -
  let ?f3 = "if bits16 h 15 13 = 6 then 0 else 1 :: u32" and ?rs1 = "creg (bits16 h 9 7)"
  have *: "decompress h = enc_b BRANCH ?f3 ?rs1 0 (sx (cb_offset h) 9)"
    using assms by (auto simp: quadrant_1 decompress_q1_def Let_def cb_offset_def simp del: push_bit_Suc)
  have 0: "\<not> bit (sx (cb_offset h) 9) 0"
    using bit_sx [of 9 "cb_offset h" 0] bit_cb_offset [of 0 h] cb_offset_less [of h] by simp
  have f3: "?f3 < 8"
    by simp
  note dec = decode_branch [OF f3 creg_bounds(1) _ 0, of 0 h]
  have "i_imm (decode (decompress h)) = sign_extend (ucast (cb_offset h)) 9"
    unfolding * using dec(5) cb_offset_less [of h] by (simp add: sign_extend_sx)
  then have "bit (i_imm (decode (decompress h))) k \<longleftrightarrow> k < 64 \<and> bit (cb_offset h) (min k 8)"
    by (auto simp: bit_sign_extend bit_simps min_def)
  moreover have "unat ?rs1 = 8 + unat (bits16 h 9 7)"
    using bits16_less [of 9 7 h] by (simp add: creg_def word_less_nat_alt unat_word_ariths)
  ultimately show ?thesis
    using assms dec(1-4) bit_cb_offset [of "min k 8" h] by (auto simp: decode16_c *)
qed

lemma compressed_branch_witness: "i_opcode (decode16 0xc401 0) = BRANCH \<and> i_rs1 (decode16 0xc401 0) = 8"
  using compressed_branch [of "0xc401" 0 0] by (simp add: bits16_def)




end
