(* ===== verification/Alu.thy ===== *)
theory Alu
  imports Rv_Types
begin

text \<open>
  The arithmetic beneath the integer instructions: the reference ALU and the two optional
  backends of \<open>src/src/backends.rs\<close>, and the bit-manipulation functions of
  \<open>src/src/bitmanip.rs\<close>. The backend traits have no implementation in the sources: a backend is
  an element of a codatatype, an object whose every call returns a result and the object's
  next state, so a theorem about all backends is a theorem about all implementations of the
  traits.
\<close>

section \<open>The reference ALU and the backends\<close>

codatatype regfile = RegFile (rf_read: "nat \<Rightarrow> u64 \<times> regfile") (rf_write: "nat \<Rightarrow> u64 \<Rightarrow> regfile")

datatype alu_op = Add | Sub | And | Or | Xor | Sll | Srl | Sra | Slt | Sltu
  | AddW | SubW | SllW | SrlW | SraW

codatatype alu_backend = AluBackend (be_exec: "alu_op \<Rightarrow> u64 \<Rightarrow> u64 \<Rightarrow> u64 \<times> alu_backend")

definition alu_reference :: "alu_op \<Rightarrow> u64 \<Rightarrow> u64 \<Rightarrow> u64" where
  "alu_reference opr a b =
     (let sx32 = (\<lambda>v :: u32. scast v); a32 = ucast a; b32 = ucast b in
      case opr of
        Add \<Rightarrow> a + b
      | Sub \<Rightarrow> a - b
      | And \<Rightarrow> a AND b
      | Or \<Rightarrow> a OR b
      | Xor \<Rightarrow> a XOR b
      | Sll \<Rightarrow> push_bit (unat (b AND 0x3f)) a
      | Srl \<Rightarrow> drop_bit (unat (b AND 0x3f)) a
      | Sra \<Rightarrow> signed_drop_bit (unat (b AND 0x3f)) a
      | Slt \<Rightarrow> of_bool (a <s b)
      | Sltu \<Rightarrow> of_bool (a < b)
      | AddW \<Rightarrow> sx32 (a32 + b32)
      | SubW \<Rightarrow> sx32 (a32 - b32)
      | SllW \<Rightarrow> sx32 (push_bit (unat (b AND 0x1f)) a32)
      | SrlW \<Rightarrow> sx32 (drop_bit (unat (b AND 0x1f)) a32)
      | SraW \<Rightarrow> sx32 (signed_drop_bit (unat (b AND 0x1f)) a32))"

section \<open>Bit manipulation\<close>

text \<open>The counting methods of Rust's integer types.\<close>

definition leading_zeros :: "'a::len word \<Rightarrow> nat" where
  "leading_zeros w = length (takeWhile (\<lambda>k. \<not> bit w k) (rev [0..<LENGTH('a)]))"

definition trailing_zeros :: "'a::len word \<Rightarrow> nat" where
  "trailing_zeros w = length (takeWhile (\<lambda>k. \<not> bit w k) [0..<LENGTH('a)])"

definition count_ones :: "'a::len word \<Rightarrow> nat" where
  "count_ones w = length (filter (bit w) [0..<LENGTH('a)])"

definition swap_bytes :: "u64 \<Rightarrow> u64" where
  "swap_bytes x = fold (\<lambda>i r. r OR push_bit (56 - 8 * i) (drop_bit (8 * i) x AND 0xff)) [0..<8] 0"

definition zext32 :: "u64 \<Rightarrow> u64" where
  "zext32 x = x AND 0xffffffff"

definition sext :: "u64 \<Rightarrow> nat \<Rightarrow> u64" where
  "sext x n = sign_extend x n"

definition rol64 :: "u64 \<Rightarrow> u32 \<Rightarrow> u64" where
  "rol64 x n = word_rotl (unat (n AND 63)) x"

definition ror64 :: "u64 \<Rightarrow> u32 \<Rightarrow> u64" where
  "ror64 x n = word_rotr (unat (n AND 63)) x"

definition rol32 :: "u32 \<Rightarrow> u32 \<Rightarrow> u32" where
  "rol32 x n = word_rotl (unat (n AND 31)) x"

definition ror32 :: "u32 \<Rightarrow> u32 \<Rightarrow> u32" where
  "ror32 x n = word_rotr (unat (n AND 31)) x"

definition clz64 :: "u64 \<Rightarrow> u64" where "clz64 x = of_nat (leading_zeros x)"
definition ctz64 :: "u64 \<Rightarrow> u64" where "ctz64 x = of_nat (trailing_zeros x)"
definition cpop64 :: "u64 \<Rightarrow> u64" where "cpop64 x = of_nat (count_ones x)"
definition clz32 :: "u64 \<Rightarrow> u64" where "clz32 x = of_nat (leading_zeros (ucast x :: u32))"
definition ctz32 :: "u64 \<Rightarrow> u64" where "ctz32 x = of_nat (trailing_zeros (ucast x :: u32))"
definition cpop32 :: "u64 \<Rightarrow> u64" where "cpop32 x = of_nat (count_ones (ucast x :: u32))"

definition rev8 :: "u64 \<Rightarrow> u64" where
  "rev8 x = swap_bytes x"

definition orc_b :: "u64 \<Rightarrow> u64" where
  "orc_b x = fold (\<lambda>i r. if drop_bit (8 * i) x AND 0xff \<noteq> 0 then r OR push_bit (8 * i) 0xff else r)
     [0..<8] 0"

definition clmul_step :: "u64 \<Rightarrow> u64 \<Rightarrow> nat \<Rightarrow> u64 \<times> u64 \<Rightarrow> u64 \<times> u64" where
  "clmul_step a b i s =
     (if drop_bit i b AND 1 \<noteq> 0
      then (fst s XOR push_bit i a, if i \<noteq> 0 then snd s XOR drop_bit (64 - i) a else snd s)
      else s)"

definition clmul128 :: "u64 \<Rightarrow> u64 \<Rightarrow> u64 \<times> u64" where
  "clmul128 a b = fold (clmul_step a b) [0..<64] (0, 0)"

definition clmul :: "u64 \<Rightarrow> u64 \<Rightarrow> u64" where
  "clmul a b = fst (clmul128 a b)"

definition clmulh :: "u64 \<Rightarrow> u64 \<Rightarrow> u64" where
  "clmulh a b = snd (clmul128 a b)"

definition clmulr :: "u64 \<Rightarrow> u64 \<Rightarrow> u64" where
  "clmulr a b = (let (lo, hi) = clmul128 a b in push_bit 1 hi OR drop_bit 63 lo)"

section \<open>Lemmas\<close>

subsection \<open>Carry-less multiplication\<close>

text \<open>
  The reference: coefficient \<open>n\<close> of the product of two polynomials over GF(2) is the parity of
  the number of pairs of coefficients whose degrees add up to \<open>n\<close>.
\<close>

definition gf2_coeff :: "u64 \<Rightarrow> u64 \<Rightarrow> nat \<Rightarrow> bool" where
  "gf2_coeff a b n \<longleftrightarrow> odd (card {i. i \<le> n \<and> bit b i \<and> bit a (n - i)})"

lemma odd_test: "(drop_bit i b AND 1 \<noteq> (0 :: u64)) \<longleftrightarrow> bit b i"
  by (simp add: bit_iff_odd_drop_bit and_one_eq mod_2_eq_odd)

lemma clmul_prefix_lo:
  "k < 64 \<Longrightarrow> bit (fst (fold (clmul_step a b) [0..<m] (0, 0))) k
     \<longleftrightarrow> odd (card {i. i < m \<and> i \<le> k \<and> bit b i \<and> bit a (k - i)})"
proof (induction m)
  case (Suc m)
  let ?S = "\<lambda>m. {i. i < m \<and> i \<le> k \<and> bit b i \<and> bit a (k - i)}"
  have "?S (Suc m) = (if m \<le> k \<and> bit b m \<and> bit a (k - m) then insert m (?S m) else ?S m)"
    by (auto simp: less_Suc_eq)
  then show ?case
    using Suc by (simp add: clmul_step_def odd_test bit_simps)
qed simp

lemma clmul_prefix_hi:
  "k < 64 \<Longrightarrow> m \<le> 64 \<Longrightarrow> bit (snd (fold (clmul_step a b) [0..<m] (0, 0))) k
     \<longleftrightarrow> odd (card {i. i < m \<and> bit b i \<and> bit a (64 + k - i)})"
proof (induction m)
  case (Suc m)
  let ?S = "\<lambda>m. {i. i < m \<and> bit b i \<and> bit a (64 + k - i)}"
  have S: "?S (Suc m) = (if bit b m \<and> bit a (64 + k - m) then insert m (?S m) else ?S m)"
    by (auto simp: less_Suc_eq)
  have "\<not> bit a (64 + k)"
    using bit_imp_le_length by fastforce
  moreover have "bit (drop_bit (64 - m) a) k \<longleftrightarrow> bit a (64 + k - m)"
    using Suc.prems by (simp add: bit_drop_bit_eq add.commute)
  ultimately show ?case
    unfolding S using Suc by (cases "m = 0") (simp_all add: clmul_step_def odd_test bit_simps)
qed simp

lemma bit_clmul:
  assumes "k < 64"
  shows "bit (clmul a b) k \<longleftrightarrow> gf2_coeff a b k"
    and "bit (clmulh a b) k \<longleftrightarrow> gf2_coeff a b (64 + k)"
proof -
  have "{i. i < 64 \<and> i \<le> k \<and> bit b i \<and> bit a (k - i)} = {i. i \<le> k \<and> bit b i \<and> bit a (k - i)}"
    using assms by auto
  then show "bit (clmul a b) k \<longleftrightarrow> gf2_coeff a b k"
    using clmul_prefix_lo [OF assms, of a b 64] by (simp add: clmul_def clmul128_def gf2_coeff_def)
  have "{i. i < 64 \<and> bit b i \<and> bit a (64 + k - i)} = {i. i \<le> 64 + k \<and> bit b i \<and> bit a (64 + k - i)}"
    by (auto dest: bit_imp_le_length)
  then show "bit (clmulh a b) k \<longleftrightarrow> gf2_coeff a b (64 + k)"
    using clmul_prefix_hi [OF assms, of 64 a b] by (simp add: clmulh_def clmul128_def gf2_coeff_def)
qed

lemma bit_clmulr:
  assumes "k < 64"
  shows "bit (clmulr a b) k \<longleftrightarrow> gf2_coeff a b (63 + k)"
proof -
  have "clmulr a b = push_bit 1 (clmulh a b) OR drop_bit 63 (clmul a b)"
    by (simp add: clmulr_def clmul_def clmulh_def split_beta)
  then show ?thesis
    using assms bit_clmul(1) [of 63 a b] bit_clmul(2) [of "k - 1" a b]
    by (cases "k = 0") (auto simp: bit_simps simp del: push_bit_Suc dest: bit_imp_le_length)
qed

subsection \<open>Bytes\<close>

lemma fold_or_bit:
  "bit (fold (\<lambda>i r. r OR f i) xs (r :: 'a::len word)) k \<longleftrightarrow> bit r k \<or> (\<exists>i\<in>set xs. bit (f i) k)"
  by (induction xs arbitrary: r) (auto simp: bit_simps)

lemma byte_of:
  fixes k :: nat
  shows "k < 64 \<Longrightarrow> k div 8 < 8" "8 * i \<le> k \<Longrightarrow> k < 8 * i + 8 \<Longrightarrow> k div 8 = i"
  by auto

lemma bit_swap_bytes:
  assumes "k < 64"
  shows "bit (swap_bytes x) k \<longleftrightarrow> bit x (8 * (7 - k div 8) + k mod 8)"
proof -
  define q r where "q = k div 8" and "r = k mod 8"
  then have k: "k = 8 * q + r" "r < 8" "q < 8"
    using assms by auto
  have "bit (push_bit (56 - 8 * i) (drop_bit (8 * i) x AND 0xff)) k \<longleftrightarrow> i = 7 - q \<and> bit x (8 * i + r)"
    if "i < 8" for i
  proof (cases "i = 7 - q")
    case True
    then have "56 - 8 * i = 8 * q"
      using k by simp
    then show ?thesis
      using True k assms by (simp add: bit_simps mask_bits)
  next
    case False
    then have "i < 7 - q \<or> 7 - q < i"
      by arith
    then have "k < 56 - 8 * i \<or> 64 - 8 * i \<le> k"
      using k that by arith
    then show ?thesis
      using False k that assms by (auto simp: bit_simps mask_bits)
  qed
  then show ?thesis
    unfolding swap_bytes_def fold_or_bit q_def [symmetric] r_def [symmetric] by auto
qed

lemma bit_orc_b:
  assumes "k < 64"
  shows "bit (orc_b x) k \<longleftrightarrow> (\<exists>j<8. bit x (8 * (k div 8) + j))"
proof -
  have *: "orc_b x = fold (\<lambda>i r. r OR (if drop_bit (8 * i) x AND 0xff \<noteq> 0 then push_bit (8 * i) 0xff else 0)) [0..<8] 0"
    unfolding orc_b_def by (rule fold_cong) auto
  have "bit (drop_bit (8 * i) x AND 0xff) j \<longleftrightarrow> j < 8 \<and> bit x (8 * i + j)" for i j
    by (auto simp: bit_simps mask_bits)
  then have byte: "drop_bit (8 * i) x AND 0xff \<noteq> 0 \<longleftrightarrow> (\<exists>j<8. bit x (8 * i + j))" for i
    unfolding word_neq_0_iff by blast
  have "bit (push_bit (8 * i) (0xff :: u64)) k \<longleftrightarrow> i = k div 8" for i
    using assms by (auto simp: bit_simps mask_bits)
  then have "bit (if drop_bit (8 * i) x AND 0xff \<noteq> 0 then push_bit (8 * i) 0xff else (0 :: u64)) k
      \<longleftrightarrow> i = k div 8 \<and> (\<exists>j<8. bit x (8 * i + j))" for i
    unfolding byte by simp
  then show ?thesis
    unfolding * fold_or_bit using byte_of(1) [OF assms] by simp
qed

subsection \<open>Counting\<close>

lemma length_takeWhile_first:
  assumes "P (xs ! n)" "n < length xs" "\<And>k. k < n \<Longrightarrow> \<not> P (xs ! k)"
  shows "length (takeWhile (\<lambda>x. \<not> P x) xs) = n"
  by (rule takeWhile_eq_take_P_nth [THEN arg_cong [of _ _ length], THEN trans]) (use assms in auto)

lemma leading_zeros_unique:
  fixes x :: "'a::len word"
  assumes "n < LENGTH('a)" "bit x (LENGTH('a) - 1 - n)" "\<And>k. LENGTH('a) - 1 - n < k \<Longrightarrow> \<not> bit x k"
  shows "leading_zeros x = n"
  unfolding leading_zeros_def
  by (rule length_takeWhile_first) (use assms in \<open>auto simp: rev_nth\<close>)

lemma trailing_zeros_unique:
  fixes x :: "'a::len word"
  assumes "bit x n" "\<And>k. k < n \<Longrightarrow> \<not> bit x k"
  shows "trailing_zeros x = n"
  unfolding trailing_zeros_def
  by (rule length_takeWhile_first) (use assms bit_imp_le_length [OF assms(1)] in simp_all)

lemma zeros_of_0 [simp]:
  "leading_zeros (0 :: 'a::len word) = LENGTH('a)" "trailing_zeros (0 :: 'a::len word) = LENGTH('a)"
  by (simp_all add: leading_zeros_def trailing_zeros_def takeWhile_eq_all_conv [THEN iffD2])

lemma leading_zeros_spec:
  fixes x :: "'a::len word"
  assumes "x \<noteq> 0"
  shows "leading_zeros x < LENGTH('a)" "bit x (LENGTH('a) - 1 - leading_zeros x)"
    "LENGTH('a) - 1 - leading_zeros x < k \<Longrightarrow> \<not> bit x k"
proof -
  define m where "m = Max {k. bit x k}"
  have fin: "finite {k. bit x k}"
    by (rule finite_subset [of _ "{..<LENGTH('a)}"]) (auto dest: bit_imp_le_length)
  have ne: "{k. bit x k} \<noteq> {}"
    using assms by (auto simp: word_neq_0_iff)
  have m: "bit x m"
    using Max_in [OF fin ne] unfolding m_def by (rule CollectD)
  then have len: "m < LENGTH('a)"
    by (rule bit_imp_le_length)
  have above: "\<not> bit x k" if "m < k" for k
    using that Max_ge [OF fin, of k] unfolding m_def by (meson CollectI leD)
  have "leading_zeros x = LENGTH('a) - 1 - m"
    by (rule leading_zeros_unique) (use m len above in auto)
  then show "leading_zeros x < LENGTH('a)" "bit x (LENGTH('a) - 1 - leading_zeros x)"
    "LENGTH('a) - 1 - leading_zeros x < k \<Longrightarrow> \<not> bit x k"
    using m len above by auto
qed

lemma count_ones_card: "count_ones (x :: 'a::len word) = card {k. bit x k}"
proof -
  have "count_ones x = card (set (filter (bit x) [0..<LENGTH('a)]))"
    unfolding count_ones_def by (rule distinct_card [symmetric]) simp
  also have "set (filter (bit x) [0..<LENGTH('a)]) = {k. bit x k}"
    by (auto dest: bit_imp_le_length)
  finally show ?thesis .
qed

lemma rotate_inverse:
  "ror64 (rol64 x n) n = x" "rol64 (ror64 x n) n = x" "ror32 (rol32 y n) n = y" "rol32 (ror32 y n) n = y"
  by (simp_all add: ror64_def rol64_def ror32_def rol32_def)

section \<open>Properties\<close>

text \<open>C37: the three carry-less multiplications are the windows 0..63, 64..127 and 63..126 of the
  product of the operands as polynomials over the two-element field.\<close>

lemma carryless_product:
  assumes "k < 64"
  shows "(bit (clmul a b) k \<longleftrightarrow> gf2_coeff a b k) \<and> (bit (clmulh a b) k \<longleftrightarrow> gf2_coeff a b (64 + k)) \<and>
    (bit (clmulr a b) k \<longleftrightarrow> gf2_coeff a b (63 + k))"
  using bit_clmul [OF assms] bit_clmulr [OF assms] by blast

lemma carryless_product_witness: "bit (clmul 5 3) 2 \<longleftrightarrow> gf2_coeff 5 3 2"
  using carryless_product [of 2 5 3] by simp

text \<open>the count and byte permutation instructions mean what their names say: the population
  count is the number of set bits, the byte reversal mirrors the bytes, \<open>orc.b\<close> fills exactly the
  bytes that are not zero, and the rotations are inverse to each other.\<close>

lemma bit_counts:
  assumes "k < 64"
  shows "cpop64 x = of_nat (card {i. bit x i}) \<and> (bit (rev8 x) k \<longleftrightarrow> bit x (8 * (7 - k div 8) + k mod 8)) \<and>
    (bit (orc_b x) k \<longleftrightarrow> (\<exists>j<8. bit x (8 * (k div 8) + j))) \<and> ror64 (rol64 x n) n = x"
  using bit_swap_bytes [OF assms] bit_orc_b [OF assms] rotate_inverse(1)
  by (simp add: cpop64_def rev8_def count_ones_card)

lemma bit_counts_witness: "bit (rev8 0xff) 63"
  using bit_counts [of 63 "0xff" 0] by simp

end
