(* ===== verification/Dram.thy ===== *)
theory Dram
  imports Rv_Types
begin

text \<open>
  Guest memory, \<open>src/src/dram.rs\<close>. The vector of bytes is a function with a length: no
  operation reads or writes at or beyond the length. The primitive unaligned reads and writes
  of 1, 2, 4 and 8 bytes are the little-endian ones (\<open>src/src/lib.rs\<close> refuses a big-endian
  host), so they and the byte loop of the remaining sizes are one definition. Whether the host
  can provide the memory is an argument of \<open>dram_try_new\<close>.
\<close>

section \<open>State and operations\<close>

record dram =
  d_mem :: "nat \<Rightarrow> u8"
  d_len :: nat
  d_epoch :: u64
  d_code_pages :: "u8 list"
  d_marked :: "u32 list"
  d_any_marked :: bool

definition dram_from_vec :: "u8 list \<Rightarrow> dram" where
  "dram_from_vec v =
     \<lparr>d_mem = (\<lambda>i. if i < length v then v ! i else 0), d_len = length v, d_epoch = 1,
      d_code_pages = replicate (drop_bit 12 (length v + 4095)) 0, d_marked = [], d_any_marked = False\<rparr>"

definition dram_try_new :: "bool \<Rightarrow> u64 \<Rightarrow> dram option" where
  "dram_try_new host_can_reserve size_bytes =
     (if unat DRAM_BASE + unat size_bytes \<ge> 2 ^ 64 then None
      else if \<not> host_can_reserve then None
      else Some (dram_from_vec (replicate (unat size_bytes) 0)))"

definition dram_size :: "dram \<Rightarrow> u64" where
  "dram_size d = of_nat (d_len d)"

definition in_range :: "u64 \<Rightarrow> nat \<Rightarrow> dram \<Rightarrow> bool" where
  "in_range offset n d \<longleftrightarrow> offset < of_nat (d_len d) \<and> n \<le> d_len d - unat offset"

definition le_read :: "(nat \<Rightarrow> u8) \<Rightarrow> nat \<Rightarrow> nat \<Rightarrow> u64" where
  "le_read m p n = fold (\<lambda>i v. v OR push_bit (8 * i) (ucast (m (p + i)))) [0..<min n 8] 0"

definition le_write :: "nat \<Rightarrow> nat \<Rightarrow> u64 \<Rightarrow> (nat \<Rightarrow> u8) \<Rightarrow> nat \<Rightarrow> u8" where
  "le_write p n v m = fold (\<lambda>i m. m(p + i := ucast (drop_bit (8 * i) v))) [0..<min n 8] m"

definition dram_load :: "u64 \<Rightarrow> nat \<Rightarrow> dram \<Rightarrow> u64 option" where
  "dram_load offset n d =
     (if \<not> in_range offset n d then None else Some (le_read (d_mem d) (unat offset) n))"

definition invalidate_code :: "dram \<Rightarrow> dram" where
  "invalidate_code d =
     d\<lparr>d_epoch := d_epoch d + 1,
       d_code_pages := fold (\<lambda>p pages. pages[unat p := 0]) (d_marked d) (d_code_pages d),
       d_marked := [], d_any_marked := False\<rparr>"

definition note_write :: "u64 \<Rightarrow> u64 \<Rightarrow> dram \<Rightarrow> dram" where
  "note_write offset n d =
     (if \<not> d_any_marked d \<or> n = 0 then d
      else
        (let first = unat (drop_bit 12 offset); last = unat (drop_bit 12 (offset + n - 1));
             pages = d_code_pages d
         in if list_ex (\<lambda>page. (if page < length pages then pages ! page else 0) \<noteq> 0) [first..<Suc last]
            then invalidate_code d else d))"

definition dram_store :: "u64 \<Rightarrow> nat \<Rightarrow> u64 \<Rightarrow> dram \<Rightarrow> dram option" where
  "dram_store offset n v d =
     (if \<not> in_range offset n d then None
      else (let d = note_write offset (of_nat n) d
            in Some (d\<lparr>d_mem := le_write (unat offset) n v (d_mem d)\<rparr>)))"

definition dram_read_bytes :: "u64 \<Rightarrow> nat \<Rightarrow> dram \<Rightarrow> u8 list option" where
  "dram_read_bytes guest_addr n d =
     (if guest_addr < DRAM_BASE then None
      else (let offset = guest_addr - DRAM_BASE in
            if n = 0 then (if offset \<le> of_nat (d_len d) then Some [] else None)
            else if \<not> in_range offset n d then None
            else Some (map (\<lambda>i. d_mem d (unat offset + i)) [0..<n])))"

definition copy_in :: "nat \<Rightarrow> u8 list \<Rightarrow> (nat \<Rightarrow> u8) \<Rightarrow> nat \<Rightarrow> u8" where
  "copy_in p bytes m = (\<lambda>i. if p \<le> i \<and> i < p + length bytes then bytes ! (i - p) else m i)"

definition dram_write_bytes :: "u64 \<Rightarrow> u8 list \<Rightarrow> dram \<Rightarrow> dram option" where
  "dram_write_bytes guest_addr src d =
     (if guest_addr < DRAM_BASE then None
      else (let offset = guest_addr - DRAM_BASE in
            if src = [] then (if offset \<le> of_nat (d_len d) then Some d else None)
            else if \<not> in_range offset (length src) d then None
            else (let d = note_write offset (of_nat (length src)) d
                  in Some (d\<lparr>d_mem := copy_in (unat offset) src (d_mem d)\<rparr>))))"

definition dram_load_image :: "u64 \<Rightarrow> u8 list \<Rightarrow> dram \<Rightarrow> dram option" where
  "dram_load_image guest_addr bytes d =
     (if guest_addr < DRAM_BASE then None
      else (let offset = guest_addr - DRAM_BASE in
            if offset > of_nat (d_len d) \<or> length bytes > d_len d - unat offset then None
            else (let d = invalidate_code d
                  in Some (if bytes \<noteq> [] then d\<lparr>d_mem := copy_in (unat offset) bytes (d_mem d)\<rparr> else d))))"

definition peek8 :: "u64 \<Rightarrow> dram \<Rightarrow> u8" where
  "peek8 offset d = ucast (case dram_load offset 1 d of None \<Rightarrow> 0 | Some v \<Rightarrow> v)"

definition with_bytes_mut :: "(u8 list \<Rightarrow> 'r \<times> u8 list) \<Rightarrow> dram \<Rightarrow> 'r \<times> dram" where
  "with_bytes_mut f d =
     (let d = invalidate_code d; (r, bs) = f (map (d_mem d) [0..<d_len d])
      in (r, d\<lparr>d_mem := copy_in 0 (take (d_len d) bs) (d_mem d)\<rparr>))"

definition code_epoch :: "dram \<Rightarrow> u64" where
  "code_epoch d = d_epoch d"

definition mark_code_page :: "u64 \<Rightarrow> dram \<Rightarrow> dram" where
  "mark_code_page offset d =
     (let page = unat (drop_bit 12 offset); pages = d_code_pages d in
      if page \<ge> length pages \<or> pages ! page \<noteq> 0 then d
      else d\<lparr>d_code_pages := pages[page := 1], d_marked := d_marked d @ [of_nat page],
             d_any_marked := True\<rparr>)"

section \<open>Little-endian bytes\<close>

lemma le_write_apply:
  "le_write p n v m i = (if p \<le> i \<and> i < p + min n 8 then ucast (drop_bit (8 * (i - p)) v) else m i)"
proof -
  have "fold (\<lambda>i m. m(p + i := ucast (drop_bit (8 * i) v))) [0..<k] m i
      = (if p \<le> i \<and> i < p + k then ucast (drop_bit (8 * (i - p)) v) else m i)" for k
    by (induction k) auto
  then show ?thesis
    by (simp add: le_write_def)
qed

lemma bit_le_read:
  "bit (le_read m p n) k \<longleftrightarrow> k < 8 * min n 8 \<and> bit (m (p + k div 8)) (k mod 8)"
proof -
  have "bit (fold (\<lambda>i v. v OR push_bit (8 * i) (ucast (m (p + i)))) [0..<j] (0 :: u64)) k
      \<longleftrightarrow> k < 8 * j \<and> bit (m (p + k div 8)) (k mod 8)" if "j \<le> 8" for j
    using that
  proof (induction j)
    case (Suc j)
    have "bit (push_bit (8 * j) (ucast (m (p + j))) :: u64) k \<longleftrightarrow> k div 8 = j \<and> bit (m (p + j)) (k mod 8)"
    proof (cases "k div 8 = j")
      case True
      then show ?thesis
        using Suc.prems by (auto simp: bit_simps minus_mult_div_eq_mod)
    next
      case False
      then have "k < 8 * j \<or> 8 * j + 8 \<le> k"
        by auto
      then show ?thesis
        using False bit_imp_le_length [of "m (p + j)" "k - 8 * j"] by (auto simp: bit_simps)
    qed
    moreover have "k < 8 * Suc j \<longleftrightarrow> k < 8 * j \<or> k div 8 = j"
      by auto
    ultimately show ?case
      using Suc by (auto simp: bit_or_iff)
  qed simp
  then show ?thesis
    unfolding le_read_def by simp
qed

lemma le_read_write: "le_read (le_write p n v m) p n = take_bit (8 * min n 8) v"
proof (rule bit_word_eqI)
  fix k assume "k < LENGTH(64)"
  have "k < 8 * min n 8 \<Longrightarrow> k div 8 < min n 8"
    by (simp add: less_mult_imp_div_less mult.commute)
  moreover have "k mod 8 < 8" "8 * (k div 8) + k mod 8 = k"
    by simp_all
  ultimately show "bit (le_read (le_write p n v m) p n) k \<longleftrightarrow> bit (take_bit (8 * min n 8) v) k"
    by (auto simp: bit_le_read le_write_apply bit_simps)
qed

lemma le_read_cong: "(\<And>i. p \<le> i \<Longrightarrow> i < p + n \<Longrightarrow> m i = m' i) \<Longrightarrow> le_read m p n = le_read m' p n"
  unfolding le_read_def by (intro fold_cong) auto

lemma le_read_disjoint:
  assumes "p + n \<le> q \<or> q + k \<le> p"
  shows "le_read (le_write p n v m) q k = le_read m q k"
  by (rule le_read_cong) (use assms in \<open>auto simp: le_write_apply\<close>)

section \<open>Memories\<close>

text \<open>
  What a client of a byte memory relies on: loads and stores are the little-endian ones on an
  underlying array of bytes, they succeed on the same ranges, and a store changes neither the
  ranges nor anything but its bytes. \<open>idx\<close> places an address in the array.
\<close>

locale le_memory =
  fixes idx :: "u64 \<Rightarrow> nat"
    and byte :: "'s \<Rightarrow> nat \<Rightarrow> u8"
    and valid :: "'s \<Rightarrow> u64 \<Rightarrow> nat \<Rightarrow> bool"
    and ld :: "u64 \<Rightarrow> nat \<Rightarrow> 's \<Rightarrow> u64 option"
    and st :: "u64 \<Rightarrow> nat \<Rightarrow> u64 \<Rightarrow> 's \<Rightarrow> 's option"
  assumes ld_valid: "valid s p n \<Longrightarrow> ld p n s = Some (le_read (byte s) (idx p) n)"
    and ld_invalid: "\<not> valid s p n \<Longrightarrow> ld p n s = None"
    and st_valid: "st p n v s = Some s' \<Longrightarrow> valid s p n"
    and st_total: "valid s p n \<Longrightarrow> \<exists>s'. st p n v s = Some s'"
    and st_byte: "st p n v s = Some s' \<Longrightarrow> byte s' = le_write (idx p) n v (byte s)"
    and st_keeps: "st p n v s = Some s' \<Longrightarrow> valid s' q m \<longleftrightarrow> valid s q m"
begin

lemma load_store_same:
  assumes "st p n v s = Some s'"
  shows "ld p n s' = Some (take_bit (8 * min n 8) v)"
  using st_valid [OF assms] st_byte [OF assms] st_keeps [OF assms]
  by (simp add: ld_valid le_read_write)

lemma load_store_disjoint:
  assumes "st p n v s = Some s'" "idx p + n \<le> idx q \<or> idx q + k \<le> idx p"
  shows "ld q k s' = ld q k s"
  using st_byte [OF assms(1)] st_keeps [OF assms(1)] le_read_disjoint [OF assms(2)]
  by (cases "valid s q k") (simp_all add: ld_valid ld_invalid)

lemma load_narrow:
  assumes "ld p n s = Some v" "k \<le> n" "valid s p k"
  shows "ld p k s = Some (take_bit (8 * min k 8) v)"
proof -
  have "v = le_read (byte s) (idx p) n"
    using assms(1) ld_valid ld_invalid by (metis option.distinct(1) option.inject)
  then have "take_bit (8 * min k 8) v = le_read (byte s) (idx p) k"
    by (intro bit_word_eqI) (use assms(2) in \<open>auto simp: bit_simps bit_le_read\<close>)
  then show ?thesis
    using assms(3) by (simp add: ld_valid)
qed

lemma last_store_wins:
  assumes "st p n v s = Some s1" "st p n w s1 = Some s2"
  shows "\<exists>s3. st p n w s = Some s3 \<and> (\<forall>q k. ld q k s3 = ld q k s2)"
proof -
  obtain s3 where s3: "st p n w s = Some s3"
    using st_total [OF st_valid [OF assms(1)]] by blast
  have "byte s3 = byte s2"
    unfolding st_byte [OF s3] st_byte [OF assms(2)] st_byte [OF assms(1)]
    by (auto simp: le_write_apply)
  moreover have "valid s3 q k \<longleftrightarrow> valid s2 q k" for q k
    using st_keeps [OF s3] st_keeps [OF assms(2)] st_keeps [OF assms(1)] by blast
  ultimately have "ld q k s3 = ld q k s2" for q k
    by (cases "valid s3 q k") (simp_all add: ld_valid ld_invalid)
  with s3 show ?thesis
    by blast
qed

end

lemma note_write_frame [simp]:
  "d_mem (note_write p n d) = d_mem d" "d_len (note_write p n d) = d_len d"
  by (simp_all add: note_write_def invalidate_code_def Let_def)

interpretation dm: le_memory unat d_mem "\<lambda>d p n. in_range p n d" dram_load dram_store
  by unfold_locales
    (auto simp: dram_load_def dram_store_def in_range_def Let_def split: if_splits)

section \<open>Cached code\<close>

text \<open>
  The bookkeeping for the decode caches: the flag array covers the memory, the list names the
  pages whose flag is set and the summary bit says whether there is one. Page numbers are
  kept in 32 bits, hence the bound on the size.
\<close>

definition dram_inv :: "dram \<Rightarrow> bool" where
  "dram_inv d \<longleftrightarrow>
     d_len d < 2 ^ 44 \<and> length (d_code_pages d) = (d_len d + 4095) div 4096 \<and>
     (d_any_marked d \<longleftrightarrow> d_marked d \<noteq> []) \<and>
     (\<forall>p\<in>set (d_marked d). unat p < length (d_code_pages d)) \<and>
     (\<forall>p<length (d_code_pages d). d_code_pages d ! p \<noteq> 0 \<longleftrightarrow> of_nat p \<in> set (d_marked d))"

definition page_marked :: "dram \<Rightarrow> nat \<Rightarrow> bool" where
  "page_marked d p \<longleftrightarrow> p < length (d_code_pages d) \<and> d_code_pages d ! p \<noteq> 0"

lemma dram_inv_pages: "dram_inv d \<Longrightarrow> length (d_code_pages d) \<le> 2 ^ 32"
  by (auto simp: dram_inv_def)

lemma unat_of_nat_page: "dram_inv d \<Longrightarrow> p < length (d_code_pages d) \<Longrightarrow> unat (of_nat p :: u32) = p"
  using dram_inv_pages by (fastforce simp: unat_of_nat_small)

lemma dram_inv_from_vec: "length v < 2 ^ 44 \<Longrightarrow> dram_inv (dram_from_vec v)"
  by (auto simp: dram_inv_def dram_from_vec_def drop_bit_eq_div)

lemma fold_clear:
  "length (fold (\<lambda>p pages. pages[unat p := 0]) ps xs) = length xs"
  "i < length xs \<Longrightarrow> fold (\<lambda>p pages. pages[unat (p :: u32) := 0]) ps xs ! i
     = (if i \<in> unat ` set ps then (0 :: u8) else xs ! i)"
  by (induction ps arbitrary: xs) (auto simp: nth_list_update)

lemma invalidate_clears:
  assumes "dram_inv d" "p < length (d_code_pages d)"
  shows "d_code_pages (invalidate_code d) ! p = 0"
proof -
  have "p \<in> unat ` set (d_marked d)" if "d_code_pages d ! p \<noteq> 0"
    using assms that unat_of_nat_page [OF assms] by (force simp: dram_inv_def image_iff)
  then show ?thesis
    using assms by (auto simp: invalidate_code_def fold_clear)
qed

lemma invalidate_frame [simp]:
  "length (d_code_pages (invalidate_code d)) = length (d_code_pages d)" "d_marked (invalidate_code d) = []"
  "d_any_marked (invalidate_code d) = False" "d_len (invalidate_code d) = d_len d"
  "d_mem (invalidate_code d) = d_mem d"
  by (simp_all add: invalidate_code_def fold_clear)

lemma dram_inv_invalidate:
  assumes "dram_inv d"
  shows "dram_inv (invalidate_code d)"
  using invalidate_clears [OF assms] assms unfolding dram_inv_def by simp

lemma dram_inv_note_write: "dram_inv d \<Longrightarrow> dram_inv (note_write p n d)"
  by (simp add: note_write_def Let_def dram_inv_invalidate)

lemma dram_inv_mem [simp]: "dram_inv (d\<lparr>d_mem := m\<rparr>) = dram_inv d"
  by (simp add: dram_inv_def)

lemma dram_inv_mark_page:
  assumes "dram_inv d" "pg < length (d_code_pages d)"
  shows "dram_inv (d\<lparr>d_code_pages := (d_code_pages d)[pg := 1], d_marked := d_marked d @ [of_nat pg],
    d_any_marked := True\<rparr>)"
proof -
  have "of_nat q = (of_nat pg :: u32) \<longleftrightarrow> q = pg" if "q < length (d_code_pages d)" for q
    using that assms unat_of_nat_page [OF assms(1)] by metis
  moreover have "unat (of_nat pg :: u32) < length (d_code_pages d)"
    using assms unat_of_nat_page by simp
  ultimately show ?thesis
    using assms unfolding dram_inv_def by (elim conjE) (simp add: nth_list_update)
qed

lemma dram_inv_mark: "dram_inv d \<Longrightarrow> dram_inv (mark_code_page off d)"
  using dram_inv_mark_page [of d "unat (drop_bit 12 off)"] by (simp add: mark_code_page_def Let_def)

lemma dram_inv_ops:
  assumes "dram_inv d"
  shows "dram_store p n v d = Some d' \<Longrightarrow> dram_inv d'"
    "dram_write_bytes a src d = Some d' \<Longrightarrow> dram_inv d'"
    "dram_load_image a src d = Some d' \<Longrightarrow> dram_inv d'"
    "dram_inv (snd (with_bytes_mut f d))"
  using assms dram_inv_note_write [OF assms] dram_inv_invalidate [OF assms]
  by (auto simp: dram_store_def dram_write_bytes_def dram_load_image_def with_bytes_mut_def Let_def
      split_beta split: if_splits)

text \<open>
  What harts and devices may do to memory: any number of stores and of copies. Both keep the size and
  the bookkeeping.
\<close>

inductive dma :: "dram \<Rightarrow> dram \<Rightarrow> bool" where
  dma_refl: "dma d d"
| dma_store: "dma d d' \<Longrightarrow> dram_store off n v d' = Some d'' \<Longrightarrow> dma d d''"
| dma_bytes: "dma d d' \<Longrightarrow> dram_write_bytes a src d' = Some d'' \<Longrightarrow> dma d d''"

lemma write_len: "dram_store off n v d = Some d' \<Longrightarrow> d_len d' = d_len d"
  "dram_write_bytes a src d = Some d' \<Longrightarrow> d_len d' = d_len d"
  by (auto simp: dram_store_def dram_write_bytes_def Let_def split: if_splits)

lemma dma_keeps: "dma d d' \<Longrightarrow> (dram_inv d \<longrightarrow> dram_inv d') \<and> d_len d' = d_len d"
  by (induction rule: dma.induct) (auto dest: write_len intro: dram_inv_ops(1,2))

lemma dma_trans: "dma d' d'' \<Longrightarrow> dma d d' \<Longrightarrow> dma d d''"
  by (induction rule: dma.induct) (auto intro: dma.intros)

text \<open>A write that leaves the epoch alone leaves every byte of a marked page alone.\<close>

lemma note_write_quiet:
  assumes inv: "dram_inv d" and r: "in_range off n d" and "0 < n"
    and quiet: "d_epoch (note_write off (of_nat n) d) = d_epoch d"
    and i: "unat off \<le> i" "i < unat off + n"
  shows "\<not> page_marked d (i div 4096)"
proof
  assume m: "page_marked d (i div 4096)"
  have len: "d_len d < 2 ^ 44"
    using inv by (simp add: dram_inv_def)
  then have lim: "unat off + n \<le> d_len d"
    using r i by (auto simp: in_range_def word_less_nat_alt unat_of_nat_small)
  have n: "unat (of_nat n :: u64) = n"
    using lim len by (intro unat_of_nat_small) simp
  have last: "unat (off + of_nat n - 1) = unat off + n - 1"
  proof -
    have "off + of_nat n - 1 = of_nat (unat off + n - 1)"
      using \<open>0 < n\<close> by (simp add: of_nat_diff)
    then show ?thesis
      using lim len by (simp add: unat_of_nat_small)
  qed
  have "d_any_marked d"
    using m inv by (auto simp: dram_inv_def page_marked_def)
  moreover have "i div 4096 \<in> set [unat (drop_bit 12 off)..<Suc (unat (drop_bit 12 (off + of_nat n - 1)))]"
  proof -
    have "unat off div 4096 \<le> i div 4096" "i div 4096 \<le> (unat off + n - 1) div 4096"
      using i by (auto intro: div_le_mono)
    then show ?thesis
      by (simp only: unat_drop_bit_div last set_upt atLeastLessThan_iff less_Suc_eq_le) simp
  qed
  moreover have "(of_nat n :: u64) \<noteq> 0"
    using n \<open>0 < n\<close> by (metis unsigned_0 less_irrefl)
  ultimately have "note_write off (of_nat n) d = invalidate_code d"
    using m by (auto simp: note_write_def Let_def list_ex_iff page_marked_def)
  then show False
    using quiet by (simp add: invalidate_code_def)
qed

lemma quiet_keeps_code:
  assumes inv: "dram_inv d" and r: "in_range off n d" and q: "d_epoch (note_write off (of_nat n) d) = d_epoch d"
    and m: "page_marked d (i div 4096)"
  shows "note_write off (of_nat n) d = d" "\<not> (unat off \<le> i \<and> i < unat off + n)"
proof -
  show "note_write off (of_nat n) d = d"
    using q by (auto simp: note_write_def invalidate_code_def Let_def split: if_splits)
  show "\<not> (unat off \<le> i \<and> i < unat off + n)"
    using note_write_quiet [OF inv r _ q, of i] m by fastforce
qed

lemma store_quiet_keeps_code:
  assumes inv: "dram_inv d" and st: "dram_store off n v d = Some d'"
    and quiet: "code_epoch d' = code_epoch d" and m: "page_marked d (i div 4096)"
  shows "d_mem d' i = d_mem d i \<and> page_marked d' (i div 4096)"
proof -
  have r: "in_range off n d" and d': "d' = (note_write off (of_nat n) d)\<lparr>d_mem := le_write (unat off) n v (d_mem d)\<rparr>"
    using st by (auto simp: dram_store_def Let_def split: if_splits)
  show ?thesis
    using quiet_keeps_code [OF inv r _ m] quiet m by (auto simp: d' code_epoch_def le_write_apply page_marked_def)
qed

lemma write_bytes_quiet_keeps_code:
  assumes inv: "dram_inv d" and st: "dram_write_bytes a src d = Some d'"
    and quiet: "code_epoch d' = code_epoch d" and m: "page_marked d (i div 4096)"
  shows "d_mem d' i = d_mem d i \<and> page_marked d' (i div 4096)"
proof (cases "src = []")
  case False
  let ?off = "a - DRAM_BASE" and ?n = "length src"
  have r: "in_range ?off ?n d"
    and d': "d' = (note_write ?off (of_nat ?n) d)\<lparr>d_mem := copy_in (unat ?off) src (d_mem d)\<rparr>"
    using st False by (auto simp: dram_write_bytes_def Let_def split: if_splits)
  show ?thesis
    using quiet_keeps_code [OF inv r _ m] quiet m by (auto simp: d' code_epoch_def copy_in_def page_marked_def)
qed (use st m in \<open>auto simp: dram_write_bytes_def Let_def split: if_splits\<close>)

lemma image_and_bytes_bump:
  assumes "dram_load_image a src d = Some d'"
  shows "code_epoch d' = code_epoch d + 1" "code_epoch (snd (with_bytes_mut f d)) = code_epoch d + 1"
  using assms
  by (auto simp: dram_load_image_def with_bytes_mut_def invalidate_code_def code_epoch_def Let_def split_beta
      split: if_splits)

section \<open>Properties\<close>

text \<open>C24: decoded code stays coherent with memory: as long as the code epoch has not moved, no
  store by a hart and no write by a device has changed a byte of a page whose instructions were
  cached; loading an image and direct access to the bytes always move the epoch.\<close>

theorem code_coherence:
  assumes "dram_inv d" "page_marked d (i div 4096)" "code_epoch d' = code_epoch d"
    and "dram_store off n v d = Some d' \<or> dram_write_bytes a src d = Some d' \<or> dram_load_image a src d = Some d'"
  shows "d_mem d' i = d_mem d i \<and> page_marked d' (i div 4096)"
  using assms store_quiet_keeps_code write_bytes_quiet_keeps_code image_and_bytes_bump(1) by fastforce

definition sample_dram :: dram where
  "sample_dram = mark_code_page 0 (dram_from_vec (replicate 8192 0))"

lemma sample_dram_store: "dram_store 4096 1 7 sample_dram = Some (sample_dram\<lparr>d_mem := le_write 4096 1 7 (d_mem sample_dram)\<rparr>)"
  by (simp add: sample_dram_def mark_code_page_def dram_from_vec_def dram_store_def in_range_def note_write_def
      Let_def)

lemma code_coherence_witness:
  "d_mem (sample_dram\<lparr>d_mem := le_write 4096 1 7 (d_mem sample_dram)\<rparr>) 5 = d_mem sample_dram 5"
proof -
  have "dram_inv sample_dram"
    unfolding sample_dram_def by (intro dram_inv_mark dram_inv_from_vec) simp
  moreover have "page_marked sample_dram (5 div 4096)"
    by (simp add: sample_dram_def page_marked_def mark_code_page_def dram_from_vec_def Let_def)
  ultimately show ?thesis
    using code_coherence [of sample_dram 5, OF _ _ _ disjI1 [OF sample_dram_store]] by (simp add: code_epoch_def)
qed

end
