(* ===== verification/Device.thy ===== *)
theory Device
  imports Rv_Types
begin

text \<open>
  The contract of a memory-mapped device, \<open>src/src/device.rs\<close>: what the bus and the harts rely on
  when they route an access to it. An operation returns its result and the device's next
  state, also when it fails.
\<close>

type_synonym 's dev_load = "u64 \<Rightarrow> nat \<Rightarrow> 's \<Rightarrow> u64 res \<times> 's"
type_synonym 's dev_store = "u64 \<Rightarrow> nat \<Rightarrow> u64 \<Rightarrow> 's \<Rightarrow> unit res \<times> 's"

datatype access = ALoad u64 nat | AStore u64 nat u64

text \<open>
  A device keeps its invariant under every access, and refuses an access by the access fault
  of that direction at the accessed address, leaving its state alone.
\<close>

locale mmio_device =
  fixes base :: u64
    and ld :: "'s dev_load"
    and st :: "'s dev_store"
    and inv :: "'s \<Rightarrow> bool"
  assumes ld_inv: "inv s \<Longrightarrow> inv (snd (ld off n s))"
    and st_inv: "inv s \<Longrightarrow> inv (snd (st off n v s))"
    and ld_fault: "fst (ld off n s) = Inl t \<Longrightarrow> t = trap_new LoadAccessFault (base + off) \<and> snd (ld off n s) = s"
    and st_fault: "fst (st off n v s) = Inl t \<Longrightarrow> t = trap_new StoreAMOAccessFault (base + off) \<and> snd (st off n v s) = s"
begin

definition perform :: "access \<Rightarrow> 's \<Rightarrow> 's" where
  "perform a s = (case a of ALoad off n \<Rightarrow> snd (ld off n s) | AStore off n v \<Rightarrow> snd (st off n v s))"

lemma session_inv: "inv s \<Longrightarrow> inv (fold perform as s)"
  by (induction as arbitrary: s) (auto simp: perform_def ld_inv st_inv split: access.split)

lemma fault_address:
  assumes "fst (ld (addr - base) n s) = Inl t \<or> fst (st (addr - base) n v s) = Inl t"
  shows "t_tval t = addr"
  using assms ld_fault st_fault by fastforce

lemma fault_cause:
  "fst (ld off n s) = Inl t \<Longrightarrow> t_cause t = LoadAccessFault"
  "fst (st off n v s) = Inl t \<Longrightarrow> t_cause t = StoreAMOAccessFault"
  using ld_fault st_fault by fastforce+

end

end
