(* ===== verification/Syscon.thy ===== *)
theory Syscon
  imports Device
begin

text \<open>The power button, \<open>src/src/syscon.rs\<close>.\<close>

abbreviation (input) POWEROFF :: u64 where "POWEROFF \<equiv> 0x5555"
abbreviation (input) REBOOT :: u64 where "REBOOT \<equiv> 0x7777"

record syscon =
  sy_poweroff :: bool
  sy_reboot :: bool
  sy_exit_code :: u64

definition syscon_new :: syscon where
  "syscon_new = \<lparr>sy_poweroff = False, sy_reboot = False, sy_exit_code = 0\<rparr>"

definition syscon_load :: "syscon dev_load" where
  "syscon_load offset n s = (Inr 0, s)"

definition syscon_store :: "syscon dev_store" where
  "syscon_store offset n value s =
     (if offset \<noteq> 0 then (Inr (), s)
      else if value AND 0xffff = POWEROFF then
        (Inr (), s\<lparr>sy_poweroff := True, sy_exit_code := drop_bit 16 value\<rparr>)
      else if value AND 0xffff = REBOOT then (Inr (), s\<lparr>sy_reboot := True\<rparr>)
      else (Inr (), s))"

text \<open>The exit code is meaningful only once power-off was requested.\<close>

definition syscon_inv :: "syscon \<Rightarrow> bool" where
  "syscon_inv s \<longleftrightarrow> (sy_exit_code s \<noteq> 0 \<longrightarrow> sy_poweroff s) \<and> sy_exit_code s < 2 ^ 48"

lemma drop_16_less: "drop_bit 16 (v :: u64) < 2 ^ 48"
  unfolding word_less_nat_alt unat_drop_bit_div
  using unsigned_less [of v, where ?'a = nat] by (simp add: less_mult_imp_div_less)

interpretation sc: mmio_device SYSCON_BASE syscon_load syscon_store syscon_inv
  using drop_16_less
  by unfold_locales (auto simp: syscon_load_def syscon_store_def syscon_inv_def)

end
