(* ===== verification/Csr.thy ===== *)
theory Csr
  imports Rv_Types
begin

text \<open>
  Control and status registers, \<open>src/src/csr.rs\<close>: the addresses, the field masks, and the
  register file with its read views and its write rules. The file is a function from the
  12-bit address: the source's array has 4096 slots and every index is a constant or masked
  with \<open>0xfff\<close>. The masks are definitions whose bits are in \<open>mask_bits\<close>, so a fact about a
  masked word is proved bit by bit.
\<close>

section \<open>Addresses\<close>

abbreviation (input) MVENDORID :: u32 where "MVENDORID \<equiv> 0xf11"
abbreviation (input) MARCHID :: u32 where "MARCHID \<equiv> 0xf12"
abbreviation (input) MIMPID :: u32 where "MIMPID \<equiv> 0xf13"
abbreviation (input) MHARTID :: u32 where "MHARTID \<equiv> 0xf14"
abbreviation (input) MSTATUS :: u32 where "MSTATUS \<equiv> 0x300"
abbreviation (input) MISA :: u32 where "MISA \<equiv> 0x301"
abbreviation (input) MEDELEG :: u32 where "MEDELEG \<equiv> 0x302"
abbreviation (input) MIDELEG :: u32 where "MIDELEG \<equiv> 0x303"
abbreviation (input) MIE :: u32 where "MIE \<equiv> 0x304"
abbreviation (input) MTVEC :: u32 where "MTVEC \<equiv> 0x305"
abbreviation (input) MCOUNTEREN :: u32 where "MCOUNTEREN \<equiv> 0x306"
abbreviation (input) MSCRATCH :: u32 where "MSCRATCH \<equiv> 0x340"
abbreviation (input) MEPC :: u32 where "MEPC \<equiv> 0x341"
abbreviation (input) MCAUSE :: u32 where "MCAUSE \<equiv> 0x342"
abbreviation (input) MTVAL :: u32 where "MTVAL \<equiv> 0x343"
abbreviation (input) MIP :: u32 where "MIP \<equiv> 0x344"
abbreviation (input) FFLAGS :: u32 where "FFLAGS \<equiv> 0x001"
abbreviation (input) FRM :: u32 where "FRM \<equiv> 0x002"
abbreviation (input) FCSR :: u32 where "FCSR \<equiv> 0x003"
abbreviation (input) SSTATUS :: u32 where "SSTATUS \<equiv> 0x100"
abbreviation (input) SIE :: u32 where "SIE \<equiv> 0x104"
abbreviation (input) STVEC :: u32 where "STVEC \<equiv> 0x105"
abbreviation (input) SCOUNTEREN :: u32 where "SCOUNTEREN \<equiv> 0x106"
abbreviation (input) SSCRATCH :: u32 where "SSCRATCH \<equiv> 0x140"
abbreviation (input) SEPC :: u32 where "SEPC \<equiv> 0x141"
abbreviation (input) SCAUSE :: u32 where "SCAUSE \<equiv> 0x142"
abbreviation (input) STVAL :: u32 where "STVAL \<equiv> 0x143"
abbreviation (input) SIP :: u32 where "SIP \<equiv> 0x144"
abbreviation (input) SATP :: u32 where "SATP \<equiv> 0x180"
abbreviation (input) STIMECMP :: u32 where "STIMECMP \<equiv> 0x14d"
abbreviation (input) MENVCFG :: u32 where "MENVCFG \<equiv> 0x30a"
abbreviation (input) PMPCFG0 :: u32 where "PMPCFG0 \<equiv> 0x3a0"
abbreviation (input) PMPCFG2 :: u32 where "PMPCFG2 \<equiv> 0x3a2"
abbreviation (input) PMPADDR0 :: u32 where "PMPADDR0 \<equiv> 0x3b0"
abbreviation (input) PMPADDR15 :: u32 where "PMPADDR15 \<equiv> 0x3bf"
abbreviation (input) MCYCLE :: u32 where "MCYCLE \<equiv> 0xb00"
abbreviation (input) MINSTRET :: u32 where "MINSTRET \<equiv> 0xb02"
abbreviation (input) CYCLE :: u32 where "CYCLE \<equiv> 0xc00"
abbreviation (input) TIME :: u32 where "TIME \<equiv> 0xc01"
abbreviation (input) INSTRET :: u32 where "INSTRET \<equiv> 0xc02"

section \<open>Fields\<close>

definition MENVCFG_STCE :: u64 where "MENVCFG_STCE = push_bit 63 1"
definition MENVCFG_ADUE :: u64 where "MENVCFG_ADUE = push_bit 61 1"
definition MSTATUS_SIE :: u64 where "MSTATUS_SIE = push_bit 1 1"
definition MSTATUS_MIE :: u64 where "MSTATUS_MIE = push_bit 3 1"
definition MSTATUS_SPIE :: u64 where "MSTATUS_SPIE = push_bit 5 1"
definition MSTATUS_MPIE :: u64 where "MSTATUS_MPIE = push_bit 7 1"
definition MSTATUS_SPP :: u64 where "MSTATUS_SPP = push_bit 8 1"
definition MSTATUS_SD :: u64 where "MSTATUS_SD = push_bit 63 1"
definition MSTATUS_MPRV :: u64 where "MSTATUS_MPRV = push_bit 17 1"
definition MSTATUS_SUM :: u64 where "MSTATUS_SUM = push_bit 18 1"
definition MSTATUS_MXR :: u64 where "MSTATUS_MXR = push_bit 19 1"
definition MSTATUS_TVM :: u64 where "MSTATUS_TVM = push_bit 20 1"
definition MSTATUS_TW :: u64 where "MSTATUS_TW = push_bit 21 1"
definition MSTATUS_TSR :: u64 where "MSTATUS_TSR = push_bit 22 1"
definition MIP_SSIP :: u64 where "MIP_SSIP = push_bit 1 1"
definition MIP_MSIP :: u64 where "MIP_MSIP = push_bit 3 1"
definition MIP_STIP :: u64 where "MIP_STIP = push_bit 5 1"
definition MIP_MTIP :: u64 where "MIP_MTIP = push_bit 7 1"
definition MIP_SEIP :: u64 where "MIP_SEIP = push_bit 9 1"
definition MIP_MEIP :: u64 where "MIP_MEIP = push_bit 11 1"
definition MSTATUS_MPP :: u64 where "MSTATUS_MPP = push_bit 11 3"
definition MSTATUS_FS :: u64 where "MSTATUS_FS = push_bit 13 3"
definition MSTATUS_FS_DIRTY :: u64 where "MSTATUS_FS_DIRTY = push_bit 13 3"
definition MSTATUS_UXL :: u64 where "MSTATUS_UXL = push_bit 32 3"
definition MSTATUS_SXL :: u64 where "MSTATUS_SXL = push_bit 34 3"
definition FCSR_FRM_MASK :: u64 where "FCSR_FRM_MASK = push_bit 5 7"
definition SATP_MODE_MASK :: u64 where "SATP_MODE_MASK = push_bit 60 0xf"
definition SATP_ASID_MASK :: u64 where "SATP_ASID_MASK = push_bit 44 0xffff"
definition MSTATUS_FS_INITIAL :: u64 where "MSTATUS_FS_INITIAL = push_bit 13 1"
definition MSTATUS_FS_CLEAN :: u64 where "MSTATUS_FS_CLEAN = push_bit 13 2"
definition SATP_PPN_MASK :: u64 where "SATP_PPN_MASK = push_bit 44 1 - 1"
abbreviation (input) MSTATUS_FS_OFF :: u64 where "MSTATUS_FS_OFF \<equiv> 0"
abbreviation (input) MSTATUS_MPP_SHIFT :: nat where "MSTATUS_MPP_SHIFT \<equiv> 11"
abbreviation (input) MSTATUS_FS_SHIFT :: nat where "MSTATUS_FS_SHIFT \<equiv> 13"
abbreviation (input) MSTATUS_XL_RV64 :: u64 where "MSTATUS_XL_RV64 \<equiv> 2"
abbreviation (input) FCSR_FFLAGS_MASK :: u64 where "FCSR_FFLAGS_MASK \<equiv> 0x1f"
abbreviation (input) FCSR_FRM_SHIFT :: nat where "FCSR_FRM_SHIFT \<equiv> 5"
abbreviation (input) FFLAG_NX :: u64 where "FFLAG_NX \<equiv> 1"
abbreviation (input) FFLAG_UF :: u64 where "FFLAG_UF \<equiv> 2"
abbreviation (input) FFLAG_OF :: u64 where "FFLAG_OF \<equiv> 4"
abbreviation (input) FFLAG_DZ :: u64 where "FFLAG_DZ \<equiv> 8"
abbreviation (input) FFLAG_NV :: u64 where "FFLAG_NV \<equiv> 16"
abbreviation (input) FRM_RNE :: u32 where "FRM_RNE \<equiv> 0"
abbreviation (input) FRM_RTZ :: u32 where "FRM_RTZ \<equiv> 1"
abbreviation (input) FRM_RDN :: u32 where "FRM_RDN \<equiv> 2"
abbreviation (input) FRM_RUP :: u32 where "FRM_RUP \<equiv> 3"
abbreviation (input) FRM_RMM :: u32 where "FRM_RMM \<equiv> 4"
abbreviation (input) FRM_DYN :: u32 where "FRM_DYN \<equiv> 7"
abbreviation (input) SATP_MODE_SHIFT :: nat where "SATP_MODE_SHIFT \<equiv> 60"
abbreviation (input) SATP_MODE_BARE :: u64 where "SATP_MODE_BARE \<equiv> 0"
abbreviation (input) SATP_MODE_SV39 :: u64 where "SATP_MODE_SV39 \<equiv> 8"
abbreviation (input) SATP_MODE_SV48 :: u64 where "SATP_MODE_SV48 \<equiv> 9"
abbreviation (input) MTVEC_MODE_MASK :: u64 where "MTVEC_MODE_MASK \<equiv> 0x3"
abbreviation (input) MTVEC_MODE_DIRECT :: u64 where "MTVEC_MODE_DIRECT \<equiv> 0"
abbreviation (input) MTVEC_MODE_VECTORED :: u64 where "MTVEC_MODE_VECTORED \<equiv> 1"

definition SSTATUS_MASK :: u64 where
  "SSTATUS_MASK = MSTATUS_SIE OR MSTATUS_SPIE OR MSTATUS_SPP OR MSTATUS_SUM OR MSTATUS_MXR
     OR MSTATUS_FS OR MSTATUS_UXL OR MSTATUS_SD"

definition SSTATUS_WRITE_MASK :: u64 where
  "SSTATUS_WRITE_MASK = SSTATUS_MASK AND NOT MSTATUS_UXL"

definition SIE_SIP_MASK :: u64 where
  "SIE_SIP_MASK = push_bit 1 1 OR push_bit 5 1 OR push_bit 9 1"

definition is_read_only :: "u32 \<Rightarrow> bool" where
  "is_read_only addr \<longleftrightarrow> drop_bit 10 addr AND 0x3 = 0x3"

definition min_privilege :: "u32 \<Rightarrow> u32" where
  "min_privilege addr = drop_bit 8 addr AND 0x3"

definition MISA_MXL_64 :: u64 where "MISA_MXL_64 = push_bit 62 2"

definition misa_ext :: "char \<Rightarrow> u64" where
  "misa_ext c = push_bit (of_char c - of_char CHR ''A'') 1"

definition INTERRUPT_MASK :: u64 where
  "INTERRUPT_MASK = MIP_MSIP OR MIP_MTIP OR MIP_MEIP OR MIP_SSIP OR MIP_STIP OR MIP_SEIP"

definition MIP_SOFTWARE_WRITABLE :: u64 where
  "MIP_SOFTWARE_WRITABLE = MIP_SSIP OR MIP_STIP OR MIP_SEIP"

definition MSTATUS_MASK :: u64 where
  "MSTATUS_MASK = MSTATUS_MIE OR MSTATUS_MPIE OR MSTATUS_MPP OR MSTATUS_SIE OR MSTATUS_SPIE
     OR MSTATUS_SPP OR MSTATUS_MPRV OR MSTATUS_SUM OR MSTATUS_MXR OR MSTATUS_TVM OR MSTATUS_TW
     OR MSTATUS_TSR OR MSTATUS_FS"

section \<open>The register file\<close>

record csr_file =
  csr_raw :: "u32 \<Rightarrow> u64"

definition csr_set_raw :: "u32 \<Rightarrow> u64 \<Rightarrow> csr_file \<Rightarrow> csr_file" where
  "csr_set_raw a v c = c\<lparr>csr_raw := (csr_raw c)(a := v)\<rparr>"

definition csr_new :: csr_file where
  "csr_new =
     (let r = (\<lambda>_. 0)(MISA := MISA_MXL_64 OR misa_ext CHR ''I'' OR misa_ext CHR ''M''
                OR misa_ext CHR ''A'' OR misa_ext CHR ''B'' OR misa_ext CHR ''C'' OR misa_ext CHR ''F''
                OR misa_ext CHR ''D'' OR misa_ext CHR ''S'' OR misa_ext CHR ''U'');
          r = r(MSTATUS := push_bit MSTATUS_MPP_SHIFT (ucast PRIV_MACHINE));
          r = r(MSTATUS := r MSTATUS OR (push_bit 32 MSTATUS_XL_RV64 OR push_bit 34 MSTATUS_XL_RV64))
      in \<lparr>csr_raw = r\<rparr>)"

definition csr_set_hartid :: "u64 \<Rightarrow> csr_file \<Rightarrow> csr_file" where
  "csr_set_hartid i c = csr_set_raw MHARTID i c"

definition csr_exists :: "u32 \<Rightarrow> bool" where
  "csr_exists addr \<longleftrightarrow>
     addr \<in> {MVENDORID, MARCHID, MIMPID, MHARTID, MSTATUS, MISA, MEDELEG, MIDELEG, MIE,
       MTVEC, MCOUNTEREN, MSCRATCH, MEPC, MCAUSE, MTVAL, MIP, MCYCLE, MINSTRET,
       CYCLE, TIME, INSTRET, SSTATUS, SIE, STVEC, SCOUNTEREN, SSCRATCH, SEPC,
       SCAUSE, STVAL, SIP, SATP, STIMECMP, MENVCFG, PMPCFG0, PMPCFG2, FFLAGS, FRM, FCSR}
     \<or> PMPADDR0 \<le> addr \<and> addr \<le> PMPADDR15"

definition csr_read_mstatus :: "csr_file \<Rightarrow> u64" where
  "csr_read_mstatus c =
     (let status = csr_raw c MSTATUS in
      if status AND MSTATUS_FS = MSTATUS_FS_DIRTY then status OR MSTATUS_SD
      else status AND NOT MSTATUS_SD)"

definition csr_read :: "u32 \<Rightarrow> csr_file \<Rightarrow> u64" where
  "csr_read addr c =
     (if addr = CYCLE then csr_raw c MCYCLE
      else if addr = INSTRET then csr_raw c MINSTRET
      else if addr = SSTATUS then csr_read_mstatus c AND SSTATUS_MASK
      else if addr = MSTATUS then csr_read_mstatus c
      else if addr = FCSR then csr_raw c FCSR
      else if addr = FFLAGS then csr_raw c FCSR AND FCSR_FFLAGS_MASK
      else if addr = FRM then drop_bit FCSR_FRM_SHIFT (csr_raw c FCSR AND FCSR_FRM_MASK)
      else if addr = SIE then csr_raw c MIE AND SIE_SIP_MASK
      else if addr = SIP then csr_raw c MIP AND SIE_SIP_MASK
      else csr_raw c (addr AND 0xfff))"

definition csr_write_mask :: "u32 \<Rightarrow> u64" where
  "csr_write_mask addr =
     (if addr = MSTATUS then MSTATUS_MASK
      else if addr = MIE then INTERRUPT_MASK
      else if addr = MIP then MIP_SOFTWARE_WRITABLE
      else if addr = MISA then 0
      else NOT 0)"

definition csr_write :: "u32 \<Rightarrow> u64 \<Rightarrow> csr_file \<Rightarrow> csr_file" where
  "csr_write addr value c =
     (let a = addr AND 0xfff in
      if a = MTVEC \<or> a = STVEC then
        (let mode = value AND MTVEC_MODE_MASK;
             mode = (if mode > MTVEC_MODE_VECTORED then MTVEC_MODE_DIRECT else mode)
         in csr_set_raw a ((value AND NOT MTVEC_MODE_MASK) OR mode) c)
      else if a = FCSR then csr_set_raw FCSR (value AND (FCSR_FFLAGS_MASK OR FCSR_FRM_MASK)) c
      else if a = FFLAGS then
        csr_set_raw FCSR ((csr_raw c FCSR AND NOT FCSR_FFLAGS_MASK) OR (value AND FCSR_FFLAGS_MASK)) c
      else if a = FRM then
        csr_set_raw FCSR ((csr_raw c FCSR AND NOT FCSR_FRM_MASK)
                          OR (push_bit FCSR_FRM_SHIFT value AND FCSR_FRM_MASK)) c
      else if a = SSTATUS then
        csr_set_raw MSTATUS ((csr_raw c MSTATUS AND NOT SSTATUS_WRITE_MASK)
                             OR (value AND SSTATUS_WRITE_MASK)) c
      else if a = SIE then
        csr_set_raw MIE ((csr_raw c MIE AND NOT SIE_SIP_MASK) OR (value AND SIE_SIP_MASK)) c
      else if a = SIP then
        csr_set_raw MIP ((csr_raw c MIP AND NOT MIP_SSIP) OR (value AND MIP_SSIP)) c
      else if a = SATP then
        (let mode = drop_bit SATP_MODE_SHIFT (value AND SATP_MODE_MASK)
         in if mode \<noteq> SATP_MODE_BARE \<and> mode \<noteq> SATP_MODE_SV39 then c else csr_set_raw a value c)
      else if a = MEPC \<or> a = SEPC then csr_set_raw a (value AND NOT 1) c
      else if a = CYCLE \<or> a = TIME \<or> a = INSTRET then c
      else (let m = csr_write_mask a
            in csr_set_raw a ((csr_raw c a AND NOT m) OR (value AND m)) c))"

definition csr_mstatus :: "csr_file \<Rightarrow> u64" where
  "csr_mstatus c = csr_read MSTATUS c"

definition csr_set_mstatus :: "u64 \<Rightarrow> csr_file \<Rightarrow> csr_file" where
  "csr_set_mstatus v c = csr_write MSTATUS v c"

definition mstatus_mie :: "csr_file \<Rightarrow> bool" where
  "mstatus_mie c \<longleftrightarrow> csr_mstatus c AND MSTATUS_MIE \<noteq> 0"

definition mstatus_sie :: "csr_file \<Rightarrow> bool" where
  "mstatus_sie c \<longleftrightarrow> csr_mstatus c AND MSTATUS_SIE \<noteq> 0"

definition mstatus_sum :: "csr_file \<Rightarrow> bool" where
  "mstatus_sum c \<longleftrightarrow> csr_raw c MSTATUS AND MSTATUS_SUM \<noteq> 0"

definition mstatus_mxr :: "csr_file \<Rightarrow> bool" where
  "mstatus_mxr c \<longleftrightarrow> csr_raw c MSTATUS AND MSTATUS_MXR \<noteq> 0"

definition mstatus_mpp :: "csr_file \<Rightarrow> u32" where
  "mstatus_mpp c = ucast (drop_bit MSTATUS_MPP_SHIFT (csr_raw c MSTATUS AND MSTATUS_MPP))"

definition counter_enabled :: "nat \<Rightarrow> u32 \<Rightarrow> csr_file \<Rightarrow> bool" where
  "counter_enabled b prv c =
     (if prv \<ge> PRIV_MACHINE then True
      else if drop_bit b (csr_read MCOUNTEREN c) AND 1 = 0 then False
      else if prv = PRIV_SUPERVISOR then True
      else drop_bit b (csr_read SCOUNTEREN c) AND 1 \<noteq> 0)"

definition sstc_enabled :: "csr_file \<Rightarrow> bool" where
  "sstc_enabled c \<longleftrightarrow> csr_raw c MENVCFG AND MENVCFG_STCE \<noteq> 0"

definition fpu_enabled :: "csr_file \<Rightarrow> bool" where
  "fpu_enabled c \<longleftrightarrow> csr_raw c MSTATUS AND MSTATUS_FS \<noteq> MSTATUS_FS_OFF"

definition mark_fpu_dirty :: "csr_file \<Rightarrow> csr_file" where
  "mark_fpu_dirty c = csr_set_raw MSTATUS ((csr_raw c MSTATUS AND NOT MSTATUS_FS) OR MSTATUS_FS_DIRTY) c"

definition raise_fflags :: "u64 \<Rightarrow> csr_file \<Rightarrow> csr_file" where
  "raise_fflags flags c = csr_set_raw FCSR (csr_raw c FCSR OR (flags AND FCSR_FFLAGS_MASK)) c"

definition csr_rounding_mode :: "csr_file \<Rightarrow> u32" where
  "csr_rounding_mode c = ucast (drop_bit FCSR_FRM_SHIFT (csr_raw c FCSR AND FCSR_FRM_MASK))"

definition csr_satp :: "csr_file \<Rightarrow> u64" where
  "csr_satp c = csr_raw c SATP"

definition satp_mode :: "csr_file \<Rightarrow> u64" where
  "satp_mode c = drop_bit SATP_MODE_SHIFT (csr_satp c AND SATP_MODE_MASK)"

definition satp_ppn :: "csr_file \<Rightarrow> u64" where
  "satp_ppn c = csr_satp c AND SATP_PPN_MASK"

definition satp_asid :: "csr_file \<Rightarrow> u64" where
  "satp_asid c = drop_bit 44 (csr_satp c AND SATP_ASID_MASK)"

definition delegated_exception :: "u64 \<Rightarrow> csr_file \<Rightarrow> bool" where
  "delegated_exception cause c \<longleftrightarrow> cause < 64 \<and> drop_bit (unat cause) (csr_raw c MEDELEG) AND 1 \<noteq> 0"

definition delegated_interrupt :: "u64 \<Rightarrow> csr_file \<Rightarrow> bool" where
  "delegated_interrupt cause c \<longleftrightarrow> cause < 64 \<and> drop_bit (unat cause) (csr_raw c MIDELEG) AND 1 \<noteq> 0"

definition pending_enabled :: "csr_file \<Rightarrow> u64" where
  "pending_enabled c = csr_raw c MIP AND csr_raw c MIE"

definition raise_interrupt :: "u64 \<Rightarrow> csr_file \<Rightarrow> csr_file" where
  "raise_interrupt b c = csr_set_raw MIP (csr_raw c MIP OR b) c"

definition clear_interrupt :: "u64 \<Rightarrow> csr_file \<Rightarrow> csr_file" where
  "clear_interrupt b c = csr_set_raw MIP (csr_raw c MIP AND NOT b) c"

definition tick_counters :: "csr_file \<Rightarrow> csr_file" where
  "tick_counters c =
     (let c = csr_set_raw MINSTRET (csr_raw c MINSTRET + 1) c
      in csr_set_raw MCYCLE (csr_raw c MCYCLE + 1) c)"

definition is_valid_priv :: "u32 \<Rightarrow> bool" where
  "is_valid_priv p \<longleftrightarrow> p = PRIV_USER \<or> p = PRIV_SUPERVISOR \<or> p = PRIV_MACHINE"

section \<open>Lemmas\<close>

subsection \<open>The bits of the masks\<close>

lemma bit_push_1 [mask_bits]: "bit (push_bit n 1 :: u64) k \<longleftrightarrow> k = n \<and> n < 64"
  by (auto simp: bit_simps)

lemma bit_single_masks [mask_bits]:
  "bit MENVCFG_STCE k \<longleftrightarrow> k = 63"
  "bit MENVCFG_ADUE k \<longleftrightarrow> k = 61"
  "bit MSTATUS_SIE k \<longleftrightarrow> k = 1"
  "bit MSTATUS_MIE k \<longleftrightarrow> k = 3"
  "bit MSTATUS_SPIE k \<longleftrightarrow> k = 5"
  "bit MSTATUS_MPIE k \<longleftrightarrow> k = 7"
  "bit MSTATUS_SPP k \<longleftrightarrow> k = 8"
  "bit MSTATUS_SD k \<longleftrightarrow> k = 63"
  "bit MSTATUS_MPRV k \<longleftrightarrow> k = 17"
  "bit MSTATUS_SUM k \<longleftrightarrow> k = 18"
  "bit MSTATUS_MXR k \<longleftrightarrow> k = 19"
  "bit MSTATUS_TVM k \<longleftrightarrow> k = 20"
  "bit MSTATUS_TW k \<longleftrightarrow> k = 21"
  "bit MSTATUS_TSR k \<longleftrightarrow> k = 22"
  "bit MIP_SSIP k \<longleftrightarrow> k = 1"
  "bit MIP_MSIP k \<longleftrightarrow> k = 3"
  "bit MIP_STIP k \<longleftrightarrow> k = 5"
  "bit MIP_MTIP k \<longleftrightarrow> k = 7"
  "bit MIP_SEIP k \<longleftrightarrow> k = 9"
  "bit MIP_MEIP k \<longleftrightarrow> k = 11"
  unfolding MENVCFG_STCE_def MENVCFG_ADUE_def MSTATUS_SIE_def MSTATUS_MIE_def MSTATUS_SPIE_def
    MSTATUS_MPIE_def MSTATUS_SPP_def MSTATUS_SD_def MSTATUS_MPRV_def MSTATUS_SUM_def MSTATUS_MXR_def
    MSTATUS_TVM_def MSTATUS_TW_def MSTATUS_TSR_def MIP_SSIP_def MIP_MSIP_def MIP_STIP_def
    MIP_MTIP_def MIP_SEIP_def MIP_MEIP_def bit_push_1
  by simp_all

lemma bit_run_masks [mask_bits]:
  "bit MSTATUS_MPP k \<longleftrightarrow> 11 \<le> k \<and> k < 13"
  "bit MSTATUS_FS k \<longleftrightarrow> 13 \<le> k \<and> k < 15"
  "bit MSTATUS_FS_DIRTY k \<longleftrightarrow> 13 \<le> k \<and> k < 15"
  "bit MSTATUS_UXL k \<longleftrightarrow> 32 \<le> k \<and> k < 34"
  "bit MSTATUS_SXL k \<longleftrightarrow> 34 \<le> k \<and> k < 36"
  "bit FCSR_FRM_MASK k \<longleftrightarrow> 5 \<le> k \<and> k < 8"
  "bit SATP_MODE_MASK k \<longleftrightarrow> 60 \<le> k \<and> k < 64"
  "bit SATP_ASID_MASK k \<longleftrightarrow> 44 \<le> k \<and> k < 60"
  "bit SATP_PPN_MASK k \<longleftrightarrow> k < 44"
    unfolding MSTATUS_MPP_def MSTATUS_FS_def MSTATUS_FS_DIRTY_def MSTATUS_UXL_def MSTATUS_SXL_def
    FCSR_FRM_MASK_def SATP_MODE_MASK_def SATP_ASID_MASK_def SATP_PPN_MASK_def bit_push_bit_iff
    push_bit_of_1 mask_eq_exp_minus_1 [symmetric]
  by (auto simp: bit_simps mask_bits)

lemma bit_union_masks [mask_bits]:
  "bit SSTATUS_MASK k \<longleftrightarrow> k \<in> {1, 5, 8, 13, 14, 18, 19, 32, 33, 63}"
  "bit SSTATUS_WRITE_MASK k \<longleftrightarrow> k \<in> {1, 5, 8, 13, 14, 18, 19, 63}"
  "bit SIE_SIP_MASK k \<longleftrightarrow> k \<in> {1, 5, 9}"
  "bit INTERRUPT_MASK k \<longleftrightarrow> k \<in> {1, 3, 5, 7, 9, 11}"
  "bit MIP_SOFTWARE_WRITABLE k \<longleftrightarrow> k \<in> {1, 5, 9}"
  "bit MSTATUS_MASK k \<longleftrightarrow> k \<in> {1, 3, 5, 7, 8, 11, 12, 13, 14, 17, 18, 19, 20, 21, 22}"
  unfolding SSTATUS_MASK_def SSTATUS_WRITE_MASK_def SIE_SIP_MASK_def INTERRUPT_MASK_def
    MIP_SOFTWARE_WRITABLE_def MSTATUS_MASK_def bit_or_iff bit_and_iff bit_not_iff bit_push_1 mask_bits
  by auto

lemma csr_raw_set [simp]: "csr_raw (csr_set_raw a v c) = (csr_raw c)(a := v)"
  by (simp add: csr_set_raw_def)

subsection \<open>The invariant\<close>

text \<open>
  The legal-value rules of the file: the modes of \<open>satp\<close> and of the two trap vectors are
  supported ones, return addresses are even, \<open>fcsr\<close> fits its two fields, \<open>misa\<close> and the XL
  fields of \<open>mstatus\<close> are what reset made them, no unimplemented \<open>mstatus\<close> bit is set and only
  existing interrupts are pending or enabled. SD is excepted: a write to \<open>sstatus\<close> stores it,
  every read recomputes it.
\<close>

definition csr_legal :: "u32 \<Rightarrow> u64 \<Rightarrow> bool" where
  "csr_legal a v \<longleftrightarrow>
     (if a = SATP then drop_bit SATP_MODE_SHIFT (v AND SATP_MODE_MASK) \<in> {SATP_MODE_BARE, SATP_MODE_SV39}
      else if a = MTVEC \<or> a = STVEC then v AND MTVEC_MODE_MASK \<in> {MTVEC_MODE_DIRECT, MTVEC_MODE_VECTORED}
      else if a = MEPC \<or> a = SEPC then \<not> bit v 0
      else if a = FCSR then v AND NOT 0xff = 0
      else if a = MISA then v = csr_raw csr_new MISA
      else if a = MSTATUS then v AND NOT (MSTATUS_MASK OR MSTATUS_SD) = push_bit 32 2 OR push_bit 34 2
      else if a = MIE \<or> a = MIP then v AND NOT INTERRUPT_MASK = 0
      else True)"

definition csr_inv :: "csr_file \<Rightarrow> bool" where
  "csr_inv c \<longleftrightarrow>
     list_all (\<lambda>a. csr_legal a (csr_raw c a)) [SATP, MTVEC, STVEC, MEPC, SEPC, FCSR, MISA, MSTATUS, MIE, MIP]"

lemma csr_new_raw:
  "a \<noteq> MISA \<Longrightarrow> csr_raw csr_new a
     = (if a = MSTATUS then push_bit 11 3 OR (push_bit 32 2 OR push_bit 34 2) else 0)"
  by (simp add: csr_new_def Let_def)

lemma masked_subset:
  fixes w v m n k :: u64
  assumes "w AND NOT k = r" "m AND NOT k = 0" "n AND NOT k = 0"
  shows "((w AND NOT m) OR (v AND n)) AND NOT k = r"
proof (rule bit_word_eqI)
  fix i assume "i < LENGTH(64)"
  show "bit (((w AND NOT m) OR (v AND n)) AND NOT k) i \<longleftrightarrow> bit r i"
    using arg_cong [OF assms(1), of "\<lambda>x. bit x i"] arg_cong [OF assms(2), of "\<lambda>x. bit x i"]
      arg_cong [OF assms(3), of "\<lambda>x. bit x i"] by (auto simp: bit_simps)
qed

lemma mask_inclusions:
  "MSTATUS_MASK AND NOT (MSTATUS_MASK OR MSTATUS_SD) = 0"
  "SSTATUS_WRITE_MASK AND NOT (MSTATUS_MASK OR MSTATUS_SD) = 0"
  "MSTATUS_FS AND NOT (MSTATUS_MASK OR MSTATUS_SD) = 0"
  "MSTATUS_FS_DIRTY AND NOT (MSTATUS_MASK OR MSTATUS_SD) = 0"
  "SIE_SIP_MASK AND NOT INTERRUPT_MASK = 0" "MIP_SSIP AND NOT INTERRUPT_MASK = 0"
  "MIP_SOFTWARE_WRITABLE AND NOT INTERRUPT_MASK = 0"
  "INTERRUPT_MASK AND NOT INTERRUPT_MASK = (0 :: u64)"
  "FCSR_FRM_MASK AND NOT 0xff = 0"
  by (rule bit_word_eqI; auto simp: bit_simps mask_bits)+

lemma csr_invD: "csr_inv c \<Longrightarrow> csr_legal a (csr_raw c a)"
  by (cases "a \<in> {SATP, MTVEC, STVEC, MEPC, SEPC, FCSR, MISA, MSTATUS, MIE, MIP}")
    (auto simp: csr_inv_def, simp add: csr_legal_def)

lemma csr_inv_set: "csr_inv c \<Longrightarrow> csr_legal a v \<Longrightarrow> csr_inv (csr_set_raw a v c)"
  by (auto simp: csr_inv_def)

lemma csr_inv_new: "csr_inv csr_new"
proof -
  have "(push_bit 11 3 OR (push_bit 32 2 OR push_bit 34 2)) AND NOT (MSTATUS_MASK OR MSTATUS_SD)
      = (push_bit 32 2 OR push_bit 34 2 :: u64)"
    unfolding MSTATUS_MASK_def MSTATUS_SD_def MSTATUS_MIE_def MSTATUS_MPIE_def MSTATUS_MPP_def
      MSTATUS_SIE_def MSTATUS_SPIE_def MSTATUS_SPP_def MSTATUS_MPRV_def MSTATUS_SUM_def MSTATUS_MXR_def
      MSTATUS_TVM_def MSTATUS_TW_def MSTATUS_TSR_def MSTATUS_FS_def by simp
  then show ?thesis
    by (simp add: csr_inv_def csr_new_raw csr_legal_def)
qed

lemma csr_inv_if: "(b \<Longrightarrow> csr_inv c) \<Longrightarrow> (\<not> b \<Longrightarrow> csr_inv d) \<Longrightarrow> csr_inv (if b then c else d)"
  by simp

lemma legal_tvec:
  "a = MTVEC \<or> a = STVEC \<Longrightarrow>
     csr_legal a ((v AND NOT MTVEC_MODE_MASK)
       OR (if v AND MTVEC_MODE_MASK > MTVEC_MODE_VECTORED then MTVEC_MODE_DIRECT else v AND MTVEC_MODE_MASK))"
proof -
  assume a: "a = MTVEC \<or> a = STVEC"
  let ?m = "if v AND 3 > 1 then 0 else v AND 3"
  have "?m AND 3 = ?m"
    by (simp add: and.assoc)
  then have "((v AND NOT 3) OR ?m) AND 3 = ?m"
    unfolding bit_eq_iff bit_and_iff bit_or_iff bit_not_iff by blast
  moreover have "x \<le> 1 \<Longrightarrow> x = 0 \<or> x = 1" for x :: u64
    by (auto simp: word_le_nat_alt word_unat_eq_iff le_Suc_eq)
  then have "?m \<in> {0, 1}"
    by (auto simp: not_less)
  moreover have "csr_legal a x \<longleftrightarrow> x AND 3 \<in> {0, 1}" for x
    using a by (auto simp: csr_legal_def)
  ultimately show ?thesis
    by (simp only:)
qed

lemma legal_generic:
  assumes "csr_legal a w" "a \<notin> {MTVEC, STVEC, FCSR, SATP, MEPC, SEPC}"
  shows "csr_legal a ((w AND NOT (csr_write_mask a)) OR (v AND csr_write_mask a))"
proof -
  consider "a = MSTATUS" | "a = MIE" | "a = MIP" | "a = MISA" | "a \<notin> {MSTATUS, MIE, MIP, MISA}"
    by blast
  then show ?thesis
  proof cases
    case 1
    with assms(1) masked_subset [OF _ mask_inclusions(1) mask_inclusions(1), of w _ v] show ?thesis
      by (simp add: csr_legal_def csr_write_mask_def)
  next
    case 2
    with assms(1) masked_subset [OF _ mask_inclusions(8) mask_inclusions(8), of w _ v] show ?thesis
      by (simp add: csr_legal_def csr_write_mask_def)
  next
    case 3
    with assms(1) masked_subset [OF _ mask_inclusions(7) mask_inclusions(7), of w _ v] show ?thesis
      by (simp add: csr_legal_def csr_write_mask_def)
  qed (use assms in \<open>auto simp: csr_legal_def csr_write_mask_def\<close>)
qed

lemma csr_inv_write:
  assumes "csr_inv c"
  shows "csr_inv (csr_write a v c)"
proof -
  note old = csr_invD [OF assms]
  have st: "csr_raw c MSTATUS AND NOT (MSTATUS_MASK OR MSTATUS_SD) = push_bit 32 2 OR push_bit 34 2"
    and mie: "csr_raw c MIE AND NOT INTERRUPT_MASK = 0" and mip: "csr_raw c MIP AND NOT INTERRUPT_MASK = 0"
    and fc: "csr_raw c FCSR AND NOT 0xff = 0"
    using old [of MSTATUS] old [of MIE] old [of MIP] old [of FCSR] by (simp_all add: csr_legal_def)
  have f1: "csr_legal FCSR (v AND (FCSR_FFLAGS_MASK OR FCSR_FRM_MASK))"
    by (simp add: csr_legal_def) (rule bit_word_eqI, auto simp: bit_simps mask_bits)
  have f2: "csr_legal FCSR ((csr_raw c FCSR AND NOT FCSR_FFLAGS_MASK) OR (v AND FCSR_FFLAGS_MASK))"
    using masked_subset [OF fc, of "0x1f" "0x1f" v] by (simp add: csr_legal_def)
  have f3: "csr_legal FCSR ((csr_raw c FCSR AND NOT FCSR_FRM_MASK) OR (push_bit 5 v AND FCSR_FRM_MASK))"
    using masked_subset [OF fc mask_inclusions(9) mask_inclusions(9)] by (simp add: csr_legal_def)
  have s1: "csr_legal MSTATUS ((csr_raw c MSTATUS AND NOT SSTATUS_WRITE_MASK) OR (v AND SSTATUS_WRITE_MASK))"
    using masked_subset [OF st mask_inclusions(2) mask_inclusions(2)] by (simp add: csr_legal_def)
  have i1: "csr_legal MIE ((csr_raw c MIE AND NOT SIE_SIP_MASK) OR (v AND SIE_SIP_MASK))"
    using masked_subset [OF mie mask_inclusions(5) mask_inclusions(5)] by (simp add: csr_legal_def)
  have i2: "csr_legal MIP ((csr_raw c MIP AND NOT MIP_SSIP) OR (v AND MIP_SSIP))"
    using masked_subset [OF mip mask_inclusions(6) mask_inclusions(6)] by (simp add: csr_legal_def)
  have e: "csr_legal b (v AND NOT 1)" if "b = MEPC \<or> b = SEPC" for b
    using that by (auto simp: csr_legal_def bit_simps)
  show ?thesis
    unfolding csr_write_def Let_def
    by (intro csr_inv_if assms csr_inv_set [OF assms] f1 f2 f3 s1 i1 i2 e legal_tvec legal_generic old)
      (simp_all add: csr_legal_def)
qed

lemma csr_inv_ops:
  assumes "csr_inv c"
  shows "csr_inv (csr_set_hartid i c)" "csr_inv (csr_set_mstatus v c)" "csr_inv (mark_fpu_dirty c)"
    "csr_inv (raise_fflags f c)" "csr_inv (tick_counters c)" "csr_inv (clear_interrupt b c)"
    "b AND NOT INTERRUPT_MASK = 0 \<Longrightarrow> csr_inv (raise_interrupt b c)"
proof -
  have st: "csr_raw c MSTATUS AND NOT (MSTATUS_MASK OR MSTATUS_SD) = push_bit 32 2 OR push_bit 34 2"
    and mip: "csr_raw c MIP AND NOT INTERRUPT_MASK = 0" and fc: "csr_raw c FCSR AND NOT 0xff = 0"
    using csr_invD [OF assms, of MSTATUS] csr_invD [OF assms, of MIP] csr_invD [OF assms, of FCSR]
    by (simp_all add: csr_legal_def)
  show "csr_inv (csr_set_hartid i c)" "csr_inv (csr_set_mstatus v c)"
    using csr_inv_set [OF assms, of MHARTID] csr_inv_write [OF assms]
    by (simp_all add: csr_set_hartid_def csr_set_mstatus_def csr_legal_def)
  show "csr_inv (mark_fpu_dirty c)"
    unfolding mark_fpu_dirty_def
    using masked_subset [OF st mask_inclusions(3) mask_inclusions(4), of "NOT 0"]
    by (intro csr_inv_set assms) (simp add: csr_legal_def)
  show "csr_inv (raise_fflags f c)"
    unfolding raise_fflags_def using masked_subset [OF fc, of 0 "0x1f" f]
    by (intro csr_inv_set assms) (simp add: csr_legal_def)
  show "csr_inv (tick_counters c)"
    unfolding tick_counters_def Let_def by (intro csr_inv_set assms) (simp_all add: csr_legal_def)
  have legal: "csr_legal MIP x \<longleftrightarrow> x AND NOT INTERRUPT_MASK = 0" for x
    by (simp add: csr_legal_def)
  have "(csr_raw c MIP AND NOT b) AND NOT INTERRUPT_MASK = (csr_raw c MIP AND NOT INTERRUPT_MASK) AND NOT b"
    by (simp only: and.assoc and.commute and.left_commute)
  then have "csr_legal MIP (csr_raw c MIP AND NOT b)"
    unfolding legal mip by simp
  then show "csr_inv (clear_interrupt b c)"
    unfolding clear_interrupt_def by (rule csr_inv_set [OF assms])
  assume "b AND NOT INTERRUPT_MASK = 0"
  then have "csr_legal MIP (csr_raw c MIP OR b)"
    using mip unfolding legal bit.conj_disj_distrib2 by simp
  then show "csr_inv (raise_interrupt b c)"
    unfolding raise_interrupt_def by (rule csr_inv_set [OF assms])
qed

subsection \<open>The views\<close>

lemma read_mstatus_bit:
  "k < 64 \<Longrightarrow> bit (csr_read_mstatus c) k \<longleftrightarrow>
     (if k = 63 then bit (csr_raw c MSTATUS) 13 \<and> bit (csr_raw c MSTATUS) 14 else bit (csr_raw c MSTATUS) k)"
proof -
  assume k: "k < 64"
  have "csr_raw c MSTATUS AND MSTATUS_FS = MSTATUS_FS_DIRTY
      \<longleftrightarrow> bit (csr_raw c MSTATUS) 13 \<and> bit (csr_raw c MSTATUS) 14" (is "?l \<longleftrightarrow> ?r")
  proof
    assume ?l
    then have "bit (csr_raw c MSTATUS AND MSTATUS_FS) i \<longleftrightarrow> bit MSTATUS_FS_DIRTY i" for i
      by simp
    from this [of 13] this [of 14] show ?r
      by (simp add: bit_and_iff mask_bits)
  next
    assume ?r
    moreover have "13 \<le> i \<and> i < 15 \<longleftrightarrow> i = 13 \<or> i = (14 :: nat)" for i
      by arith
    ultimately show ?l
      by (intro bit_word_eqI) (auto simp: bit_and_iff bit_run_masks)
  qed
  then show ?thesis
    using k by (auto simp: csr_read_mstatus_def Let_def bit_simps mask_bits)
qed

lemma sstatus_write_read:
  "k < 64 \<Longrightarrow> bit (csr_read SSTATUS (csr_write SSTATUS v c)) k \<longleftrightarrow>
     (if k \<in> {1, 5, 8, 13, 14, 18, 19} then bit v k
      else if k \<in> {32, 33} then bit (csr_raw c MSTATUS) k
      else k = 63 \<and> bit v 13 \<and> bit v 14)"
  by (auto simp: csr_read_def csr_write_def Let_def read_mstatus_bit bit_simps mask_bits)

lemma sstatus_write_frame:
  "a \<noteq> MSTATUS \<Longrightarrow> csr_raw (csr_write SSTATUS v c) a = csr_raw c a"
  "csr_raw (csr_write SSTATUS v c) MSTATUS AND NOT SSTATUS_MASK = csr_raw c MSTATUS AND NOT SSTATUS_MASK"
  by (simp_all add: csr_write_def Let_def)
    (rule bit_word_eqI, auto simp: bit_simps mask_bits)

section \<open>Properties\<close>



text \<open>C30: \<open>sstatus\<close> is a window on \<open>mstatus\<close>: writing it and reading it back gives the written
  supervisor fields, the fixed XL field and an SD bit that is set exactly when the FS field is
  dirty; nothing outside the window and no other register changes.\<close>

lemma sstatus_window:
  assumes "k < 64"
  shows "(bit (csr_read SSTATUS (csr_write SSTATUS v c)) k \<longleftrightarrow>
       (if k \<in> {1, 5, 8, 13, 14, 18, 19} then bit v k
        else if k \<in> {32, 33} then bit (csr_raw c MSTATUS) k
        else k = 63 \<and> bit v 13 \<and> bit v 14)) \<and>
    (\<forall>a. a \<noteq> MSTATUS \<longrightarrow> csr_raw (csr_write SSTATUS v c) a = csr_raw c a) \<and>
    csr_raw (csr_write SSTATUS v c) MSTATUS AND NOT SSTATUS_MASK = csr_raw c MSTATUS AND NOT SSTATUS_MASK"
  using sstatus_write_read [OF assms] sstatus_write_frame by blast

lemma sstatus_window_witness: "bit (csr_read SSTATUS (csr_write SSTATUS 0x6000 csr_new)) 63"
  using sstatus_window [of 63 "0x6000" csr_new] by simp

end
