(* ===== verification/Clint.thy ===== *)
theory Clint
  imports Device Csr
begin

text \<open>
  The core-local interruptor and the machine clock, \<open>src/src/clint.rs\<close>. The clock is shared by
  reference between the CLINT and the harts; here it is a record of its own that the
  operations take and return. Per-hart registers are lists of the number of harts.
\<close>

section \<open>The clock\<close>

record clock =
  ck_mtime :: u64
  ck_live :: u64
  ck_ipt :: u64
  ck_subtick :: u64

definition clock_new :: clock where
  "clock_new = \<lparr>ck_mtime = 0, ck_live = 0, ck_ipt = 1, ck_subtick = 0\<rparr>"

definition clock_now :: "clock \<Rightarrow> u64" where
  "clock_now k = ck_mtime k + ck_live k div max (ck_ipt k) 1"

definition set_mtime :: "u64 \<Rightarrow> clock \<Rightarrow> clock" where
  "set_mtime t k = k\<lparr>ck_mtime := t\<rparr>"

definition set_instructions_per_tick :: "u64 \<Rightarrow> clock \<Rightarrow> clock" where
  "set_instructions_per_tick n k = k\<lparr>ck_ipt := max n 1\<rparr>"

definition clock_tick :: "u64 \<Rightarrow> clock \<Rightarrow> clock" where
  "clock_tick instructions k =
     (let ipt = max (ck_ipt k) 1 in
      if ipt \<le> 1 then k\<lparr>ck_mtime := ck_mtime k + instructions\<rparr>
      else (let sub = ck_subtick k + instructions
            in k\<lparr>ck_mtime := ck_mtime k + sub div ipt, ck_subtick := sub mod ipt\<rparr>))"

definition advance_to :: "u64 \<Rightarrow> clock \<Rightarrow> clock" where
  "advance_to t k = (if t > ck_mtime k then k\<lparr>ck_mtime := t, ck_subtick := 0\<rparr> else k)"

section \<open>The CLINT\<close>

abbreviation (input) MAX_HARTS :: nat where "MAX_HARTS \<equiv> 32"
abbreviation (input) MSIP_OFFSET :: u64 where "MSIP_OFFSET \<equiv> 0x0000"
abbreviation (input) MTIMECMP_OFFSET :: u64 where "MTIMECMP_OFFSET \<equiv> 0x4000"
abbreviation (input) MTIME_OFFSET :: u64 where "MTIME_OFFSET \<equiv> 0xbff8"

record clint =
  cl_harts :: u32
  cl_sbi_timer :: "bool list"
  cl_mtimecmp :: "u64 list"
  cl_msip :: "u32 list"

definition clint_new :: "u32 \<Rightarrow> clint" where
  "clint_new harts =
     (let harts = max 1 (min harts (of_nat MAX_HARTS)); n = unat harts
      in \<lparr>cl_harts = harts, cl_sbi_timer = replicate n False, cl_mtimecmp = replicate n 0,
          cl_msip = replicate n 0\<rparr>)"

definition clint_mtimecmp :: "u32 \<Rightarrow> clint \<Rightarrow> u64" where
  "clint_mtimecmp hart c =
     (if unat hart < length (cl_mtimecmp c) then cl_mtimecmp c ! unat hart else NOT 0)"

definition drive_interrupt :: "bool \<Rightarrow> u64 \<Rightarrow> csr_file \<Rightarrow> csr_file" where
  "drive_interrupt on b csrs = (if on then raise_interrupt b csrs else clear_interrupt b csrs)"

definition clint_update :: "clock \<Rightarrow> clint \<Rightarrow> u32 \<Rightarrow> csr_file \<Rightarrow> csr_file" where
  "clint_update k c hart csrs =
     (let h = unat hart in
      if h \<ge> unat (cl_harts c) then csrs
      else
        (let mtime = ck_mtime k;
             csrs = drive_interrupt (mtime \<ge> cl_mtimecmp c ! h) MIP_MTIP csrs;
             csrs = drive_interrupt (cl_msip c ! h AND 1 \<noteq> 0) MIP_MSIP csrs
         in if sstc_enabled csrs then drive_interrupt (mtime \<ge> csr_read STIMECMP csrs) MIP_STIP csrs
            else if cl_sbi_timer c ! h then drive_interrupt (mtime \<ge> cl_mtimecmp c ! h) MIP_STIP csrs
            else csrs))"

definition set_timer :: "u64 \<Rightarrow> csr_file \<Rightarrow> u32 \<Rightarrow> clint \<Rightarrow> clint \<times> csr_file" where
  "set_timer deadline csrs hart c =
     (let h = unat hart in
      if h \<ge> unat (cl_harts c) then (c, csrs)
      else (c\<lparr>cl_mtimecmp := (cl_mtimecmp c)[h := deadline], cl_sbi_timer := (cl_sbi_timer c)[h := True]\<rparr>,
            clear_interrupt MIP_STIP (clear_interrupt MIP_MTIP csrs)))"

definition set_msip :: "u32 \<Rightarrow> bool \<Rightarrow> clint \<Rightarrow> clint" where
  "set_msip hart on c =
     (if unat hart < length (cl_msip c) then c\<lparr>cl_msip := (cl_msip c)[unat hart := of_bool on]\<rparr> else c)"

definition clint_msip :: "u32 \<Rightarrow> clint \<Rightarrow> bool" where
  "clint_msip hart c \<longleftrightarrow> unat hart < length (cl_msip c) \<and> cl_msip c ! unat hart \<noteq> 0"

definition clint_load :: "(clock \<times> clint) dev_load" where
  "clint_load offset n s =
     (let (k, c) = s in
      if offset < MSIP_OFFSET + 4 * of_nat MAX_HARTS \<and> n = 4 then
        (let hart = unat ((offset - MSIP_OFFSET) div 4)
         in (Inr (if hart < length (cl_msip c) then ucast (cl_msip c ! hart) else 0), s))
      else
        (let cmp =
           (if MTIMECMP_OFFSET \<le> offset \<and> offset < MTIMECMP_OFFSET + 8 * of_nat MAX_HARTS then
              (let hart = unat ((offset - MTIMECMP_OFFSET) div 8);
                   word = (offset - MTIMECMP_OFFSET) mod 8;
                   v = (if hart < length (cl_mtimecmp c) then cl_mtimecmp c ! hart else NOT 0)
               in if word = 0 \<and> n = 8 then Some v
                  else if word = 0 \<and> n = 4 then Some (v AND 0xffffffff)
                  else if word = 4 \<and> n = 4 then Some (drop_bit 32 v)
                  else None)
            else None)
         in case cmp of
              Some v \<Rightarrow> (Inr v, s)
            | None \<Rightarrow>
                if offset = MTIME_OFFSET \<and> n = 8 then (Inr (clock_now k), s)
                else if offset = MTIME_OFFSET \<and> n = 4 then (Inr (clock_now k AND 0xffffffff), s)
                else if offset = MTIME_OFFSET + 4 \<and> n = 4 then (Inr (drop_bit 32 (clock_now k)), s)
                else (Inl (trap_new LoadAccessFault (CLINT_BASE + offset)), s)))"

definition clint_store :: "(clock \<times> clint) dev_store" where
  "clint_store offset n value s =
     (let (k, c) = s in
      if offset < MSIP_OFFSET + 4 * of_nat MAX_HARTS \<and> n = 4 then
        (let hart = unat ((offset - MSIP_OFFSET) div 4)
         in (Inr (), if hart < length (cl_msip c)
                     then (k, c\<lparr>cl_msip := (cl_msip c)[hart := ucast value AND 1]\<rparr>) else s))
      else if MTIMECMP_OFFSET \<le> offset \<and> offset < MTIMECMP_OFFSET + 8 * of_nat MAX_HARTS then
        (let hart = unat ((offset - MTIMECMP_OFFSET) div 8);
             word = (offset - MTIMECMP_OFFSET) mod 8;
             ok = (word = 0 \<and> (n = 8 \<or> n = 4) \<or> word = 4 \<and> n = 4)
         in if \<not> ok then (Inl (trap_new StoreAMOAccessFault (CLINT_BASE + offset)), s)
            else if hart \<ge> length (cl_mtimecmp c) then (Inr (), s)
            else
              (let slot = cl_mtimecmp c ! hart;
                   slot = (if word = 0 \<and> n = 8 then value
                           else if word = 0 then (slot AND NOT 0xffffffff) OR (value AND 0xffffffff)
                           else (slot AND 0xffffffff) OR push_bit 32 value)
               in (Inr (), (k, c\<lparr>cl_mtimecmp := (cl_mtimecmp c)[hart := slot]\<rparr>))))
      else if offset = MTIME_OFFSET \<and> n = 8 then (Inr (), (set_mtime value k, c))
      else (Inl (trap_new StoreAMOAccessFault (CLINT_BASE + offset)), s))"

section \<open>Lemmas\<close>

definition clint_inv :: "clint \<Rightarrow> bool" where
  "clint_inv c \<longleftrightarrow>
     1 \<le> cl_harts c \<and> cl_harts c \<le> of_nat MAX_HARTS \<and>
     length (cl_sbi_timer c) = unat (cl_harts c) \<and> length (cl_mtimecmp c) = unat (cl_harts c) \<and>
     length (cl_msip c) = unat (cl_harts c) \<and> (\<forall>m\<in>set (cl_msip c). m = 0 \<or> m = 1)"

lemma and_1_cases: "(x :: u32) AND 1 = 0 \<or> x AND 1 = 1"
  by (simp add: and_one_eq mod_2_eq_odd)

lemma clint_inv_update_msip:
  "clint_inv c \<Longrightarrow> m = 0 \<or> m = 1 \<Longrightarrow> clint_inv (c\<lparr>cl_msip := (cl_msip c)[i := m]\<rparr>)"
  using set_update_subset_insert [of "cl_msip c" i m] by (auto simp: clint_inv_def)

lemma clint_inv_new: "clint_inv (clint_new h)"
  by (auto simp: clint_inv_def clint_new_def Let_def)

lemma clint_inv_ops:
  assumes "clint_inv c"
  shows "clint_inv (fst (set_timer d csrs h c))" "clint_inv (set_msip h on c)"
  using assms clint_inv_update_msip [OF assms, of "of_bool on" "unat h"]
  by (auto simp: set_timer_def set_msip_def Let_def clint_inv_def)

interpretation ct: mmio_device CLINT_BASE clint_load clint_store "\<lambda>s. clint_inv (snd s)"
proof
  fix s :: "clock \<times> clint" and off n v t
  show "clint_inv (snd s) \<Longrightarrow> clint_inv (snd (snd (clint_load off n s)))"
    by (auto simp: clint_load_def Let_def split: prod.splits option.splits)
  show "clint_inv (snd s) \<Longrightarrow> clint_inv (snd (snd (clint_store off n v s)))"
    using clint_inv_update_msip [OF _ and_1_cases]
    by (auto simp: clint_store_def Let_def split_beta) (auto simp: clint_inv_def)
  show "fst (clint_load off n s) = Inl t \<Longrightarrow>
      t = trap_new LoadAccessFault (CLINT_BASE + off) \<and> snd (clint_load off n s) = s"
    by (auto simp: clint_load_def Let_def split: prod.splits option.splits if_splits)
  show "fst (clint_store off n v s) = Inl t \<Longrightarrow>
      t = trap_new StoreAMOAccessFault (CLINT_BASE + off) \<and> snd (clint_store off n v s) = s"
    by (auto simp: clint_store_def Let_def split: prod.splits if_splits)
qed

subsection \<open>Ticks\<close>

lemma unat_max_1: "unat (max x (1 :: u64)) = max (unat x) 1"
  by (auto simp: max_def word_le_nat_alt)

text \<open>
  Instructions are conserved: the clock's reading in instructions grows by exactly what was
  ticked, as long as the counters do not wrap.
\<close>

definition clock_instructions :: "clock \<Rightarrow> nat" where
  "clock_instructions k = unat (ck_mtime k) * max (unat (ck_ipt k)) 1 + unat (ck_subtick k)"

lemma clock_tick_conserves:
  assumes "ck_ipt k \<le> 1 \<longrightarrow> ck_subtick k = 0"
    and "unat (ck_mtime k) + unat (ck_subtick k) + unat n < 2 ^ 64"
  shows "clock_instructions (clock_tick n k) = clock_instructions k + unat n"
proof (cases "max (ck_ipt k) 1 \<le> 1")
  case True
  then have i: "max (unat (ck_ipt k)) 1 = 1" "ck_ipt k \<le> 1"
    by (auto simp: word_le_nat_alt unat_max_1 max_def split: if_splits)
  have "unat (ck_mtime k + n) = unat (ck_mtime k) + unat n"
    using assms(2) by (intro unat_add_lem [THEN iffD1]) simp
  then show ?thesis
    using True i assms(1) by (simp add: clock_instructions_def clock_tick_def Let_def)
next
  case False
  let ?i = "max (ck_ipt k) 1" and ?sub = "ck_subtick k + n"
  have i: "unat ?i = max (unat (ck_ipt k)) 1" "1 < unat ?i"
    using False by (simp_all add: unat_max_1 word_le_nat_alt)
  have sub: "unat ?sub = unat (ck_subtick k) + unat n"
    using assms(2) by (intro unat_add_lem [THEN iffD1]) simp
  have "unat (ck_mtime k) + unat ?sub div unat ?i < 2 ^ 64"
    using assms(2) div_le_dividend [of "unat ?sub" "unat ?i"] sub by linarith
  then have "unat (ck_mtime k + ?sub div ?i) = unat (ck_mtime k) + unat ?sub div unat ?i"
    by (simp add: unat_add_lem [THEN iffD1] unat_div)
  moreover have "unat ?sub div unat ?i * unat ?i + unat ?sub mod unat ?i = unat ?sub"
    by simp
  ultimately show ?thesis
    using False sub i by (simp add: clock_instructions_def clock_tick_def Let_def unat_mod algebra_simps)
qed

subsection \<open>Interrupt lines\<close>

lemma drive_interrupt_raw [simp]: "a \<noteq> MIP \<Longrightarrow> csr_raw (drive_interrupt on b c) a = csr_raw c a"
  by (simp add: drive_interrupt_def raise_interrupt_def clear_interrupt_def)

lemma drive_interrupt_mip:
  "j < 64 \<Longrightarrow> bit (csr_raw (drive_interrupt on b c) MIP) j \<longleftrightarrow> (if bit b j then on else bit (csr_raw c MIP) j)"
  by (simp add: drive_interrupt_def raise_interrupt_def clear_interrupt_def bit_simps)

lemma drive_interrupt_sstc [simp]: "sstc_enabled (drive_interrupt on b c) = sstc_enabled c"
  by (simp add: sstc_enabled_def)

lemma drive_interrupt_stimecmp [simp]:
  "csr_read STIMECMP (drive_interrupt on b c) = csr_read STIMECMP c"
  by (simp add: csr_read_def)

lemma drive_interrupt_inv:
  "csr_inv c \<Longrightarrow> b AND NOT INTERRUPT_MASK = 0 \<Longrightarrow> csr_inv (drive_interrupt on b c)"
  by (simp add: drive_interrupt_def csr_inv_ops)

lemma clint_update_frame: "a \<noteq> MIP \<Longrightarrow> csr_raw (clint_update k c h csrs) a = csr_raw csrs a"
  by (simp add: clint_update_def Let_def)

lemma clint_update_mip:
  assumes "unat h < unat (cl_harts c)" "j < 64"
  shows "bit (csr_raw (clint_update k c h csrs) MIP) j \<longleftrightarrow>
    (if j = 7 then ck_mtime k \<ge> cl_mtimecmp c ! unat h
     else if j = 3 then odd (cl_msip c ! unat h)
     else if j = 5 \<and> sstc_enabled csrs then ck_mtime k \<ge> csr_read STIMECMP csrs
     else if j = 5 \<and> cl_sbi_timer c ! unat h then ck_mtime k \<ge> cl_mtimecmp c ! unat h
     else bit (csr_raw csrs MIP) j)"
  using assms
  by (simp add: clint_update_def Let_def drive_interrupt_mip mask_bits and_one_eq mod_2_eq_odd)

lemma interrupt_bits_legal:
  "MIP_MTIP AND NOT INTERRUPT_MASK = 0" "MIP_MSIP AND NOT INTERRUPT_MASK = 0"
  "MIP_STIP AND NOT INTERRUPT_MASK = 0" "MIP_MEIP AND NOT INTERRUPT_MASK = 0"
  "MIP_SEIP AND NOT INTERRUPT_MASK = 0"
  by (rule bit_word_eqI; auto simp: bit_simps mask_bits)+

lemma clint_update_inv: "csr_inv csrs \<Longrightarrow> csr_inv (clint_update k c h csrs)"
  by (simp add: clint_update_def Let_def drive_interrupt_inv interrupt_bits_legal)

subsection \<open>The compare registers\<close>

text \<open>Writing the two halves, in either order, is writing the whole register.\<close>

lemma mtimecmp_halves:
  "(x AND NOT 0xffffffff OR (v AND 0xffffffff)) AND 0xffffffff OR push_bit 32 (drop_bit 32 v) = (v :: u64)"
  "((x AND 0xffffffff) OR push_bit 32 (drop_bit 32 v)) AND NOT 0xffffffff OR (v AND 0xffffffff) = (v :: u64)"
proof -
  have *: "bit (push_bit 32 (drop_bit 32 v)) n \<longleftrightarrow> 32 \<le> n \<and> bit v n" if "n < 64" for n
    using that by (auto simp: bit_push_bit_iff bit_drop_bit_eq)
  show "(x AND NOT 0xffffffff OR (v AND 0xffffffff)) AND 0xffffffff OR push_bit 32 (drop_bit 32 v) = v"
    "((x AND 0xffffffff) OR push_bit 32 (drop_bit 32 v)) AND NOT 0xffffffff OR (v AND 0xffffffff) = v"
    by (rule bit_word_eqI; unfold bit_and_iff bit_or_iff bit_not_iff; auto simp: * mask_bits)+
qed

lemma mtimecmp_offset:
  assumes "unat (o8 :: u64) = 8 * h" "h < 32"
  shows "unat (o8 div 8) = h" "o8 mod 8 = 0" "unat ((o8 + 4) div 8) = h" "(o8 + 4) mod 8 = 4"
proof -
  have u: "unat (o8 + 4) = 8 * h + 4"
    using assms by (subst unat_add_lem [THEN iffD1]) simp_all
  show "unat (o8 div 8) = h" "unat ((o8 + 4) div 8) = h"
    by (simp_all only: unat_div u assms) simp_all
  show "o8 mod 8 = 0" "(o8 + 4) mod 8 = 4"
    by (simp_all only: word_unat_eq_iff unat_mod u assms) simp_all
qed

lemma mtimecmp_halves_store:
  assumes "h < 32" "unat off = 0x4000 + 8 * h"
  shows "snd (clint_store (off + 4) 4 (drop_bit 32 v) (snd (clint_store off 4 (v AND 0xffffffff) (k, c))))
      = snd (clint_store off 8 v (k, c))"
    and "snd (clint_store off 4 (v AND 0xffffffff) (snd (clint_store (off + 4) 4 (drop_bit 32 v) (k, c))))
      = snd (clint_store off 8 v (k, c))"
proof -
  have u: "unat (off - 0x4000) = 8 * h" "unat (off + 4) = 0x4000 + 8 * h + 4"
    using assms by (simp_all add: unat_sub_if_size word_size word_le_nat_alt unat_add_lem [THEN iffD1])
  have r: "0x4000 \<le> off" "off < 0x4100" "0x4000 \<le> off + 4" "off + 4 < 0x4100"
    "\<not> off < 0x80" "\<not> off + 4 < 0x80"
    using assms u(2) by (simp_all add: word_le_nat_alt word_less_nat_alt)
  have d: "off + 4 - 0x4000 = (off - 0x4000) + 4"
    by simp
  note o = mtimecmp_offset [OF u(1) assms(1)]
  show "snd (clint_store (off + 4) 4 (drop_bit 32 v) (snd (clint_store off 4 (v AND 0xffffffff) (k, c))))
      = snd (clint_store off 8 v (k, c))"
    "snd (clint_store off 4 (v AND 0xffffffff) (snd (clint_store (off + 4) 4 (drop_bit 32 v) (k, c))))
      = snd (clint_store off 8 v (k, c))"
    using r o mtimecmp_halves by (auto simp: clint_store_def Let_def d and.assoc)
qed

section \<open>Properties\<close>

text \<open>C36: the interrupt lines the CLINT drives into a hart's \<open>mip\<close>: the machine timer line is high
  exactly when the clock reached the hart's compare value, the machine software line when the
  guest set it; the supervisor timer line follows \<open>stimecmp\<close> when Sstc is on, the compare value
  when the firmware armed it, and is left alone otherwise. No other bit and no other register
  changes.\<close>

theorem clint_lines:
  assumes "unat h < unat (cl_harts c)" "j < 64" "a \<noteq> MIP"
  shows "(bit (csr_raw (clint_update k c h csrs) MIP) j \<longleftrightarrow>
    (if j = 7 then ck_mtime k \<ge> cl_mtimecmp c ! unat h
     else if j = 3 then odd (cl_msip c ! unat h)
     else if j = 5 \<and> sstc_enabled csrs then ck_mtime k \<ge> csr_read STIMECMP csrs
     else if j = 5 \<and> cl_sbi_timer c ! unat h then ck_mtime k \<ge> cl_mtimecmp c ! unat h
     else bit (csr_raw csrs MIP) j)) \<and>
    csr_raw (clint_update k c h csrs) a = csr_raw csrs a"
  using clint_update_mip [OF assms(1,2)] clint_update_frame [OF assms(3)] by simp

lemma clint_lines_witness:
  "bit (csr_raw (clint_update clock_new (clint_new 1) 0 csr_new) MIP) 7"
  using clint_lines [of 0 "clint_new 1" 7 MSTATUS clock_new csr_new] by (simp add: clint_new_def clock_new_def)

text \<open>the virtual clock loses no instruction: however the retired instructions are split into
  batches, ticks and sub-ticks together account for every one of them.\<close>

theorem clock_conserves:
  assumes "ck_ipt k \<le> 1 \<longrightarrow> ck_subtick k = 0"
    and "unat (ck_mtime k) + unat (ck_subtick k) + unat n < 2 ^ 64"
  shows "clock_instructions (clock_tick n k) = clock_instructions k + unat n"
  by (rule clock_tick_conserves [OF assms])

lemma clock_conserves_witness:
  "clock_instructions (clock_tick 25 clock_new) = clock_instructions clock_new + 25"
  using clock_conserves [of clock_new 25] by (simp add: clock_new_def)

text \<open>a guest that writes the two halves of a 64-bit compare register separately, in either
  order, ends with the state of one 64-bit write.\<close>

theorem compare_halves:
  assumes "h < 32" "unat off = 0x4000 + 8 * h"
  shows "snd (clint_store (off + 4) 4 (drop_bit 32 v) (snd (clint_store off 4 (v AND 0xffffffff) (k, c))))
      = snd (clint_store off 8 v (k, c)) \<and>
    snd (clint_store off 4 (v AND 0xffffffff) (snd (clint_store (off + 4) 4 (drop_bit 32 v) (k, c))))
      = snd (clint_store off 8 v (k, c))"
  using mtimecmp_halves_store [OF assms] by blast

lemma compare_halves_witness:
  "snd (clint_store 0x4004 4 7 (snd (clint_store 0x4000 4 5 (clock_new, clint_new 1))))
     = snd (clint_store 0x4000 8 0x700000005 (clock_new, clint_new 1))"
  using compare_halves [of 0 "0x4000" "0x700000005" clock_new "clint_new 1"] by simp

end
