(* ===== verification/Plic.thy ===== *)
theory Plic
  imports Clint
begin

text \<open>
  The platform-level interrupt controller, \<open>src/src/plic.rs\<close>. The priorities are a fixed array
  of 64 words, a function of the source number here (every index in the source is below 64).
  The arbitration cache is interior-mutable in the source, so \<open>best_irq\<close> returns the
  controller as well.
\<close>

section \<open>State and operations\<close>

abbreviation (input) MAX_IRQS :: u32 where "MAX_IRQS \<equiv> 64"
abbreviation (input) PRIORITY_BASE :: u64 where "PRIORITY_BASE \<equiv> 0x000000"
abbreviation (input) PENDING_BASE :: u64 where "PENDING_BASE \<equiv> 0x001000"
abbreviation (input) ENABLE_BASE :: u64 where "ENABLE_BASE \<equiv> 0x002000"
abbreviation (input) CONTEXT_BASE :: u64 where "CONTEXT_BASE \<equiv> 0x200000"
abbreviation (input) CONTEXT_STRIDE :: u64 where "CONTEXT_STRIDE \<equiv> 0x1000"
abbreviation (input) THRESHOLD_OFF :: u64 where "THRESHOLD_OFF \<equiv> 0x0"
abbreviation (input) CLAIM_OFF :: u64 where "CLAIM_OFF \<equiv> 0x4"

record plic_context =
  cx_enabled :: u64
  cx_threshold :: u32

record plic =
  pl_priority :: "nat \<Rightarrow> u32"
  pl_line :: u64
  pl_pending :: u64
  pl_claimed :: u64
  pl_contexts :: "plic_context list"
  pl_best :: "u32 list"
  pl_dirty :: bool

definition plic_new :: "u32 \<Rightarrow> plic" where
  "plic_new harts =
     (let n = 2 * unat (max harts 1)
      in \<lparr>pl_priority = (\<lambda>_. 0), pl_line = 0, pl_pending = 0, pl_claimed = 0,
          pl_contexts = replicate n \<lparr>cx_enabled = 0, cx_threshold = 0\<rparr>,
          pl_best = replicate n 0, pl_dirty = True\<rparr>)"

definition set_pending :: "u32 \<Rightarrow> bool \<Rightarrow> plic \<Rightarrow> plic" where
  "set_pending irq asserted p =
     (if irq = 0 \<or> irq \<ge> MAX_IRQS then p
      else
        (let b = push_bit (unat irq) 1; before_line = pl_line p; before_pending = pl_pending p;
             p = (if asserted then p\<lparr>pl_line := pl_line p OR b, pl_pending := pl_pending p OR b\<rparr>
                  else p\<lparr>pl_line := pl_line p AND NOT b, pl_pending := pl_pending p AND NOT b\<rparr>)
         in if pl_line p \<noteq> before_line \<or> pl_pending p \<noteq> before_pending then p\<lparr>pl_dirty := True\<rparr> else p))"

definition scan_step :: "plic \<Rightarrow> plic_context \<Rightarrow> u64 \<Rightarrow> nat \<Rightarrow> u32 \<times> u32 \<Rightarrow> u32 \<times> u32" where
  "scan_step p c candidates irq acc =
     (let (best, best_priority) = acc in
      if candidates AND push_bit irq 1 = 0 then acc
      else
        (let pr = pl_priority p irq in
         if pr = 0 \<or> pr \<le> cx_threshold c then acc
         else if pr > best_priority then (of_nat irq, pr) else acc))"

definition scan :: "nat \<Rightarrow> plic \<Rightarrow> u32" where
  "scan ctx p =
     (if ctx \<ge> length (pl_contexts p) then 0
      else
        (let c = pl_contexts p ! ctx;
             candidates = pl_pending p AND cx_enabled c AND NOT (pl_claimed p)
         in fst (fold (scan_step p c candidates) [1..<64] (0, 0))))"

definition best_irq :: "u32 \<Rightarrow> plic \<Rightarrow> u32 \<times> plic" where
  "best_irq ctx p =
     (let p = (if pl_dirty p then p\<lparr>pl_best := map (\<lambda>i. scan i p) [0..<length (pl_best p)], pl_dirty := False\<rparr>
               else p)
      in (if unat ctx < length (pl_best p) then pl_best p ! unat ctx else 0, p))"

definition plic_update :: "u32 \<Rightarrow> csr_file \<Rightarrow> plic \<Rightarrow> csr_file \<times> plic" where
  "plic_update hart csrs p =
     (let (b, p) = best_irq (2 * hart) p;
          csrs = drive_interrupt (b \<noteq> 0) MIP_MEIP csrs;
          (b, p) = best_irq (2 * hart + 1) p
      in (drive_interrupt (b \<noteq> 0) MIP_SEIP csrs, p))"

definition plic_claim :: "u32 \<Rightarrow> plic \<Rightarrow> u32 \<times> plic" where
  "plic_claim ctx p =
     (let (irq, p) = best_irq ctx p in
      if irq \<noteq> 0 then
        (irq, p\<lparr>pl_claimed := pl_claimed p OR push_bit (unat irq) 1,
                pl_pending := pl_pending p AND NOT (push_bit (unat irq) 1), pl_dirty := True\<rparr>)
      else (irq, p))"

definition plic_complete :: "u32 \<Rightarrow> plic \<Rightarrow> plic" where
  "plic_complete irq p =
     (if irq = 0 \<or> irq \<ge> MAX_IRQS then p
      else
        (let b = push_bit (unat irq) 1;
             p = p\<lparr>pl_claimed := pl_claimed p AND NOT b\<rparr>;
             p = (if pl_line p AND b \<noteq> 0 then p\<lparr>pl_pending := pl_pending p OR b\<rparr> else p)
         in p\<lparr>pl_dirty := True\<rparr>))"

definition low32 :: "u64 \<Rightarrow> u64" where
  "low32 x = ucast (ucast x :: u32)"

definition plic_load :: "plic dev_load" where
  "plic_load offset n p =
     (if n \<noteq> 4 then (Inl (trap_new LoadAccessFault (PLIC_BASE + offset)), p)
      else if offset < PRIORITY_BASE + ucast MAX_IRQS * 4 then
        (Inr (ucast (pl_priority p (unat (offset div 4)))), p)
      else if PENDING_BASE \<le> offset \<and> offset < PENDING_BASE + 0x80 then
        (let word = (offset - PENDING_BASE) div 4 in
         if word \<ge> 2 then (Inr 0, p) else (Inr (low32 (drop_bit (unat (word * 32)) (pl_pending p))), p))
      else if ENABLE_BASE \<le> offset \<and> offset < CONTEXT_BASE then
        (let ctx = unat ((offset - ENABLE_BASE) div 0x80); word = ((offset - ENABLE_BASE) mod 0x80) div 4 in
         if ctx \<ge> length (pl_contexts p) \<or> word \<ge> 2 then (Inr 0, p)
         else (Inr (low32 (drop_bit (unat (word * 32)) (cx_enabled (pl_contexts p ! ctx)))), p))
      else if offset \<ge> CONTEXT_BASE then
        (let ctx = unat ((offset - CONTEXT_BASE) div CONTEXT_STRIDE);
             within = (offset - CONTEXT_BASE) mod CONTEXT_STRIDE in
         if ctx \<ge> length (pl_contexts p) then (Inr 0, p)
         else if within = THRESHOLD_OFF then (Inr (ucast (cx_threshold (pl_contexts p ! ctx))), p)
         else if within = CLAIM_OFF then
           (let (irq, p) = plic_claim (of_nat ctx) p in (Inr (ucast irq), p))
         else (Inr 0, p))
      else (Inr 0, p))"

definition plic_store :: "plic dev_store" where
  "plic_store offset n value p =
     (if n \<noteq> 4 then (Inl (trap_new StoreAMOAccessFault (PLIC_BASE + offset)), p)
      else
        (let v = (ucast value :: u32) in
         if offset < PRIORITY_BASE + ucast MAX_IRQS * 4 then
           (Inr (), p\<lparr>pl_priority := (pl_priority p)(unat (offset div 4) := v), pl_dirty := True\<rparr>)
         else if ENABLE_BASE \<le> offset \<and> offset < CONTEXT_BASE then
           (let ctx = unat ((offset - ENABLE_BASE) div 0x80); word = ((offset - ENABLE_BASE) mod 0x80) div 4 in
            if ctx < length (pl_contexts p) \<and> word < 2 then
              (let m = push_bit (unat (word * 32)) 0xffffffff; c = pl_contexts p ! ctx;
                   c = c\<lparr>cx_enabled := (cx_enabled c AND NOT m) OR push_bit (unat (word * 32)) (ucast v)\<rparr>
               in (Inr (), p\<lparr>pl_contexts := (pl_contexts p)[ctx := c], pl_dirty := True\<rparr>))
            else (Inr (), p))
         else if offset \<ge> CONTEXT_BASE then
           (let ctx = unat ((offset - CONTEXT_BASE) div CONTEXT_STRIDE);
                within = (offset - CONTEXT_BASE) mod CONTEXT_STRIDE in
            if ctx < length (pl_contexts p) then
              (let p = (if within = THRESHOLD_OFF
                        then p\<lparr>pl_contexts := (pl_contexts p)[ctx := (pl_contexts p ! ctx)\<lparr>cx_threshold := v\<rparr>],
                               pl_dirty := True\<rparr>
                        else p);
                   p = (if within = CLAIM_OFF then plic_complete v p else p)
               in (Inr (), p))
            else (Inr (), p))
         else (Inr (), p)))"

section \<open>Arbitration\<close>

text \<open>
  The abstract controller: a source may interrupt a context when it is pending, enabled there,
  not in service and its priority is positive and above the threshold; the winner is the
  source of highest priority, the lowest number among equals.
\<close>

definition offered :: "nat \<Rightarrow> plic \<Rightarrow> nat \<Rightarrow> bool" where
  "offered ctx p i \<longleftrightarrow>
     ctx < length (pl_contexts p) \<and> 1 \<le> i \<and> i < 64 \<and>
     bit (pl_pending p) i \<and> bit (cx_enabled (pl_contexts p ! ctx)) i \<and> \<not> bit (pl_claimed p) i \<and>
     pl_priority p i \<noteq> 0 \<and> cx_threshold (pl_contexts p ! ctx) < pl_priority p i"

definition wins :: "nat \<Rightarrow> plic \<Rightarrow> nat \<Rightarrow> bool" where
  "wins ctx p i \<longleftrightarrow> offered ctx p i \<and>
     (\<forall>j. offered ctx p j \<longrightarrow> pl_priority p j < pl_priority p i \<or> pl_priority p j = pl_priority p i \<and> i \<le> j)"

lemma and_push_bit_1: "(w AND push_bit i 1 = (0 :: 'a::len word)) \<longleftrightarrow> \<not> (bit w i \<and> i < LENGTH('a))"
proof -
  have "bit (w AND push_bit i 1) k \<longleftrightarrow> bit w i \<and> i < LENGTH('a) \<and> k = i" for k
    by (auto simp: bit_simps)
  then show ?thesis
    using word_neq_0_iff [of "w AND push_bit i 1"] by blast
qed

text \<open>The scan has seen the sources below \<open>m\<close>.\<close>

lemma scan_prefix:
  assumes ctx: "ctx < length (pl_contexts p)" and "1 \<le> m" "m \<le> 64"
  defines "c \<equiv> pl_contexts p ! ctx"
  shows "\<exists>b pr. fold (scan_step p c (pl_pending p AND cx_enabled c AND NOT (pl_claimed p))) [1..<m] (0, 0)
      = (of_nat b, pr) \<and>
      (if \<exists>i<m. offered ctx p i
       then b < m \<and> offered ctx p b \<and> pr = pl_priority p b \<and>
            (\<forall>j<m. offered ctx p j \<longrightarrow> pl_priority p j < pr \<or> pl_priority p j = pr \<and> b \<le> j)
       else b = 0 \<and> pr = 0)"
  using \<open>1 \<le> m\<close> \<open>m \<le> 64\<close>
proof (induction m rule: nat_induct_at_least)
  case base
  then show ?case
    by (auto simp: offered_def)
next
  case (Suc m)
  let ?cand = "pl_pending p AND cx_enabled c AND NOT (pl_claimed p)"
  obtain b pr where f: "fold (scan_step p c ?cand) [1..<m] (0, 0) = (of_nat b, pr)"
    and ih: "if \<exists>i<m. offered ctx p i
       then b < m \<and> offered ctx p b \<and> pr = pl_priority p b \<and>
            (\<forall>j<m. offered ctx p j \<longrightarrow> pl_priority p j < pr \<or> pl_priority p j = pr \<and> b \<le> j)
       else b = 0 \<and> pr = 0"
    using Suc by auto
  have cand: "?cand AND push_bit m 1 = 0 \<or> pl_priority p m = 0 \<or> pl_priority p m \<le> cx_threshold c
      \<longleftrightarrow> \<not> offered ctx p m"
    using Suc.prems Suc.hyps ctx unfolding and_push_bit_1 by (auto simp: offered_def c_def bit_simps)
  have step: "fold (scan_step p c ?cand) [1..<Suc m] (0, 0)
      = (if offered ctx p m \<and> pr < pl_priority p m then (of_nat m, pl_priority p m) else (of_nat b, pr))"
    using f cand Suc.hyps by (auto simp: scan_step_def Let_def)
  show ?case
  proof (cases "offered ctx p m \<and> pr < pl_priority p m")
    case True
    have "\<forall>j<m. offered ctx p j \<longrightarrow> pl_priority p j < pl_priority p m"
      using ih True by (auto split: if_splits)
    then show ?thesis
      unfolding step using True by (intro exI [of _ m] exI [of _ "pl_priority p m"]) (auto simp: less_Suc_eq)
  next
    case False
    show ?thesis
      unfolding step if_not_P [OF False]
      by (rule exI [of _ b], rule exI [of _ pr])
        (use ih False in \<open>auto simp: less_Suc_eq not_less offered_def split: if_splits\<close>)
  qed
qed

lemma offered_less: "offered ctx p i \<Longrightarrow> i < 64"
  by (simp add: offered_def)

lemma scan_wins: "\<exists>i. offered ctx p i \<Longrightarrow> wins ctx p (unat (scan ctx p))"
  and scan_none: "\<not> (\<exists>i. offered ctx p i) \<Longrightarrow> scan ctx p = 0"
proof -
  have *: "(\<exists>i. offered ctx p i) \<longleftrightarrow> (\<exists>i<64. offered ctx p i)"
    using offered_less by blast
  show "\<exists>i. offered ctx p i \<Longrightarrow> wins ctx p (unat (scan ctx p))"
  proof -
    assume ex: "\<exists>i. offered ctx p i"
    then have ctx: "ctx < length (pl_contexts p)"
      by (auto simp: offered_def)
    obtain b pr where b: "scan ctx p = of_nat b" "b < 64" "offered ctx p b" "pr = pl_priority p b"
      "\<forall>j<64. offered ctx p j \<longrightarrow> pl_priority p j < pr \<or> pl_priority p j = pr \<and> b \<le> j"
      using scan_prefix [OF ctx, of 64] ex ctx unfolding * by (auto simp: scan_def Let_def)
    have "unat (scan ctx p) = b"
      unfolding b(1) by (rule unat_of_nat_small) (use b(2) in simp)
    then show ?thesis
      using b(3-5) offered_less by (auto simp: wins_def)
  qed
  show "\<not> (\<exists>i. offered ctx p i) \<Longrightarrow> scan ctx p = 0"
    using scan_prefix [of ctx p 64] unfolding * by (auto simp: scan_def Let_def)
qed

lemma scan_zero_iff: "scan ctx p = 0 \<longleftrightarrow> \<not> (\<exists>i. offered ctx p i)"
proof (cases "\<exists>i. offered ctx p i")
  case True
  then have "offered ctx p (unat (scan ctx p))"
    using scan_wins [of ctx p] by (simp add: wins_def)
  then have "unat (scan ctx p) \<noteq> 0"
    by (simp add: offered_def)
  then show ?thesis
    using True by auto
qed (simp add: scan_none)

lemma wins_unique: "wins ctx p i \<Longrightarrow> wins ctx p j \<Longrightarrow> i = j"
  by (auto simp: wins_def) (metis order.asym order_antisym)+

section \<open>Invariant\<close>

text \<open>
  The cache agrees with arbitration unless it is marked stale; a pending source has its line
  asserted; source 0 does not exist.
\<close>

definition plic_inv :: "plic \<Rightarrow> bool" where
  "plic_inv p \<longleftrightarrow>
     length (pl_best p) = length (pl_contexts p) \<and>
     (\<not> pl_dirty p \<longrightarrow> pl_best p = map (\<lambda>i. scan i p) [0..<length (pl_contexts p)]) \<and>
     pl_pending p AND NOT (pl_line p) = 0 \<and> \<not> bit (pl_line p) 0 \<and> \<not> bit (pl_claimed p) 0"

lemma scan_cong:
  assumes "pl_priority p = pl_priority q" "pl_pending p = pl_pending q" "pl_claimed p = pl_claimed q"
    "pl_contexts p = pl_contexts q"
  shows "scan ctx p = scan ctx q"
proof -
  have "scan_step p = scan_step q"
    by (intro ext) (simp only: scan_step_def assms(1))
  then show ?thesis
    by (simp add: scan_def assms(2-4))
qed

lemma scan_cache [simp]: "scan ctx (p\<lparr>pl_best := b, pl_dirty := d\<rparr>) = scan ctx p"
  by (rule scan_cong) simp_all

lemma best_irq_scan:
  assumes "plic_inv p"
  shows "fst (best_irq ctx p) = scan (unat ctx) p" "plic_inv (snd (best_irq ctx p))"
    and "scan c (snd (best_irq ctx p)) = scan c p"
proof -
  have out: "scan (unat ctx) p = 0" if "\<not> unat ctx < length (pl_contexts p)"
    using that by (simp add: scan_def)
  then show "fst (best_irq ctx p) = scan (unat ctx) p"
    using assms by (auto simp: best_irq_def Let_def plic_inv_def)
  show "plic_inv (snd (best_irq ctx p))"
    using assms by (auto simp: best_irq_def Let_def plic_inv_def)
  show "scan c (snd (best_irq ctx p)) = scan c p"
    by (simp add: best_irq_def Let_def)
qed

lemma best_irq_frame [simp]:
  "pl_priority (snd (best_irq ctx p)) = pl_priority p" "pl_line (snd (best_irq ctx p)) = pl_line p"
  "pl_pending (snd (best_irq ctx p)) = pl_pending p" "pl_claimed (snd (best_irq ctx p)) = pl_claimed p"
  "pl_contexts (snd (best_irq ctx p)) = pl_contexts p"
  by (simp_all add: best_irq_def Let_def)

lemma plic_inv_dirty:
  assumes "length (pl_best p) = length (pl_contexts p)" "pl_dirty p"
    "pl_pending p AND NOT (pl_line p) = 0" "\<not> bit (pl_line p) 0" "\<not> bit (pl_claimed p) 0"
  shows "plic_inv p"
  using assms by (simp add: plic_inv_def)

lemma pending_subset:
  "pl_pending p AND NOT (pl_line p) = 0 \<longleftrightarrow> (\<forall>k. bit (pl_pending p) k \<longrightarrow> bit (pl_line p) k)"
proof -
  have "pl_pending p AND NOT (pl_line p) = 0 \<longleftrightarrow> (\<forall>k. \<not> bit (pl_pending p AND NOT (pl_line p)) k)"
    using word_neq_0_iff by blast
  then show ?thesis
    using bit_imp_le_length [of "pl_pending p"] by (auto simp: bit_simps)
qed

lemma plic_inv_new: "plic_inv (plic_new h)"
  by (simp add: plic_inv_def plic_new_def Let_def)

lemma irq_index: "irq \<noteq> 0 \<Longrightarrow> \<not> (64 :: u32) \<le> irq \<Longrightarrow> 0 < unat irq \<and> unat irq < 64"
  by (auto simp: word_le_nat_alt unat_gt_0)

lemma plic_inv_set_pending:
  assumes "plic_inv p"
  shows "plic_inv (set_pending irq on p)"
proof (cases "irq = 0 \<or> irq \<ge> MAX_IRQS")
  case False
  then have i: "0 < unat irq" "unat irq < 64"
    using irq_index by auto
  let ?b = "push_bit (unat irq) 1 :: u64"
  let ?q = "if on then p\<lparr>pl_line := pl_line p OR ?b, pl_pending := pl_pending p OR ?b\<rparr>
            else p\<lparr>pl_line := pl_line p AND NOT ?b, pl_pending := pl_pending p AND NOT ?b\<rparr>"
  have set: "set_pending irq on p
      = (if pl_line ?q \<noteq> pl_line p \<or> pl_pending ?q \<noteq> pl_pending p then ?q\<lparr>pl_dirty := True\<rparr> else ?q)"
    using False by (simp add: set_pending_def Let_def)
  have sub: "pl_pending ?q AND NOT (pl_line ?q) = 0" "\<not> bit (pl_line ?q) 0"
    using assms i unfolding plic_inv_def pending_subset by (auto simp: bit_simps simp del: push_bit_of_1)
  show ?thesis
  proof (cases "pl_line ?q \<noteq> pl_line p \<or> pl_pending ?q \<noteq> pl_pending p")
    case True
    then show ?thesis
      unfolding set using assms sub by (auto simp: plic_inv_def)
  next
    case False
    then have "?q = p"
      by (cases on) auto
    then show ?thesis
      unfolding set if_not_P [OF False] using assms by (simp only:)
  qed
qed (use assms in \<open>auto simp: set_pending_def\<close>)

lemma plic_inv_claim:
  assumes "plic_inv p"
  shows "plic_inv (snd (plic_claim ctx p))"
proof -
  obtain irq q where b: "best_irq ctx p = (irq, q)"
    by force
  have q: "plic_inv q"
    using best_irq_scan(2) [OF assms, of ctx] b by simp
  show ?thesis
  proof (cases "irq = 0")
    case False
    then have "0 < unat irq"
      by (simp add: unat_gt_0)
    then show ?thesis
      using q False unfolding plic_claim_def b Let_def plic_inv_def pending_subset
      by (auto simp: bit_simps simp del: push_bit_of_1)
  qed (use q in \<open>simp add: plic_claim_def b\<close>)
qed

lemma plic_inv_complete:
  assumes "plic_inv p"
  shows "plic_inv (plic_complete irq p)"
proof (cases "irq = 0 \<or> irq \<ge> MAX_IRQS")
  case False
  then have "0 < unat irq" "unat irq < 64"
    using irq_index by auto
  then show ?thesis
    using assms False unfolding plic_complete_def Let_def plic_inv_def pending_subset and_push_bit_1
    by (auto simp: bit_simps simp del: push_bit_of_1)
qed (use assms in \<open>auto simp: plic_complete_def\<close>)

lemma plic_inv_reconfigure:
  assumes "plic_inv p" "length cs = length (pl_contexts p)"
  shows "plic_inv (p\<lparr>pl_contexts := cs, pl_dirty := True\<rparr>)" "plic_inv (p\<lparr>pl_priority := f, pl_dirty := True\<rparr>)"
  using assms by (simp_all add: plic_inv_def)

lemma plic_inv_load: "plic_inv p \<Longrightarrow> plic_inv (snd (plic_load off n p))"
  using plic_inv_claim [of p] by (simp add: plic_load_def Let_def split_beta)

lemma plic_inv_store: "plic_inv p \<Longrightarrow> plic_inv (snd (plic_store off n v p))"
  by (simp add: plic_store_def Let_def plic_inv_reconfigure plic_inv_complete)

interpretation pc: mmio_device PLIC_BASE plic_load plic_store plic_inv
proof
  fix p off n v t
  show "fst (plic_load off n p) = Inl t \<Longrightarrow>
      t = trap_new LoadAccessFault (PLIC_BASE + off) \<and> snd (plic_load off n p) = p"
    by (auto simp: plic_load_def Let_def split_beta split: if_splits)
  show "fst (plic_store off n v p) = Inl t \<Longrightarrow>
      t = trap_new StoreAMOAccessFault (PLIC_BASE + off) \<and> snd (plic_store off n v p) = p"
    by (auto simp: plic_store_def Let_def split: if_splits)
qed (simp_all add: plic_inv_load plic_inv_store)

section \<open>Claim and complete\<close>

lemma plic_claim_eq:
  assumes "plic_inv p"
  shows "fst (plic_claim ctx p) = scan (unat ctx) p"
    and "scan (unat ctx) p \<noteq> 0 \<Longrightarrow>
      bit (pl_claimed (snd (plic_claim ctx p))) k \<longleftrightarrow> bit (pl_claimed p) k \<or> k = unat (scan (unat ctx) p)"
    and "scan (unat ctx) p \<noteq> 0 \<Longrightarrow>
      bit (pl_pending (snd (plic_claim ctx p))) k \<longleftrightarrow> bit (pl_pending p) k \<and> k \<noteq> unat (scan (unat ctx) p)"
    and "pl_line (snd (plic_claim ctx p)) = pl_line p"
proof -
  obtain irq q where b: "best_irq ctx p = (irq, q)"
    by force
  have irq: "irq = scan (unat ctx) p"
    using best_irq_scan(1) [OF assms, of ctx] b by simp
  have q: "pl_claimed q = pl_claimed p" "pl_pending q = pl_pending p" "pl_line q = pl_line p"
    using best_irq_frame [of ctx p] by (simp_all add: b)
  have lt: "unat irq < 64" if "irq \<noteq> 0"
    using that scan_wins [of "unat ctx" p] scan_zero_iff [of "unat ctx" p] offered_less
    by (auto simp: irq wins_def)
  show "fst (plic_claim ctx p) = scan (unat ctx) p"
    by (simp add: plic_claim_def b irq)
  show "pl_line (snd (plic_claim ctx p)) = pl_line p"
    by (simp add: plic_claim_def b q)
  assume "scan (unat ctx) p \<noteq> 0"
  then show "bit (pl_claimed (snd (plic_claim ctx p))) k \<longleftrightarrow> bit (pl_claimed p) k \<or> k = unat (scan (unat ctx) p)"
    "bit (pl_pending (snd (plic_claim ctx p))) k \<longleftrightarrow> bit (pl_pending p) k \<and> k \<noteq> unat (scan (unat ctx) p)"
    using lt bit_imp_le_length [of "pl_pending p" k]
    by (auto simp: plic_claim_def b q irq [symmetric] bit_simps simp del: push_bit_of_1)
qed

lemma set_pending_claimed [simp]: "pl_claimed (set_pending i on p) = pl_claimed p"
  by (simp add: set_pending_def Let_def)

text \<open>While a source is in service no context is told about it, whatever its line does.\<close>

lemma claimed_not_offered:
  assumes "plic_inv p" "scan (unat ctx) p \<noteq> 0"
  shows "\<not> offered ctx' (set_pending i on (snd (plic_claim ctx p))) (unat (fst (plic_claim ctx p)))"
  using plic_claim_eq(1,2) [OF assms(1)] assms(2) by (simp add: offered_def)

lemma complete_reoffers:
  assumes "irq \<noteq> 0" "irq < 64"
  shows "\<not> bit (pl_claimed (plic_complete irq p)) (unat irq)"
    and "bit (pl_line p) (unat irq) \<Longrightarrow> bit (pl_pending (plic_complete irq p)) (unat irq)"
  using assms irq_index [of irq]
  by (auto simp: plic_complete_def Let_def and_push_bit_1 bit_simps simp del: push_bit_of_1)

lemma plic_update_mip:
  assumes "plic_inv p" "j < 64"
  shows "bit (csr_raw (fst (plic_update h csrs p)) MIP) j \<longleftrightarrow>
    (if j = 11 then \<exists>i. offered (unat (2 * h)) p i
     else if j = 9 then \<exists>i. offered (unat (2 * h + 1)) p i
     else bit (csr_raw csrs MIP) j)"
proof -
  obtain b q where 1: "best_irq (2 * h) p = (b, q)"
    by force
  have q: "plic_inv q" "\<And>c. scan c q = scan c p" and b: "b = scan (unat (2 * h)) p"
    using best_irq_scan [OF assms(1), where ctx = "2 * h"] 1 by simp_all
  obtain b' q' where 2: "best_irq (2 * h + 1) q = (b', q')"
    by force
  have b': "b' = scan (unat (2 * h + 1)) p"
    using best_irq_scan(1) [OF q(1), of "2 * h + 1"] 2 q(2) by simp
  show ?thesis
    using assms(2) by (simp add: plic_update_def 1 2 drive_interrupt_mip mask_bits b b' scan_zero_iff)
qed

lemma plic_update_frame: "a \<noteq> MIP \<Longrightarrow> csr_raw (fst (plic_update h csrs p)) a = csr_raw csrs a"
  by (simp add: plic_update_def split_beta)

lemma plic_update_inv:
  assumes "plic_inv p"
  shows "plic_inv (snd (plic_update h csrs p))" "csr_inv csrs \<Longrightarrow> csr_inv (fst (plic_update h csrs p))"
  using best_irq_scan(2) [OF best_irq_scan(2) [OF assms]]
  by (simp_all add: plic_update_def split_beta drive_interrupt_inv interrupt_bits_legal)

section \<open>Properties\<close>

lemma scan_less: "unat (scan ctx p) < 64"
  using scan_wins [of ctx p] scan_none [of ctx p] offered_less by (fastforce simp: wins_def)

text \<open>C33: a claim returns the enabled, pending, unclaimed source of highest priority above the
  context's threshold (lowest number first among equals), and 0 exactly when there is none,
  although the arbitration result is cached between configuration changes.\<close>

theorem claim_arbitrates:
  assumes "plic_inv p"
  shows "if \<exists>i. offered (unat ctx) p i then wins (unat ctx) p (unat (fst (plic_claim ctx p)))
    else fst (plic_claim ctx p) = 0"
  using plic_claim_eq(1) [OF assms] scan_wins scan_none by simp

definition sample_plic :: plic where
  "sample_plic = set_pending 3 True (snd (plic_store 0x2000 4 8 (snd (plic_store 12 4 1 (plic_new 1)))))"

lemma sample_plic_inv: "plic_inv sample_plic"
  unfolding sample_plic_def by (intro plic_inv_set_pending plic_inv_store plic_inv_new)

lemma sample_plic_offers: "scan 0 sample_plic \<noteq> 0"
  by code_simp

lemma claim_arbitrates_witness: "wins 0 sample_plic (unat (fst (plic_claim 0 sample_plic)))"
  using claim_arbitrates [OF sample_plic_inv, of 0] sample_plic_offers scan_zero_iff [of 0 sample_plic]
  by (simp split: if_splits)



text \<open>C35: the external interrupt lines of a hart are high exactly when arbitration offers a source to
  its machine or supervisor context; every other bit of \<open>mip\<close> and every other register is left
  alone.\<close>

theorem plic_lines:
  assumes "plic_inv p" "j < 64" "a \<noteq> MIP"
  shows "(bit (csr_raw (fst (plic_update h csrs p)) MIP) j \<longleftrightarrow>
    (if j = 11 then \<exists>i. offered (unat (2 * h)) p i
     else if j = 9 then \<exists>i. offered (unat (2 * h + 1)) p i
     else bit (csr_raw csrs MIP) j)) \<and>
    csr_raw (fst (plic_update h csrs p)) a = csr_raw csrs a"
  using plic_update_mip [OF assms(1,2)] plic_update_frame [OF assms(3)] by simp

lemma plic_lines_witness:
  "bit (csr_raw (fst (plic_update 0 csr_new sample_plic)) MIP) 11 \<longleftrightarrow> (\<exists>i. offered 0 sample_plic i)"
  using plic_lines [OF sample_plic_inv, of 11 MSTATUS 0 csr_new] by simp

end
