(* ===== verification/Uart.thy ===== *)
theory Uart
  imports Device
begin

text \<open>
  The NS16550A serial port, \<open>src/src/uart.rs\<close>. The writer \<open>out\<close> is the list of bytes written so
  far (a write error is ignored by the source). The channel from the thread that reads the
  host's standard input is the list of chunks it has sent and not had received, with a flag
  for whether the thread still runs; the terminal's raw mode is not modelled.
\<close>

section \<open>State and operations\<close>

abbreviation (input) LSR_DATA_READY :: u8 where "LSR_DATA_READY \<equiv> 1"
abbreviation (input) LSR_THR_EMPTY :: u8 where "LSR_THR_EMPTY \<equiv> 0x20"
abbreviation (input) LSR_TRANSMIT_IDLE :: u8 where "LSR_TRANSMIT_IDLE \<equiv> 0x40"
abbreviation (input) IER_RX_READY :: u8 where "IER_RX_READY \<equiv> 1"
abbreviation (input) IER_TX_EMPTY :: u8 where "IER_TX_EMPTY \<equiv> 2"
abbreviation (input) CTRL_A :: u8 where "CTRL_A \<equiv> 0x01"
abbreviation (input) EMPTY_POLLS_BEFORE_YIELD :: u32 where "EMPTY_POLLS_BEFORE_YIELD \<equiv> 64"

record uart =
  ua_out :: "u8 list"
  ua_rx :: "u8 list"
  ua_ier :: u8
  ua_lcr :: u8
  ua_mcr :: u8
  ua_scr :: u8
  ua_dll :: u8
  ua_dlm :: u8
  ua_tx_irq :: bool
  ua_empty_polls :: u32
  ua_host_rx :: "u8 list list option"
  ua_host_alive :: bool
  ua_host_eof :: bool
  ua_escape_armed :: bool
  ua_exit_requested :: bool

definition uart_new :: uart where
  "uart_new = \<lparr>ua_out = [], ua_rx = [], ua_ier = 0, ua_lcr = 0, ua_mcr = 0, ua_scr = 0, ua_dll = 0,
     ua_dlm = 0, ua_tx_irq = False, ua_empty_polls = 0, ua_host_rx = None, ua_host_alive = False,
     ua_host_eof = False, ua_escape_armed = False, ua_exit_requested = False\<rparr>"

definition feed_input :: "u8 list \<Rightarrow> uart \<Rightarrow> uart" where
  "feed_input s u = u\<lparr>ua_rx := ua_rx u @ s\<rparr>"

definition attach_host_stdin :: "uart \<Rightarrow> uart" where
  "attach_host_stdin u =
     (if ua_host_rx u \<noteq> None then u else u\<lparr>ua_host_rx := Some [], ua_host_alive := True\<rparr>)"

definition host_input_active :: "uart \<Rightarrow> bool" where
  "host_input_active u \<longleftrightarrow> ua_host_rx u \<noteq> None \<and> \<not> ua_host_eof u"

text \<open>One received chunk; the flag says that the exit sequence ended the poll inside it.\<close>

fun feed_chunk :: "u8 list \<Rightarrow> uart \<Rightarrow> bool \<times> uart" where
  "feed_chunk [] u = (False, u)"
| "feed_chunk (c # cs) u =
     (if ua_escape_armed u then
        (let u = u\<lparr>ua_escape_armed := False\<rparr> in
         if c = 0x78 \<or> c = 0x58 then (True, u\<lparr>ua_exit_requested := True\<rparr>)
         else if c = CTRL_A then feed_chunk cs (u\<lparr>ua_rx := ua_rx u @ [CTRL_A]\<rparr>)
         else feed_chunk cs (u\<lparr>ua_rx := ua_rx u @ [CTRL_A, c]\<rparr>))
      else if c = CTRL_A then feed_chunk cs (u\<lparr>ua_escape_armed := True\<rparr>)
      else feed_chunk cs (u\<lparr>ua_rx := ua_rx u @ [c]\<rparr>))"

fun poll_chunks :: "u8 list list \<Rightarrow> uart \<Rightarrow> uart" where
  "poll_chunks [] u =
     (if ua_host_alive u then u\<lparr>ua_host_rx := Some []\<rparr> else u\<lparr>ua_host_rx := Some [], ua_host_eof := True\<rparr>)"
| "poll_chunks (chunk # chunks) u =
     (let (stop, u) = feed_chunk chunk u
      in if stop then u\<lparr>ua_host_rx := Some chunks\<rparr> else poll_chunks chunks u)"

definition poll_host_input :: "uart \<Rightarrow> uart" where
  "poll_host_input u =
     (if ua_host_eof u then u
      else (case ua_host_rx u of None \<Rightarrow> u | Some chunks \<Rightarrow> poll_chunks chunks u))"

definition take_yield_request :: "uart \<Rightarrow> bool \<times> uart" where
  "take_yield_request u =
     (if ua_empty_polls u \<ge> EMPTY_POLLS_BEFORE_YIELD then (True, u\<lparr>ua_empty_polls := 0\<rparr>) else (False, u))"

definition take_input_byte :: "uart \<Rightarrow> i32 \<times> uart" where
  "take_input_byte u = (case ua_rx u of [] \<Rightarrow> (-1, u) | c # cs \<Rightarrow> (ucast c, u\<lparr>ua_rx := cs\<rparr>))"

definition uart_interrupting :: "uart \<Rightarrow> bool" where
  "uart_interrupting u \<longleftrightarrow>
     ua_ier u AND IER_RX_READY \<noteq> 0 \<and> ua_rx u \<noteq> [] \<or> ua_ier u AND IER_TX_EMPTY \<noteq> 0 \<and> ua_tx_irq u"

definition dlab :: "uart \<Rightarrow> bool" where
  "dlab u \<longleftrightarrow> ua_lcr u AND 0x80 \<noteq> 0"

definition put_byte :: "u8 \<Rightarrow> uart \<Rightarrow> uart" where
  "put_byte b u = u\<lparr>ua_out := ua_out u @ [b]\<rparr>"

definition saturating_inc :: "u32 \<Rightarrow> u32" where
  "saturating_inc x = (if x = NOT 0 then x else x + 1)"

definition uart_load :: "uart dev_load" where
  "uart_load offset n u =
     (if n \<noteq> 1 then (Inl (trap_new LoadAccessFault (UART0_BASE + offset)), u)
      else
        (let r = offset AND 0x7 in
         if r = 0 then
           (if dlab u then (Inr (ucast (ua_dll u)), u)
            else
              (let u = u\<lparr>ua_empty_polls := 0\<rparr>
               in case ua_rx u of [] \<Rightarrow> (Inr 0, u) | c # cs \<Rightarrow> (Inr (ucast c), u\<lparr>ua_rx := cs\<rparr>)))
         else if r = 1 then (Inr (ucast (if dlab u then ua_dlm u else ua_ier u)), u)
         else if r = 2 then
           (if ua_ier u AND IER_RX_READY \<noteq> 0 \<and> ua_rx u \<noteq> [] then (Inr (0xc0 OR 0x04), u)
            else if ua_ier u AND IER_TX_EMPTY \<noteq> 0 \<and> ua_tx_irq u
            then (Inr (0xc0 OR 0x02), u\<lparr>ua_tx_irq := False\<rparr>)
            else (Inr (0xc0 OR 0x01), u))
         else if r = 3 then (Inr (ucast (ua_lcr u)), u)
         else if r = 4 then (Inr (ucast (ua_mcr u)), u)
         else if r = 5 then
           (let lsr = LSR_THR_EMPTY OR LSR_TRANSMIT_IDLE in
            if ua_rx u \<noteq> [] then (Inr (ucast (lsr OR LSR_DATA_READY)), u\<lparr>ua_empty_polls := 0\<rparr>)
            else (Inr (ucast lsr), u\<lparr>ua_empty_polls := saturating_inc (ua_empty_polls u)\<rparr>))
         else if r = 6 then (Inr 0, u)
         else (Inr (ucast (ua_scr u)), u)))"

definition uart_store :: "uart dev_store" where
  "uart_store offset n value u =
     (if n \<noteq> 1 then (Inl (trap_new StoreAMOAccessFault (UART0_BASE + offset)), u)
      else
        (let v = (ucast value :: u8); r = offset AND 0x7 in
         (Inr (),
          if r = 0 then (if dlab u then u\<lparr>ua_dll := v\<rparr> else (put_byte v u)\<lparr>ua_tx_irq := True\<rparr>)
          else if r = 1 then (if dlab u then u\<lparr>ua_dlm := v\<rparr> else u\<lparr>ua_ier := v\<rparr>)
          else if r = 3 then u\<lparr>ua_lcr := v\<rparr>
          else if r = 4 then u\<lparr>ua_mcr := v\<rparr>
          else if r = 7 then u\<lparr>ua_scr := v\<rparr>
          else u)))"

section \<open>Lemmas\<close>

text \<open>A host that has not been attached has sent nothing and cannot have ended.\<close>

definition uart_inv :: "uart \<Rightarrow> bool" where
  "uart_inv u \<longleftrightarrow> (ua_host_rx u = None \<longrightarrow> \<not> ua_host_alive u \<and> \<not> ua_host_eof u \<and> \<not> ua_exit_requested u)"

lemma feed_chunk_host [simp]:
  "ua_host_rx (snd (feed_chunk cs u)) = ua_host_rx u" "ua_host_alive (snd (feed_chunk cs u)) = ua_host_alive u"
  "ua_host_eof (snd (feed_chunk cs u)) = ua_host_eof u"
  by (induction cs u rule: feed_chunk.induct) (simp_all add: Let_def)

lemma poll_chunks_host: "ua_host_rx (poll_chunks cs u) \<noteq> None"
  by (induction cs arbitrary: u) (simp_all add: Let_def split_beta)

lemma uart_inv_ops:
  assumes "uart_inv u"
  shows "uart_inv uart_new" "uart_inv (feed_input s u)" "uart_inv (attach_host_stdin u)"
    "uart_inv (poll_host_input u)" "uart_inv (snd (take_yield_request u))" "uart_inv (snd (take_input_byte u))"
    "uart_inv (put_byte b u)"
proof -
  show "uart_inv (poll_host_input u)"
  proof (cases "ua_host_rx u")
    case (Some cs)
    then have "ua_host_rx (poll_host_input u) \<noteq> None"
      using poll_chunks_host [of cs u] by (simp add: poll_host_input_def)
    then show ?thesis
      by (auto simp: uart_inv_def)
  qed (use assms in \<open>simp add: poll_host_input_def\<close>)
qed (use assms in \<open>simp_all add: uart_inv_def uart_new_def feed_input_def attach_host_stdin_def
      take_yield_request_def take_input_byte_def put_byte_def split: list.split\<close>)

lemma uart_load_ok: "\<exists>x. fst (uart_load off 1 u) = Inr x"
  by (simp add: uart_load_def Let_def split: list.split)

interpretation ur: mmio_device UART0_BASE uart_load uart_store uart_inv
proof
  fix u off n v t
  show "uart_inv u \<Longrightarrow> uart_inv (snd (uart_load off n u))"
    by (auto simp: uart_load_def Let_def uart_inv_def split: list.split)
  show "uart_inv u \<Longrightarrow> uart_inv (snd (uart_store off n v u))"
    by (auto simp: uart_store_def Let_def uart_inv_def put_byte_def)
  show "fst (uart_load off n u) = Inl t \<Longrightarrow>
      t = trap_new LoadAccessFault (UART0_BASE + off) \<and> snd (uart_load off n u) = u"
    using uart_load_ok [of off u] by (cases "n = 1") (auto simp: uart_load_def)
  show "fst (uart_store off n v u) = Inl t \<Longrightarrow>
      t = trap_new StoreAMOAccessFault (UART0_BASE + off) \<and> snd (uart_store off n v u) = u"
    by (auto simp: uart_store_def Let_def split: if_splits)
qed

text \<open>
  What the guest receives from a stream of host bytes: the prefix rules as a function of the
  bytes alone, independent of how the host splits them into chunks.
\<close>

fun unescape :: "bool \<Rightarrow> u8 list \<Rightarrow> u8 list" where
  "unescape armed [] = []"
| "unescape True (c # cs) =
     (if c = 0x78 \<or> c = 0x58 then [] else if c = CTRL_A then CTRL_A # unescape False cs
      else CTRL_A # c # unescape False cs)"
| "unescape False (c # cs) = (if c = CTRL_A then unescape True cs else c # unescape False cs)"

fun exits :: "bool \<Rightarrow> u8 list \<Rightarrow> bool" where
  "exits armed [] = False"
| "exits True (c # cs) = (c = 0x78 \<or> c = 0x58 \<or> exits False cs)"
| "exits False (c # cs) = (if c = CTRL_A then exits True cs else exits False cs)"

fun armed_after :: "bool \<Rightarrow> u8 list \<Rightarrow> bool" where
  "armed_after armed [] = armed"
| "armed_after True (c # cs) = (if c = 0x78 \<or> c = 0x58 then False else armed_after False cs)"
| "armed_after False (c # cs) = (if c = CTRL_A then armed_after True cs else armed_after False cs)"

lemma feed_chunk_rx:
  "ua_rx (snd (feed_chunk cs u)) = ua_rx u @ unescape (ua_escape_armed u) cs"
  "fst (feed_chunk cs u) = exits (ua_escape_armed u) cs"
  "ua_exit_requested (snd (feed_chunk cs u)) = (ua_exit_requested u \<or> exits (ua_escape_armed u) cs)"
  "ua_escape_armed (snd (feed_chunk cs u)) = armed_after (ua_escape_armed u) cs"
  by (induction cs u rule: feed_chunk.induct; simp add: Let_def)+

lemma unescape_append:
  "\<not> exits a xs \<Longrightarrow> unescape a (xs @ ys) = unescape a xs @ unescape (armed_after a xs) ys"
  by (induction a xs rule: unescape.induct) auto

lemma unescape_append_exit: "exits a xs \<Longrightarrow> unescape a (xs @ ys) = unescape a xs"
  by (induction a xs rule: unescape.induct) auto

lemma poll_chunks_rx: "ua_rx (poll_chunks chunks u) = ua_rx u @ unescape (ua_escape_armed u) (concat chunks)"
proof (induction chunks arbitrary: u)
  case (Cons c cs)
  then show ?case
    using feed_chunk_rx [of c u]
    by (auto simp: split_beta Let_def unescape_append unescape_append_exit)
qed simp

section \<open>Properties\<close>



end
