(* ===== verification/Rtc.thy ===== *)
theory Rtc
  imports Plic
begin

text \<open>
  The Goldfish real-time clock, \<open>src/src/rtc.rs\<close>. The host's wall clock, nanoseconds since the
  epoch, is the argument \<open>host\<close>; the interrupt controller the clock holds a reference to is
  the second half of the operations' state and the field says whether it was attached.
\<close>

section \<open>State and operations\<close>

abbreviation (input) TIME_LOW :: u64 where "TIME_LOW \<equiv> 0x00"
abbreviation (input) TIME_HIGH :: u64 where "TIME_HIGH \<equiv> 0x04"
abbreviation (input) ALARM_LOW :: u64 where "ALARM_LOW \<equiv> 0x08"
abbreviation (input) ALARM_HIGH :: u64 where "ALARM_HIGH \<equiv> 0x0c"
abbreviation (input) IRQ_ENABLED :: u64 where "IRQ_ENABLED \<equiv> 0x10"
abbreviation (input) CLEAR_ALARM :: u64 where "CLEAR_ALARM \<equiv> 0x14"
abbreviation (input) ALARM_STATUS :: u64 where "ALARM_STATUS \<equiv> 0x18"
abbreviation (input) CLEAR_INTERRUPT :: u64 where "CLEAR_INTERRUPT \<equiv> 0x1c"

record rtc =
  rt_plic :: bool
  rt_irq :: u32
  rt_fixed :: bool
  rt_fixed_ns :: u64
  rt_latched_high :: u64
  rt_alarm_ns :: u64
  rt_alarm_armed :: bool
  rt_irq_enabled :: bool
  rt_irq_raised :: bool

definition rtc_new :: rtc where
  "rtc_new = \<lparr>rt_plic = False, rt_irq = 0, rt_fixed = False, rt_fixed_ns = 0, rt_latched_high = 0,
     rt_alarm_ns = 0, rt_alarm_armed = False, rt_irq_enabled = False, rt_irq_raised = False\<rparr>"

definition rtc_attach :: "u32 \<Rightarrow> rtc \<Rightarrow> rtc" where
  "rtc_attach irq r = r\<lparr>rt_plic := True, rt_irq := irq\<rparr>"

definition set_fixed_time :: "u64 \<Rightarrow> rtc \<Rightarrow> rtc" where
  "set_fixed_time ns r = r\<lparr>rt_fixed := True, rt_fixed_ns := ns\<rparr>"

definition rtc_advance :: "u64 \<Rightarrow> rtc \<Rightarrow> rtc" where
  "rtc_advance ns r = r\<lparr>rt_fixed_ns := rt_fixed_ns r + ns\<rparr>"

definition now_ns :: "u64 \<Rightarrow> rtc \<Rightarrow> u64" where
  "now_ns host r = (if rt_fixed r then rt_fixed_ns r else host)"

definition rtc_set_line :: "rtc \<Rightarrow> bool \<Rightarrow> plic \<Rightarrow> plic" where
  "rtc_set_line r on p = (if rt_plic r then set_pending (rt_irq r) on p else p)"

definition rtc_load :: "u64 \<Rightarrow> (rtc \<times> plic) dev_load" where
  "rtc_load host offset n s =
     (let (r, p) = s in
      if n \<noteq> 4 then (Inl (trap_new LoadAccessFault (RTC_BASE + offset)), s)
      else if offset = TIME_LOW then
        (let t = now_ns host r
         in (Inr (t AND 0xffffffff), (r\<lparr>rt_latched_high := drop_bit 32 t\<rparr>, p)))
      else if offset = TIME_HIGH then (Inr (rt_latched_high r), s)
      else if offset = ALARM_LOW then (Inr (rt_alarm_ns r AND 0xffffffff), s)
      else if offset = ALARM_HIGH then (Inr (drop_bit 32 (rt_alarm_ns r)), s)
      else if offset = IRQ_ENABLED then (Inr (of_bool (rt_irq_enabled r)), s)
      else if offset = ALARM_STATUS then (Inr (of_bool (rt_alarm_armed r)), s)
      else (Inr 0, s))"

definition rtc_store :: "(rtc \<times> plic) dev_store" where
  "rtc_store offset n value s =
     (let (r, p) = s in
      if n \<noteq> 4 then (Inl (trap_new StoreAMOAccessFault (RTC_BASE + offset)), s)
      else
        (let v = (ucast (ucast value :: u32) :: u64) in
         (Inr (),
          if offset = ALARM_HIGH then
            (r\<lparr>rt_alarm_ns := (rt_alarm_ns r AND 0xffffffff) OR push_bit 32 v\<rparr>, p)
          else if offset = ALARM_LOW then
            (r\<lparr>rt_alarm_ns := (rt_alarm_ns r AND NOT 0xffffffff) OR v, rt_alarm_armed := True\<rparr>, p)
          else if offset = IRQ_ENABLED then (r\<lparr>rt_irq_enabled := (v AND 1 \<noteq> 0)\<rparr>, p)
          else if offset = CLEAR_ALARM then (r\<lparr>rt_alarm_armed := False\<rparr>, p)
          else if offset = CLEAR_INTERRUPT then (r\<lparr>rt_irq_raised := False\<rparr>, rtc_set_line r False p)
          else s)))"

definition rtc_poll :: "u64 \<Rightarrow> rtc \<times> plic \<Rightarrow> rtc \<times> plic" where
  "rtc_poll host s =
     (let (r, p) = s in
      if rt_alarm_armed r \<and> rt_irq_enabled r \<and> \<not> rt_irq_raised r \<and> now_ns host r \<ge> rt_alarm_ns r
      then (r\<lparr>rt_alarm_armed := False, rt_irq_raised := True\<rparr>, rtc_set_line r True p)
      else s)"

section \<open>Lemmas\<close>

text \<open>The latched half of the time is a 32-bit value, and the controller keeps its invariant.\<close>

definition rtc_inv :: "rtc \<times> plic \<Rightarrow> bool" where
  "rtc_inv s \<longleftrightarrow> rt_latched_high (fst s) < 2 ^ 32 \<and> plic_inv (snd s)"

lemma high_half_less: "drop_bit 32 (t :: u64) < 2 ^ 32"
  unfolding word_less_nat_alt unat_drop_bit_div
  using unsigned_less [of t, where ?'a = nat] by (simp add: less_mult_imp_div_less)

lemma rtc_inv_poll: "rtc_inv s \<Longrightarrow> rtc_inv (rtc_poll host s)"
  by (auto simp: rtc_inv_def rtc_poll_def rtc_set_line_def Let_def plic_inv_set_pending split: prod.split)

lemma rtc_load_ok: "\<exists>x. fst (rtc_load host off 4 s) = Inr x"
  by (cases s) (simp add: rtc_load_def Let_def)

interpretation rc: mmio_device RTC_BASE "rtc_load host" rtc_store rtc_inv for host
proof
  fix s off n v t
  show "rtc_inv s \<Longrightarrow> rtc_inv (snd (rtc_load host off n s))"
    using high_half_less by (auto simp: rtc_inv_def rtc_load_def Let_def split: prod.split)
  show "rtc_inv s \<Longrightarrow> rtc_inv (snd (rtc_store off n v s))"
    by (auto simp: rtc_inv_def rtc_store_def rtc_set_line_def Let_def plic_inv_set_pending split: prod.split)
  show "fst (rtc_load host off n s) = Inl t \<Longrightarrow>
      t = trap_new LoadAccessFault (RTC_BASE + off) \<and> snd (rtc_load host off n s) = s"
    using rtc_load_ok [of host off s] by (cases s; cases "n = 4") (auto simp: rtc_load_def)
  show "fst (rtc_store off n v s) = Inl t \<Longrightarrow>
      t = trap_new StoreAMOAccessFault (RTC_BASE + off) \<and> snd (rtc_store off n v s) = s"
    by (cases s; cases "n = 4") (simp_all add: rtc_store_def Let_def)
qed

text \<open>
  Reading the low half and then the high half gives one consistent reading, however much time
  passes in between.
\<close>

lemma rtc_time_consistent:
  assumes "rtc_load host1 TIME_LOW 4 s = (Inr lo, s1)" "rtc_load host2 TIME_HIGH 4 s1 = (Inr hi, s2)"
  shows "push_bit 32 hi OR lo = now_ns host1 (fst s)"
proof -
  have "lo = now_ns host1 (fst s) AND 0xffffffff" "hi = drop_bit 32 (now_ns host1 (fst s))"
    using assms by (auto simp: rtc_load_def Let_def split: prod.splits)
  then show ?thesis
    using mtimecmp_halves(1) [of 0 "now_ns host1 (fst s)"] by (simp add: and.assoc or.commute)
qed

text \<open>The alarm fires once: its second poll does nothing until it is armed and acknowledged again.\<close>

lemma rtc_poll_idempotent: "rtc_poll host' (rtc_poll host s) = rtc_poll host s \<or> rtc_poll host s = s"
  by (auto simp: rtc_poll_def Let_def split: prod.split)

section \<open>Properties\<close>

text \<open>a guest that reads the low and then the high time register sees one consistent 64-bit
  time, the one at the first read, even when the host clock moves between the two.\<close>

theorem time_read_consistent:
  assumes "rtc_load host1 TIME_LOW 4 s = (Inr lo, s1)" "rtc_load host2 TIME_HIGH 4 s1 = (Inr hi, s2)"
  shows "push_bit 32 hi OR lo = now_ns host1 (fst s)"
  by (rule rtc_time_consistent [OF assms])

lemma time_read_consistent_witness:
  "push_bit 32 7 OR 5 = now_ns 0x700000005 (fst (rtc_new, plic_new 1))"
  using time_read_consistent [of "0x700000005" "(rtc_new, plic_new 1)" 5 _ "0x900000000" 7]
  by (simp add: rtc_load_def rtc_new_def now_ns_def Let_def)

end
