(* ===== verification/Bus.thy ===== *)
theory Bus
  imports Dram Syscon Clint Plic Uart Rtc
begin

text \<open>
  The system bus, \<open>src/src/bus.rs\<close>. The devices of the platform are shared by reference between
  the bus, the machine and the harts: their one state is a field of the bus, and the device
  list holds handles. A device of any other kind (the trait object) is \<open>DExt\<close>, an element of a
  codatatype of objects that may touch memory and the interrupt controller, as the virtio
  devices do. \<open>b_host_ns\<close> is the host's wall clock, read by the real-time clock.
\<close>

section \<open>State\<close>

definition access_fault_for :: "access_type \<Rightarrow> exception" where
  "access_fault_for ty =
     (case ty of Instruction \<Rightarrow> InstructionAccessFault | Load \<Rightarrow> LoadAccessFault | Store \<Rightarrow> StoreAMOAccessFault)"

codatatype ext_device = ExtDevice
  (xd_base: u64) (xd_size: u64) (xd_name: string)
  (xd_load: "u64 \<Rightarrow> nat \<Rightarrow> dram \<times> plic \<Rightarrow> u64 res \<times> (dram \<times> plic) \<times> ext_device")
  (xd_store: "u64 \<Rightarrow> nat \<Rightarrow> u64 \<Rightarrow> dram \<times> plic \<Rightarrow> unit res \<times> (dram \<times> plic) \<times> ext_device")
  (xd_poll: "dram \<times> plic \<Rightarrow> (dram \<times> plic) \<times> ext_device")
  (xd_io_pending: bool)

datatype device = DSyscon | DClint | DPlic | DUart | DRtc | DExt ext_device

record bus =
  b_ram :: dram
  b_ranges :: "(u64 \<times> u64) list"
  b_devices :: "device list"
  b_mmio_epoch :: u64
  b_clock :: clock
  b_clint :: clint
  b_plic :: plic
  b_uart :: uart
  b_syscon :: syscon
  b_rtc :: rtc
  b_host_ns :: u64

section \<open>Operations\<close>

definition dev_base :: "device \<Rightarrow> u64" where
  "dev_base d = (case d of DSyscon \<Rightarrow> SYSCON_BASE | DClint \<Rightarrow> CLINT_BASE | DPlic \<Rightarrow> PLIC_BASE
     | DUart \<Rightarrow> UART0_BASE | DRtc \<Rightarrow> RTC_BASE | DExt x \<Rightarrow> xd_base x)"

definition dev_size :: "device \<Rightarrow> u64" where
  "dev_size d = (case d of DSyscon \<Rightarrow> 0x1000 | DClint \<Rightarrow> 0x10000 | DPlic \<Rightarrow> 0x400000
     | DUart \<Rightarrow> 0x100 | DRtc \<Rightarrow> 0x1000 | DExt x \<Rightarrow> xd_size x)"

definition dev_name :: "device \<Rightarrow> string" where
  "dev_name d = (case d of DSyscon \<Rightarrow> ''syscon'' | DClint \<Rightarrow> ''clint'' | DPlic \<Rightarrow> ''plic''
     | DUart \<Rightarrow> ''uart0'' | DRtc \<Rightarrow> ''rtc'' | DExt x \<Rightarrow> xd_name x)"

text \<open>The call of a device's method, with the borrow of its shared state.\<close>

definition device_load :: "nat \<Rightarrow> u64 \<Rightarrow> nat \<Rightarrow> bus \<Rightarrow> u64 res \<times> bus" where
  "device_load i off n b =
     (case b_devices b ! i of
        DSyscon \<Rightarrow> (let (r, s) = syscon_load off n (b_syscon b) in (r, b\<lparr>b_syscon := s\<rparr>))
      | DClint \<Rightarrow> (let (r, (k, c)) = clint_load off n (b_clock b, b_clint b)
                   in (r, b\<lparr>b_clock := k, b_clint := c\<rparr>))
      | DPlic \<Rightarrow> (let (r, s) = plic_load off n (b_plic b) in (r, b\<lparr>b_plic := s\<rparr>))
      | DUart \<Rightarrow> (let (r, s) = uart_load off n (b_uart b) in (r, b\<lparr>b_uart := s\<rparr>))
      | DRtc \<Rightarrow> (let (r, (t, p)) = rtc_load (b_host_ns b) off n (b_rtc b, b_plic b)
                 in (r, b\<lparr>b_rtc := t, b_plic := p\<rparr>))
      | DExt x \<Rightarrow> (let (r, (m, p), x) = xd_load x off n (b_ram b, b_plic b)
                   in (r, b\<lparr>b_ram := m, b_plic := p, b_devices := (b_devices b)[i := DExt x]\<rparr>)))"

definition device_store :: "nat \<Rightarrow> u64 \<Rightarrow> nat \<Rightarrow> u64 \<Rightarrow> bus \<Rightarrow> unit res \<times> bus" where
  "device_store i off n v b =
     (case b_devices b ! i of
        DSyscon \<Rightarrow> (let (r, s) = syscon_store off n v (b_syscon b) in (r, b\<lparr>b_syscon := s\<rparr>))
      | DClint \<Rightarrow> (let (r, (k, c)) = clint_store off n v (b_clock b, b_clint b)
                   in (r, b\<lparr>b_clock := k, b_clint := c\<rparr>))
      | DPlic \<Rightarrow> (let (r, s) = plic_store off n v (b_plic b) in (r, b\<lparr>b_plic := s\<rparr>))
      | DUart \<Rightarrow> (let (r, s) = uart_store off n v (b_uart b) in (r, b\<lparr>b_uart := s\<rparr>))
      | DRtc \<Rightarrow> (let (r, (t, p)) = rtc_store off n v (b_rtc b, b_plic b)
                 in (r, b\<lparr>b_rtc := t, b_plic := p\<rparr>))
      | DExt x \<Rightarrow> (let (r, (m, p), x) = xd_store x off n v (b_ram b, b_plic b)
                   in (r, b\<lparr>b_ram := m, b_plic := p, b_devices := (b_devices b)[i := DExt x]\<rparr>)))"

definition device_poll :: "nat \<Rightarrow> bus \<Rightarrow> bus" where
  "device_poll i b =
     (case b_devices b ! i of
        DRtc \<Rightarrow> (let (t, p) = rtc_poll (b_host_ns b) (b_rtc b, b_plic b) in b\<lparr>b_rtc := t, b_plic := p\<rparr>)
      | DExt x \<Rightarrow> (let ((m, p), x) = xd_poll x (b_ram b, b_plic b)
                   in b\<lparr>b_ram := m, b_plic := p, b_devices := (b_devices b)[i := DExt x]\<rparr>)
      | _ \<Rightarrow> b)"

definition saturating_add :: "u64 \<Rightarrow> u64 \<Rightarrow> u64" where
  "saturating_add a b = (if unat a + unat b < 2 ^ 64 then a + b else NOT 0)"

definition bus_try_new :: "bool \<Rightarrow> u64 \<Rightarrow> u32 \<Rightarrow> bus option" where
  "bus_try_new host_can_reserve ram_bytes harts =
     (case dram_try_new host_can_reserve ram_bytes of
        None \<Rightarrow> None
      | Some r \<Rightarrow> Some \<lparr>b_ram = r, b_ranges = [], b_devices = [], b_mmio_epoch = 0, b_clock = clock_new,
          b_clint = clint_new harts, b_plic = plic_new harts, b_uart = uart_new, b_syscon = syscon_new,
          b_rtc = rtc_new, b_host_ns = 0\<rparr>)"

definition bus_attach :: "device \<Rightarrow> bus \<Rightarrow> bool \<times> bus" where
  "bus_attach d b =
     (let lo = dev_base d; hi = saturating_add lo (dev_size d) in
      if lo < DRAM_BASE + dram_size (b_ram b) \<and> DRAM_BASE < hi then (False, b)
      else if list_ex (\<lambda>(b_lo, b_hi). lo < b_hi \<and> b_lo < hi) (b_ranges b) then (False, b)
      else (True, b\<lparr>b_ranges := b_ranges b @ [(lo, hi)], b_devices := b_devices b @ [d]\<rparr>))"

definition find_device :: "u64 \<Rightarrow> bus \<Rightarrow> nat option" where
  "find_device addr b =
     (let n = length (takeWhile (\<lambda>(lo, hi). \<not> (addr \<ge> lo \<and> addr < hi)) (b_ranges b))
      in if n < length (b_ranges b) then Some n else None)"

definition has_device_at :: "u64 \<Rightarrow> bus \<Rightarrow> bool" where
  "has_device_at addr b \<longleftrightarrow> find_device addr b \<noteq> None"

definition load_device :: "u64 \<Rightarrow> nat \<Rightarrow> access_type \<Rightarrow> bus \<Rightarrow> u64 res \<times> bus" where
  "load_device addr n ty b =
     (case find_device addr b of
        None \<Rightarrow> (Inl (trap_new (access_fault_for ty) addr), b)
      | Some i \<Rightarrow>
          (let b = b\<lparr>b_mmio_epoch := b_mmio_epoch b + 1\<rparr>;
               base = fst (b_ranges b ! i);
               (r, b) = device_load i (addr - base) n b
           in (case r of
                 Inl t \<Rightarrow> (Inl (if ty = Instruction \<and> t_cause t = LoadAccessFault
                               then t\<lparr>t_cause := InstructionAccessFault\<rparr> else t), b)
               | Inr v \<Rightarrow> (Inr v, b))))"

definition bus_load :: "u64 \<Rightarrow> nat \<Rightarrow> access_type \<Rightarrow> bus \<Rightarrow> u64 res \<times> bus" where
  "bus_load addr n ty b =
     (if addr \<ge> DRAM_BASE then
        (case dram_load (addr - DRAM_BASE) n (b_ram b) of
           Some v \<Rightarrow> (Inr v, b)
         | None \<Rightarrow>
             if addr - DRAM_BASE < dram_size (b_ram b)
             then (Inl (trap_new (access_fault_for ty) addr), b)
             else load_device addr n ty b)
      else load_device addr n ty b)"

definition store_device :: "u64 \<Rightarrow> nat \<Rightarrow> u64 \<Rightarrow> bus \<Rightarrow> unit res \<times> bus" where
  "store_device addr n v b =
     (case find_device addr b of
        None \<Rightarrow> (Inl (trap_new StoreAMOAccessFault addr), b)
      | Some i \<Rightarrow>
          (let b = b\<lparr>b_mmio_epoch := b_mmio_epoch b + 1\<rparr>; base = fst (b_ranges b ! i)
           in device_store i (addr - base) n v b))"

definition bus_store :: "u64 \<Rightarrow> nat \<Rightarrow> u64 \<Rightarrow> bus \<Rightarrow> unit res \<times> bus" where
  "bus_store addr n v b =
     (if addr \<ge> DRAM_BASE then
        (case dram_store (addr - DRAM_BASE) n v (b_ram b) of
           Some r \<Rightarrow> (Inr (), b\<lparr>b_ram := r\<rparr>)
         | None \<Rightarrow>
             if addr - DRAM_BASE < dram_size (b_ram b)
             then (Inl (trap_new StoreAMOAccessFault addr), b)
             else store_device addr n v b)
      else store_device addr n v b)"

definition bus_poll_devices :: "bus \<Rightarrow> bus" where
  "bus_poll_devices b = fold device_poll [0..<length (b_devices b)] b"

definition bus_io_pending :: "bus \<Rightarrow> bool" where
  "bus_io_pending b =
     list_ex (\<lambda>d. case d of DExt x \<Rightarrow> xd_io_pending x | _ \<Rightarrow> False) (b_devices b)"

definition device_names :: "bus \<Rightarrow> string list" where
  "device_names b = map dev_name (b_devices b)"

section \<open>Invariant\<close>

text \<open>
  A device outside this model is well behaved when it changes memory only by the stores and copies of
  \<open>Dram\<close>, keeps the invariant of the interrupt controller and stays where it was mapped.
\<close>

coinductive ext_ok :: "ext_device \<Rightarrow> bool" where
  ext_okI: "\<lbrakk>\<And>off n m p r m' p' x'. \<lbrakk>dram_inv m; plic_inv p; xd_load x off n (m, p) = (r, (m', p'), x')\<rbrakk> \<Longrightarrow>
      dma m m' \<and> plic_inv p' \<and> xd_base x' = xd_base x \<and> ext_ok x';
    \<And>off n v m p r m' p' x'. \<lbrakk>dram_inv m; plic_inv p; xd_store x off n v (m, p) = (r, (m', p'), x')\<rbrakk> \<Longrightarrow>
      dma m m' \<and> plic_inv p' \<and> xd_base x' = xd_base x \<and> ext_ok x';
    \<And>m p m' p' x'. \<lbrakk>dram_inv m; plic_inv p; xd_poll x (m, p) = ((m', p'), x')\<rbrakk> \<Longrightarrow>
      dma m m' \<and> plic_inv p' \<and> xd_base x' = xd_base x \<and> ext_ok x'\<rbrakk>
   \<Longrightarrow> ext_ok x"

definition device_ok :: "device \<Rightarrow> bool" where
  "device_ok d = (case d of DExt x \<Rightarrow> ext_ok x | _ \<Rightarrow> True)"

definition overlap :: "u64 \<times> u64 \<Rightarrow> u64 \<times> u64 \<Rightarrow> bool" where
  "overlap r s \<longleftrightarrow> fst s < snd r \<and> fst r < snd s"

definition ranges_ok :: "bus \<Rightarrow> bool" where
  "ranges_ok b \<longleftrightarrow>
     sorted_wrt (\<lambda>r s. \<not> overlap r s) (b_ranges b) \<and>
     (\<forall>r\<in>set (b_ranges b). \<not> overlap (DRAM_BASE, DRAM_BASE + dram_size (b_ram b)) r) \<and>
     map fst (b_ranges b) = map dev_base (b_devices b)"

definition bus_inv :: "bus \<Rightarrow> bool" where
  "bus_inv b \<longleftrightarrow>
     ranges_ok b \<and> dram_inv (b_ram b) \<and> clint_inv (b_clint b) \<and> plic_inv (b_plic b) \<and>
     uart_inv (b_uart b) \<and> syscon_inv (b_syscon b) \<and> rt_latched_high (b_rtc b) < 2 ^ 32 \<and>
     list_all device_ok (b_devices b)"

lemma bus_inv_new:
  "bus_try_new ok n h = Some b \<Longrightarrow> n < 2 ^ 44 \<Longrightarrow> bus_inv b"
proof -
  assume b: "bus_try_new ok n h = Some b" and n: "n < 2 ^ 44"
  have "unat n < 2 ^ 44"
    using n by (simp add: word_less_nat_alt)
  then have "dram_inv (dram_from_vec (replicate (unat n) 0))"
    by (intro dram_inv_from_vec) simp
  moreover have "uart_inv uart_new"
    by (simp add: uart_inv_def uart_new_def)
  ultimately show ?thesis
    using b clint_inv_new plic_inv_new
    by (auto simp: bus_try_new_def dram_try_new_def bus_inv_def ranges_ok_def syscon_inv_def syscon_new_def
        rtc_new_def split: option.splits if_splits)
qed

lemma bus_inv_attach:
  assumes "bus_inv b" "device_ok d"
  shows "bus_inv (snd (bus_attach d b))"
  using assms
  by (auto simp: bus_attach_def Let_def bus_inv_def ranges_ok_def sorted_wrt_append overlap_def list_ex_iff
      case_prod_unfold)

text \<open>An address belongs to at most one attached device: the first match is the only one.\<close>

lemma find_device_Some:
  "find_device a b = Some i \<Longrightarrow> i < length (b_ranges b) \<and> fst (b_ranges b ! i) \<le> a \<and> a < snd (b_ranges b ! i)"
  using nth_length_takeWhile [of "\<lambda>(lo, hi). \<not> (a \<ge> lo \<and> a < hi)" "b_ranges b"]
  by (auto simp: find_device_def Let_def case_prod_unfold split: if_splits)

lemma find_device_None:
  "find_device a b = None \<longleftrightarrow> (\<forall>(lo, hi)\<in>set (b_ranges b). \<not> (lo \<le> a \<and> a < hi))"
proof -
  let ?P = "\<lambda>(lo, hi). \<not> (a \<ge> lo \<and> a < hi)"
  have "find_device a b = None \<longleftrightarrow> takeWhile ?P (b_ranges b) = b_ranges b"
    unfolding find_device_def Let_def
    by (metis (no_types, lifting) length_takeWhile_le nat_less_le option.distinct(1) takeWhile_eq_take take_all_iff)
  also have "\<dots> \<longleftrightarrow> (\<forall>r\<in>set (b_ranges b). ?P r)"
    by (rule takeWhile_eq_all_conv)
  finally show ?thesis
    by simp
qed

lemma find_device_unique:
  assumes "ranges_ok b" "i < length (b_ranges b)" "fst (b_ranges b ! i) \<le> a" "a < snd (b_ranges b ! i)"
  shows "find_device a b = Some i"
proof -
  obtain j where j: "find_device a b = Some j"
    using assms(2-4) find_device_None [of a b] by (fastforce simp: in_set_conv_nth)
  note J = find_device_Some [OF j]
  have "\<not> overlap (b_ranges b ! k) (b_ranges b ! l)" if "k < l" "l < length (b_ranges b)" for k l
    using assms(1) that by (simp add: ranges_ok_def sorted_wrt_iff_nth_less)
  moreover have "overlap (b_ranges b ! i) (b_ranges b ! j)" "overlap (b_ranges b ! j) (b_ranges b ! i)"
    using assms(3,4) J by (auto simp: overlap_def)
  ultimately have "i = j"
    using assms(2) J by (metis linorder_neqE_nat)
  with j show ?thesis
    by simp
qed

lemma ext_ok_load:
  assumes "ext_ok x" "dram_inv m" "plic_inv p" "xd_load x off n (m, p) = (r, (m', p'), x')"
  shows "dram_inv m'" "plic_inv p'" "d_len m' = d_len m" "xd_base x' = xd_base x" "ext_ok x'" "dma m m'"
proof -
  have "dma m m' \<and> plic_inv p' \<and> xd_base x' = xd_base x \<and> ext_ok x'"
    using assms(1)
  proof (cases rule: ext_ok.cases)
    case ext_okI
    show ?thesis
      by (rule ext_okI(1) [OF assms(2-4)])
  qed
  then show "dram_inv m'" "plic_inv p'" "d_len m' = d_len m" "xd_base x' = xd_base x" "ext_ok x'" "dma m m'"
    using dma_keeps assms(2) by blast+
qed

lemma ext_ok_store:
  assumes "ext_ok x" "dram_inv m" "plic_inv p" "xd_store x off n v (m, p) = (r, (m', p'), x')"
  shows "dram_inv m'" "plic_inv p'" "d_len m' = d_len m" "xd_base x' = xd_base x" "ext_ok x'" "dma m m'"
proof -
  have "dma m m' \<and> plic_inv p' \<and> xd_base x' = xd_base x \<and> ext_ok x'"
    using assms(1)
  proof (cases rule: ext_ok.cases)
    case ext_okI
    show ?thesis
      by (rule ext_okI(2) [OF assms(2-4)])
  qed
  then show "dram_inv m'" "plic_inv p'" "d_len m' = d_len m" "xd_base x' = xd_base x" "ext_ok x'" "dma m m'"
    using dma_keeps assms(2) by blast+
qed

lemma ext_ok_poll:
  assumes "ext_ok x" "dram_inv m" "plic_inv p" "xd_poll x (m, p) = ((m', p'), x')"
  shows "dram_inv m'" "plic_inv p'" "d_len m' = d_len m" "xd_base x' = xd_base x" "ext_ok x'" "dma m m'"
proof -
  have "dma m m' \<and> plic_inv p' \<and> xd_base x' = xd_base x \<and> ext_ok x'"
    using assms(1)
  proof (cases rule: ext_ok.cases)
    case ext_okI
    show ?thesis
      by (rule ext_okI(3) [OF assms(2-4)])
  qed
  then show "dram_inv m'" "plic_inv p'" "d_len m' = d_len m" "xd_base x' = xd_base x" "ext_ok x'" "dma m m'"
    using dma_keeps assms(2) by blast+
qed

lemma bus_inv_ext:
  assumes "bus_inv b" "i < length (b_devices b)" "b_devices b ! i = DExt x"
    and "dram_inv m" "plic_inv p" "d_len m = d_len (b_ram b)" "xd_base x' = xd_base x" "ext_ok x'"
  shows "bus_inv (b\<lparr>b_ram := m, b_plic := p, b_devices := (b_devices b)[i := DExt x']\<rparr>)"
proof -
  have "map dev_base ((b_devices b)[i := DExt x']) = map dev_base (b_devices b)"
    using assms(2,3,7) by (auto simp: map_update dev_base_def intro!: nth_equalityI simp: nth_list_update)
  then show ?thesis
    using assms
    by (auto simp: bus_inv_def ranges_ok_def dram_size_def list_all_length nth_list_update device_ok_def)
qed

lemma bus_inv_ext_device:
  assumes "bus_inv b" "i < length (b_devices b)" "b_devices b ! i = DExt x"
  shows "ext_ok x" "dram_inv (b_ram b)" "plic_inv (b_plic b)"
  using assms by (auto simp: bus_inv_def list_all_length device_ok_def split: device.splits)

lemma bus_inv_device_load:
  assumes "bus_inv b" "i < length (b_devices b)"
  shows "bus_inv (snd (device_load i off n b))"
proof (cases "b_devices b ! i")
  case DSyscon
  then show ?thesis
    using assms sc.ld_inv [of "b_syscon b" off n] by (auto simp: device_load_def bus_inv_def ranges_ok_def split_beta)
next
  case DClint
  then show ?thesis
    using assms ct.ld_inv [of "(b_clock b, b_clint b)" off n]
    by (auto simp: device_load_def bus_inv_def ranges_ok_def split_beta)
next
  case DPlic
  then show ?thesis
    using assms pc.ld_inv [of "b_plic b" off n] by (auto simp: device_load_def bus_inv_def ranges_ok_def split_beta)
next
  case DUart
  then show ?thesis
    using assms ur.ld_inv [of "b_uart b" off n] by (auto simp: device_load_def bus_inv_def ranges_ok_def split_beta)
next
  case DRtc
  then show ?thesis
    using assms rc.ld_inv [of "(b_rtc b, b_plic b)" "b_host_ns b" off n]
    by (auto simp: device_load_def bus_inv_def ranges_ok_def rtc_inv_def split_beta)
next
  case (DExt x)
  obtain r m p x' where e: "xd_load x off n (b_ram b, b_plic b) = (r, (m, p), x')"
    by (metis surj_pair)
  show ?thesis
    using bus_inv_ext [OF assms DExt] ext_ok_load [OF bus_inv_ext_device [OF assms DExt] e]
    by (simp add: device_load_def DExt e)
qed

lemma bus_inv_device_store:
  assumes "bus_inv b" "i < length (b_devices b)"
  shows "bus_inv (snd (device_store i off n v b))"
proof (cases "b_devices b ! i")
  case DSyscon
  then show ?thesis
    using assms sc.st_inv [of "b_syscon b" off n v] by (auto simp: device_store_def bus_inv_def ranges_ok_def split_beta)
next
  case DClint
  then show ?thesis
    using assms ct.st_inv [of "(b_clock b, b_clint b)" off n v]
    by (auto simp: device_store_def bus_inv_def ranges_ok_def split_beta)
next
  case DPlic
  then show ?thesis
    using assms pc.st_inv [of "b_plic b" off n v] by (auto simp: device_store_def bus_inv_def ranges_ok_def split_beta)
next
  case DUart
  then show ?thesis
    using assms ur.st_inv [of "b_uart b" off n v] by (auto simp: device_store_def bus_inv_def ranges_ok_def split_beta)
next
  case DRtc
  then show ?thesis
    using assms rc.st_inv [of "(b_rtc b, b_plic b)" off n v]
    by (auto simp: device_store_def bus_inv_def ranges_ok_def rtc_inv_def split_beta)
next
  case (DExt x)
  obtain r m p x' where e: "xd_store x off n v (b_ram b, b_plic b) = (r, (m, p), x')"
    by (metis surj_pair)
  show ?thesis
    using bus_inv_ext [OF assms DExt] ext_ok_store [OF bus_inv_ext_device [OF assms DExt] e]
    by (simp add: device_store_def DExt e)
qed

lemma bus_inv_epoch [simp]: "bus_inv (b\<lparr>b_mmio_epoch := e\<rparr>) = bus_inv b"
  by (simp add: bus_inv_def ranges_ok_def)

lemma bus_inv_lengths: "bus_inv b \<Longrightarrow> length (b_ranges b) = length (b_devices b)"
  unfolding bus_inv_def ranges_ok_def by (metis length_map)

lemma find_device_index: "bus_inv b \<Longrightarrow> find_device a b = Some i \<Longrightarrow> i < length (b_devices b)"
  using find_device_Some bus_inv_lengths by fastforce

lemma bus_inv_load: "bus_inv b \<Longrightarrow> bus_inv (snd (bus_load a n ty b))"
  using bus_inv_device_load [of "b\<lparr>b_mmio_epoch := b_mmio_epoch b + 1\<rparr>"] find_device_index [of b a]
  by (auto simp: bus_load_def load_device_def Let_def split_beta split: option.split sum.split)

lemma bus_inv_ram:
  "bus_inv b \<Longrightarrow> dram_inv r \<Longrightarrow> d_len r = d_len (b_ram b) \<Longrightarrow> bus_inv (b\<lparr>b_ram := r\<rparr>)"
  by (simp add: bus_inv_def ranges_ok_def dram_size_def)

lemma bus_inv_store:
  assumes "bus_inv b"
  shows "bus_inv (snd (bus_store a n v b))"
proof -
  have "dram_inv (b_ram b)"
    using assms by (simp add: bus_inv_def)
  then have "bus_inv (b\<lparr>b_ram := r\<rparr>)" if "dram_store p n v (b_ram b) = Some r" for p r
    using that assms dram_inv_ops(1) write_len(1) bus_inv_ram by blast
  moreover have "bus_inv (snd (store_device a n v b))"
    using assms bus_inv_device_store [of "b\<lparr>b_mmio_epoch := b_mmio_epoch b + 1\<rparr>"] find_device_index [of b a]
    by (auto simp: store_device_def Let_def split: option.split)
  ultimately show ?thesis
    using assms by (auto simp: bus_store_def split: option.split)
qed

lemma bus_inv_poll: "bus_inv b \<Longrightarrow> bus_inv (bus_poll_devices b)"
proof -
  have one: "bus_inv (device_poll i b) \<and> length (b_devices (device_poll i b)) = length (b_devices b)"
    if "bus_inv b" "i < length (b_devices b)" for i b
  proof (cases "b_devices b ! i")
    case DRtc
    then show ?thesis
      using that rtc_inv_poll [of "(b_rtc b, b_plic b)" "b_host_ns b"]
      by (auto simp: device_poll_def bus_inv_def ranges_ok_def rtc_inv_def split_beta)
  next
    case (DExt x)
    obtain m p x' where e: "xd_poll x (b_ram b, b_plic b) = ((m, p), x')"
      by (metis surj_pair)
    show ?thesis
      using bus_inv_ext [OF that DExt] ext_ok_poll [OF bus_inv_ext_device [OF that DExt] e]
      by (simp add: device_poll_def DExt e)
  qed (use that in \<open>simp_all add: device_poll_def\<close>)
  have "bus_inv (fold device_poll is b)" if "bus_inv b" "\<forall>i\<in>set is. i < length (b_devices b)" for "is" b
    using that by (induction "is" arbitrary: b) (auto simp: one)
  then show "bus_inv b \<Longrightarrow> bus_inv (bus_poll_devices b)"
    by (simp add: bus_poll_devices_def)
qed

lemma device_dma:
  assumes "bus_inv b" "i < length (b_devices b)"
  shows "dma (b_ram b) (b_ram (snd (device_load i off n b)))" "dma (b_ram b) (b_ram (snd (device_store i off n v b)))"
    "dma (b_ram b) (b_ram (device_poll i b))"
proof -
  have ext: "dma (b_ram b) (fst (fst (snd (xd_load x off n (b_ram b, b_plic b)))))"
    "dma (b_ram b) (fst (fst (snd (xd_store x off n v (b_ram b, b_plic b)))))"
    "dma (b_ram b) (fst (fst (xd_poll x (b_ram b, b_plic b))))" if "b_devices b ! i = DExt x" for x
    using ext_ok_load(6) [OF bus_inv_ext_device [OF assms that]] ext_ok_store(6) [OF bus_inv_ext_device [OF assms that]]
      ext_ok_poll(6) [OF bus_inv_ext_device [OF assms that]]
    by (metis prod.collapse)+
  show "dma (b_ram b) (b_ram (snd (device_load i off n b)))"
    by (cases "b_devices b ! i") (simp_all add: device_load_def split_beta dma_refl ext)
  show "dma (b_ram b) (b_ram (snd (device_store i off n v b)))"
    by (cases "b_devices b ! i") (simp_all add: device_store_def split_beta dma_refl ext)
  show "dma (b_ram b) (b_ram (device_poll i b))"
    by (cases "b_devices b ! i") (simp_all add: device_poll_def split_beta dma_refl ext)
qed

lemma bus_dma:
  assumes "bus_inv b"
  shows "dma (b_ram b) (b_ram (snd (bus_load a n ty b)))" "dma (b_ram b) (b_ram (snd (bus_store a n v b)))"
  using device_dma [of "b\<lparr>b_mmio_epoch := b_mmio_epoch b + 1\<rparr>"] find_device_index [OF assms, of a] assms
  by (auto simp: bus_load_def bus_store_def load_device_def store_device_def Let_def split_beta dma_refl
      intro: dma_store [OF dma_refl] split: option.split sum.split)

section \<open>Faults\<close>

text \<open>
  An address nobody claims faults, with the cause of the access and the address as the
  trap value, and nothing changes. The platform's own devices refuse an access in the same way.
\<close>

definition unmapped :: "u64 \<Rightarrow> bus \<Rightarrow> bool" where
  "unmapped a b \<longleftrightarrow> \<not> (DRAM_BASE \<le> a \<and> a - DRAM_BASE < dram_size (b_ram b)) \<and> \<not> has_device_at a b"

lemma dram_load_None: "\<not> offset < dram_size d \<Longrightarrow> dram_load offset n d = None"
  by (simp add: dram_load_def in_range_def dram_size_def)

lemma dram_store_None: "\<not> offset < dram_size d \<Longrightarrow> dram_store offset n v d = None"
  by (simp add: dram_store_def in_range_def dram_size_def)

lemma unmapped_faults:
  assumes "unmapped a b"
  shows "bus_load a n ty b = (Inl (trap_new (access_fault_for ty) a), b)"
    "bus_store a n v b = (Inl (trap_new StoreAMOAccessFault a), b)"
  using assms
  by (auto simp: unmapped_def has_device_at_def bus_load_def bus_store_def load_device_def store_device_def
      dram_load_None dram_store_None)

lemma device_load_fault:
  assumes "\<forall>x. b_devices b ! i \<noteq> DExt x" "device_load i off n b = (Inl t, b')"
  shows "t = trap_new LoadAccessFault (dev_base (b_devices b ! i) + off)" "b' = b"
proof -
  have "t = trap_new LoadAccessFault (dev_base (b_devices b ! i) + off) \<and> b' = b"
  proof (cases "b_devices b ! i")
    case DSyscon
    with assms(2) show ?thesis
      by (simp add: device_load_def syscon_load_def)
  next
    case DClint
    with assms(2) show ?thesis
      using ct.ld_fault [of off n "(b_clock b, b_clint b)" t]
      by (auto simp: device_load_def dev_base_def split_beta)
  next
    case DPlic
    with assms(2) show ?thesis
      using pc.ld_fault [of off n "b_plic b" t] by (auto simp: device_load_def dev_base_def split_beta)
  next
    case DUart
    with assms(2) show ?thesis
      using ur.ld_fault [of off n "b_uart b" t] by (auto simp: device_load_def dev_base_def split_beta)
  next
    case DRtc
    with assms(2) show ?thesis
      using rc.ld_fault [of "b_host_ns b" off n "(b_rtc b, b_plic b)" t]
      by (auto simp: device_load_def dev_base_def split_beta)
  next
    case (DExt x)
    with assms(1) show ?thesis
      by blast
  qed
  then show "t = trap_new LoadAccessFault (dev_base (b_devices b ! i) + off)" "b' = b"
    by simp_all
qed

lemma device_store_fault:
  assumes "\<forall>x. b_devices b ! i \<noteq> DExt x" "device_store i off n v b = (Inl t, b')"
  shows "t = trap_new StoreAMOAccessFault (dev_base (b_devices b ! i) + off)" "b' = b"
proof -
  have "t = trap_new StoreAMOAccessFault (dev_base (b_devices b ! i) + off) \<and> b' = b"
  proof (cases "b_devices b ! i")
    case DSyscon
    with assms(2) show ?thesis
      using sc.st_fault [of off n v "b_syscon b" t] by (auto simp: device_store_def dev_base_def split_beta)
  next
    case DClint
    with assms(2) show ?thesis
      using ct.st_fault [of off n v "(b_clock b, b_clint b)" t]
      by (auto simp: device_store_def dev_base_def split_beta)
  next
    case DPlic
    with assms(2) show ?thesis
      using pc.st_fault [of off n v "b_plic b" t] by (auto simp: device_store_def dev_base_def split_beta)
  next
    case DUart
    with assms(2) show ?thesis
      using ur.st_fault [of off n v "b_uart b" t] by (auto simp: device_store_def dev_base_def split_beta)
  next
    case DRtc
    with assms(2) show ?thesis
      using rc.st_fault [of off n v "(b_rtc b, b_plic b)" t]
      by (auto simp: device_store_def dev_base_def split_beta)
  next
    case (DExt x)
    with assms(1) show ?thesis
      by blast
  qed
  then show "t = trap_new StoreAMOAccessFault (dev_base (b_devices b ! i) + off)" "b' = b"
    by simp_all
qed

lemma range_base: "bus_inv b \<Longrightarrow> i < length (b_devices b) \<Longrightarrow> fst (b_ranges b ! i) = dev_base (b_devices b ! i)"
  using bus_inv_lengths [of b] unfolding bus_inv_def ranges_ok_def by (metis nth_map)

text \<open>Every fault names the accessed address and the cause of the access.\<close>

definition builtin_only :: "bus \<Rightarrow> bool" where
  "builtin_only b \<longleftrightarrow> list_all (\<lambda>d. case d of DExt x \<Rightarrow> False | _ \<Rightarrow> True) (b_devices b)"

lemma builtin_onlyD: "builtin_only b \<Longrightarrow> i < length (b_devices b) \<Longrightarrow> \<forall>x. b_devices b ! i \<noteq> DExt x"
  by (auto simp: builtin_only_def list_all_length split: device.splits)

lemma bus_load_fault:
  assumes inv: "bus_inv b" "builtin_only b" and l: "bus_load a n ty b = (Inl t, b')" and ty: "ty \<noteq> Store"
  shows "t = trap_new (access_fault_for ty) a"
proof -
  have *: "t = trap_new (access_fault_for ty) a" if l: "load_device a n ty b = (Inl t, b')"
  proof (cases "find_device a b")
    case None
    then show ?thesis
      using l by (simp add: load_device_def)
  next
    case (Some i)
    let ?b = "b\<lparr>b_mmio_epoch := b_mmio_epoch b + 1\<rparr>"
    have i: "i < length (b_devices b)"
      using find_device_index [OF inv(1) Some] .
    obtain r b'' where d: "device_load i (a - fst (b_ranges b ! i)) n ?b = (r, b'')"
      by force
    then obtain t' where t': "r = Inl t'"
      and t: "t = (if ty = Instruction \<and> t_cause t' = LoadAccessFault
        then t'\<lparr>t_cause := InstructionAccessFault\<rparr> else t')"
      using l Some by (auto simp: load_device_def Let_def split: sum.splits)
    have "t' = trap_new LoadAccessFault (dev_base (b_devices b ! i) + (a - fst (b_ranges b ! i)))"
      using device_load_fault(1) [of ?b i] builtin_onlyD [OF inv(2) i] d t' by simp
    then have "t' = trap_new LoadAccessFault a"
      using range_base [OF inv(1) i] by simp
    then show ?thesis
      using t ty by (cases ty) (auto simp: access_fault_for_def trap_new_def)
  qed
  show ?thesis
    using l * by (auto simp: bus_load_def split: if_splits option.splits)
qed

lemma bus_store_fault:
  assumes inv: "bus_inv b" "builtin_only b" and l: "bus_store a n v b = (Inl t, b')"
  shows "t = trap_new StoreAMOAccessFault a"
proof -
  have *: "t = trap_new StoreAMOAccessFault a" if l: "store_device a n v b = (Inl t, b')"
  proof (cases "find_device a b")
    case (Some i)
    let ?b = "b\<lparr>b_mmio_epoch := b_mmio_epoch b + 1\<rparr>"
    have i: "i < length (b_devices b)"
      using find_device_index [OF inv(1) Some] .
    have "t = trap_new StoreAMOAccessFault (dev_base (b_devices b ! i) + (a - fst (b_ranges b ! i)))"
      using device_store_fault(1) [of ?b i] builtin_onlyD [OF inv(2) i] l Some
      by (simp add: store_device_def Let_def)
    then show ?thesis
      using range_base [OF inv(1) i] by simp
  qed (use l in \<open>simp add: store_device_def\<close>)
  show ?thesis
    using l * by (auto simp: bus_store_def split: if_splits option.splits)
qed

section \<open>Memory behind the bus\<close>

definition ram_valid :: "bus \<Rightarrow> u64 \<Rightarrow> nat \<Rightarrow> bool" where
  "ram_valid b a n \<longleftrightarrow> DRAM_BASE \<le> a \<and> in_range (a - DRAM_BASE) n (b_ram b)"

definition ram_load :: "u64 \<Rightarrow> nat \<Rightarrow> bus \<Rightarrow> u64 option" where
  "ram_load a n b =
     (if ram_valid b a n then (case fst (bus_load a n Load b) of Inr v \<Rightarrow> Some v | Inl t \<Rightarrow> None) else None)"

definition ram_store :: "u64 \<Rightarrow> nat \<Rightarrow> u64 \<Rightarrow> bus \<Rightarrow> bus option" where
  "ram_store a n v b =
     (if ram_valid b a n then (case bus_store a n v b of (Inr u, b') \<Rightarrow> Some b' | (Inl t, b') \<Rightarrow> None) else None)"

lemma bus_ram:
  assumes "ram_valid b a n"
  shows "bus_load a n ty b = (Inr (le_read (d_mem (b_ram b)) (unat (a - DRAM_BASE)) n), b)"
    "bus_store a n v b = (Inr (), b\<lparr>b_ram := (note_write (a - DRAM_BASE) (of_nat n) (b_ram b))
       \<lparr>d_mem := le_write (unat (a - DRAM_BASE)) n v (d_mem (b_ram b))\<rparr>\<rparr>)"
  using assms by (simp_all add: ram_valid_def bus_load_def bus_store_def dram_load_def dram_store_def Let_def)

interpretation bm: le_memory "\<lambda>a. unat (a - DRAM_BASE)" "\<lambda>b. d_mem (b_ram b)" ram_valid ram_load ram_store
proof
  fix s s' :: bus and p q n m v
  show "ram_valid s p n \<Longrightarrow> ram_load p n s = Some (le_read (d_mem (b_ram s)) (unat (p - DRAM_BASE)) n)"
    by (simp add: ram_load_def bus_ram)
  show "\<not> ram_valid s p n \<Longrightarrow> ram_load p n s = None"
    by (simp add: ram_load_def)
  show "ram_store p n v s = Some s' \<Longrightarrow> ram_valid s p n"
    by (auto simp: ram_store_def split: if_splits)
  show "ram_valid s p n \<Longrightarrow> \<exists>s'. ram_store p n v s = Some s'"
    by (simp add: ram_store_def bus_ram)
  show "ram_store p n v s = Some s' \<Longrightarrow>
      d_mem (b_ram s') = le_write (unat (p - DRAM_BASE)) n v (d_mem (b_ram s))"
    by (auto simp: ram_store_def bus_ram split: if_splits)
  show "ram_store p n v s = Some s' \<Longrightarrow> ram_valid s' q m \<longleftrightarrow> ram_valid s q m"
    by (auto simp: ram_store_def bus_ram ram_valid_def in_range_def split: if_splits)
qed

section \<open>Properties\<close>

text \<open>C25: memory behind the bus behaves like memory: a store inside RAM succeeds, a load of the same
  location returns the stored value cut to the access width, and every RAM location the store
  does not overlap keeps its value.\<close>

theorem bus_memory:
  assumes "ram_valid b a n" "bus_store a n v b = (r, b')" "ram_valid b q k"
    and "unat (a - DRAM_BASE) + n \<le> unat (q - DRAM_BASE) \<or> unat (q - DRAM_BASE) + k \<le> unat (a - DRAM_BASE)"
  shows "r = Inr () \<and> fst (bus_load a n ty b') = Inr (take_bit (8 * min n 8) v) \<and>
    fst (bus_load q k ty b') = fst (bus_load q k ty b)"
proof -
  have st: "ram_store a n v b = Some b'" and r: "r = Inr ()"
    using assms(1,2) by (auto simp: ram_store_def bus_ram)
  have v: "ram_valid b' a n" "ram_valid b' q k"
    using bm.st_keeps [OF st] assms(1,3) by simp_all
  show ?thesis
    using r bm.load_store_same [OF st] bm.load_store_disjoint [OF st assms(4)] v assms(3)
    by (simp add: ram_load_def bus_ram)
qed

definition sample_bus :: bus where
  "sample_bus = the (bus_try_new True 4096 1)"

lemma sample_bus_new: "bus_try_new True 4096 1 = Some sample_bus"
  by (simp add: sample_bus_def bus_try_new_def dram_try_new_def)

lemma sample_bus_valid [simp]: "ram_valid sample_bus a n \<longleftrightarrow> DRAM_BASE \<le> a \<and> a - DRAM_BASE < 4096 \<and> n \<le> 4096 - unat (a - DRAM_BASE)"
  by (simp add: sample_bus_def bus_try_new_def dram_try_new_def dram_from_vec_def ram_valid_def in_range_def)

lemma bus_memory_witness: "fst (bus_load 0x80000010 4 Load (snd (bus_store 0x80000010 4 0x123456789 sample_bus))) = Inr 0x23456789"
  using bus_memory [of sample_bus "0x80000010" 4 "0x123456789" _ _ "0x80000000" 4 Load, OF _ prod.collapse [symmetric]]
  by (simp add: take_bit_eq_mask mask_eq_exp_minus_1)

text \<open>C26: the bus invariant (device ranges disjoint from RAM and from each other, every device and
  memory well formed) holds for a fresh bus and is kept by attaching a device, by every load and
  store of any width at any address, and by polling the devices.\<close>

theorem bus_invariant:
  assumes "bus_inv b" "device_ok d"
  shows "bus_inv (snd (bus_attach d b)) \<and> bus_inv (snd (bus_load a n ty b)) \<and>
    bus_inv (snd (bus_store a n v b)) \<and> bus_inv (bus_poll_devices b)"
  using bus_inv_attach [OF assms] bus_inv_load bus_inv_store bus_inv_poll assms(1) by blast

lemma sample_bus_inv: "bus_inv sample_bus"
  by (rule bus_inv_new [OF sample_bus_new]) simp

lemma bus_invariant_witness: "bus_inv (snd (bus_attach DUart sample_bus))"
  using bus_invariant [OF sample_bus_inv, of DUart] by (simp add: device_ok_def)

text \<open>C27: address decoding is unambiguous: once a device has been attached, every address of its
  range decodes to it, and every address that decoded to an older device still does.\<close>

theorem bus_decode:
  assumes "bus_inv b" "device_ok d" "bus_attach d b = (True, b')"
    and "dev_base d \<le> a" "a < saturating_add (dev_base d) (dev_size d)" "find_device q b = Some i"
  shows "find_device a b' = Some (length (b_devices b)) \<and> find_device q b' = Some i"
proof -
  have b': "b_ranges b' = b_ranges b @ [(dev_base d, saturating_add (dev_base d) (dev_size d))]"
    using assms(3) by (auto simp: bus_attach_def Let_def split: if_splits)
  have inv: "ranges_ok b'"
    using bus_inv_attach [OF assms(1,2)] assms(3) by (simp add: bus_inv_def)
  have "i < length (b_ranges b)" "fst (b_ranges b ! i) \<le> q" "q < snd (b_ranges b ! i)"
    using find_device_Some [OF assms(6)] by simp_all
  then have "find_device q b' = Some i"
    by (intro find_device_unique [OF inv]) (simp_all add: b' nth_append)
  moreover have "find_device a b' = Some (length (b_ranges b))"
    by (intro find_device_unique [OF inv]) (use assms(4,5) in \<open>simp_all add: b'\<close>)
  ultimately show ?thesis
    using bus_inv_lengths [OF assms(1)] by simp
qed

lemma bus_decode_witness:
  "find_device 0x10000005 (snd (bus_attach DUart (snd (bus_attach DSyscon sample_bus)))) = Some 1"
proof -
  let ?b = "snd (bus_attach DSyscon sample_bus)"
  have "bus_inv ?b"
    by (rule bus_inv_attach [OF sample_bus_inv]) (simp add: device_ok_def)
  then show ?thesis
    using bus_decode [of ?b DUart "snd (bus_attach DUart ?b)" "0x10000005" "0x100004" 0]
    by (simp add: device_ok_def bus_attach_def sample_bus_def bus_try_new_def dram_try_new_def dram_from_vec_def
        dram_size_def dev_base_def dev_size_def saturating_add_def find_device_def Let_def)
qed

text \<open>C28: every access fault raised on a bus of built-in devices names the accessed address and the
  cause that belongs to the kind of access, and an access that nothing backs faults without
  changing anything.\<close>

theorem bus_faults:
  assumes "bus_inv b" "builtin_only b"
  shows "(ty \<noteq> Store \<and> bus_load a n ty b = (Inl t, b') \<longrightarrow> t = trap_new (access_fault_for ty) a) \<and>
    (bus_store a n v b = (Inl t, b') \<longrightarrow> t = trap_new StoreAMOAccessFault a) \<and>
    (unmapped a b \<longrightarrow> bus_load a n ty b = (Inl (trap_new (access_fault_for ty) a), b) \<and>
       bus_store a n v b = (Inl (trap_new StoreAMOAccessFault a), b))"
  using bus_load_fault [OF assms] bus_store_fault [OF assms] unmapped_faults by blast

lemma bus_faults_witness: "bus_store 0x1000 4 9 sample_bus = (Inl (trap_new StoreAMOAccessFault 0x1000), sample_bus)"
proof -
  have "builtin_only sample_bus \<and> unmapped 0x1000 sample_bus"
    by (simp add: builtin_only_def unmapped_def has_device_at_def sample_bus_def bus_try_new_def dram_try_new_def dram_from_vec_def
        find_device_def Let_def)
  then show ?thesis
    using bus_faults [OF sample_bus_inv, of Load "0x1000" 4] by blast
qed

end
