(* ===== verification/Mmu.thy ===== *)
theory Mmu
  imports Bus
begin

text \<open>
  Sv39 translation and its cache, \<open>src/src/mmu.rs\<close>. The cache is a fixed array of 1024 slots, a
  function of the slot number here. The loop of the walk is a recursion on the number of
  levels left; its result is the leaf entry, its level and the table it was found in.
\<close>

section \<open>State and operations\<close>

definition PTE_V :: u64 where "PTE_V = push_bit 0 1"
definition PTE_R :: u64 where "PTE_R = push_bit 1 1"
definition PTE_W :: u64 where "PTE_W = push_bit 2 1"
definition PTE_X :: u64 where "PTE_X = push_bit 3 1"
definition PTE_U :: u64 where "PTE_U = push_bit 4 1"
definition PTE_G :: u64 where "PTE_G = push_bit 5 1"
definition PTE_A :: u64 where "PTE_A = push_bit 6 1"
definition PTE_D :: u64 where "PTE_D = push_bit 7 1"
abbreviation (input) PPN_SHIFT :: nat where "PPN_SHIFT \<equiv> 10"
abbreviation (input) PAGE_SIZE :: u64 where "PAGE_SIZE \<equiv> 4096"
abbreviation (input) PAGE_SHIFT :: nat where "PAGE_SHIFT \<equiv> 12"
abbreviation (input) SV39_LEVELS :: nat where "SV39_LEVELS \<equiv> 3"
abbreviation (input) TLB_SLOTS :: nat where "TLB_SLOTS \<equiv> 1024"
abbreviation (input) INVALID_TAG :: u64 where "INVALID_TAG \<equiv> NOT 0"

record tlb_entry =
  te_tag :: u64
  te_ppn :: u64
  te_perms :: u64
  te_pte_addr :: u64

definition TLB_EMPTY :: tlb_entry where
  "TLB_EMPTY = \<lparr>te_tag = INVALID_TAG, te_ppn = 0, te_perms = 0, te_pte_addr = 0\<rparr>"

record mmu =
  mm_tlb :: "nat \<Rightarrow> tlb_entry"
  mm_hits :: u64
  mm_misses :: u64

definition mmu_new :: mmu where
  "mmu_new = \<lparr>mm_tlb = (\<lambda>_. TLB_EMPTY), mm_hits = 0, mm_misses = 0\<rparr>"

definition page_fault_for :: "access_type \<Rightarrow> exception" where
  "page_fault_for ty =
     (case ty of Instruction \<Rightarrow> InstructionPageFault | Load \<Rightarrow> LoadPageFault | Store \<Rightarrow> StoreAMOPageFault)"

definition permitted :: "u64 \<Rightarrow> access_type \<Rightarrow> u32 \<Rightarrow> csr_file \<Rightarrow> bool" where
  "permitted perms ty prv csrs =
     (let user_page = (perms AND PTE_U \<noteq> 0) in
      if prv = PRIV_USER \<and> \<not> user_page then False
      else if prv \<noteq> PRIV_USER \<and> user_page \<and> (ty = Instruction \<or> \<not> mstatus_sum csrs) then False
      else (case ty of
              Instruction \<Rightarrow> perms AND PTE_X \<noteq> 0
            | Load \<Rightarrow> perms AND PTE_R \<noteq> 0 \<or> mstatus_mxr csrs \<and> perms AND PTE_X \<noteq> 0
            | Store \<Rightarrow> perms AND PTE_W \<noteq> 0))"

definition mmu_flush :: "mmu \<Rightarrow> mmu" where
  "mmu_flush m = m\<lparr>mm_tlb := (\<lambda>i. (mm_tlb m i)\<lparr>te_tag := INVALID_TAG\<rparr>)\<rparr>"

fun walk :: "u64 \<Rightarrow> access_type \<Rightarrow> nat \<Rightarrow> u64 \<Rightarrow> bus \<Rightarrow> (u64 \<times> nat \<times> u64) res \<times> bus" where
  "walk vaddr ty 0 table b = (Inl (trap_new (page_fault_for ty) vaddr), b)"
| "walk vaddr ty (Suc level) table b =
     (let index = drop_bit (PAGE_SHIFT + 9 * level) vaddr AND 0x1ff;
          addr = table + index * 8;
          (r, b) = bus_load addr 8 Load b
      in case r of
           Inl _ \<Rightarrow> (Inl (trap_new (page_fault_for ty) vaddr), b)
         | Inr entry \<Rightarrow>
             if entry AND PTE_V = 0 then (Inl (trap_new (page_fault_for ty) vaddr), b)
             else if entry AND PTE_W \<noteq> 0 \<and> entry AND PTE_R = 0
             then (Inl (trap_new (page_fault_for ty) vaddr), b)
             else if entry AND (PTE_R OR PTE_X) \<noteq> 0 then (Inr (entry, level, table), b)
             else walk vaddr ty level (push_bit PAGE_SHIFT (drop_bit PPN_SHIFT entry)) b)"

definition tlb_key :: "csr_file \<Rightarrow> u64 \<Rightarrow> u64" where
  "tlb_key csrs vaddr = push_bit 44 (satp_asid csrs) OR drop_bit PAGE_SHIFT vaddr"

definition tlb_index :: "u64 \<Rightarrow> nat" where
  "tlb_index vaddr = unat (drop_bit PAGE_SHIFT vaddr) mod TLB_SLOTS"

definition translate_miss ::
  "csr_file \<Rightarrow> u64 \<Rightarrow> access_type \<Rightarrow> u32 \<Rightarrow> mmu \<times> bus \<Rightarrow> u64 res \<times> (mmu \<times> bus)" where
  "translate_miss csrs vaddr ty prv s =
     (let (m, b) = s;
          m = m\<lparr>mm_misses := mm_misses m + 1\<rparr>;
          fault = Inl (trap_new (page_fault_for ty) vaddr);
          vpn = drop_bit PAGE_SHIFT vaddr;
          (r, b) = walk vaddr ty SV39_LEVELS (push_bit PAGE_SHIFT (satp_ppn csrs)) b
      in case r of
           Inl t \<Rightarrow> (Inl t, (m, b))
         | Inr (entry, level, table) \<Rightarrow>
             if \<not> permitted entry ty prv csrs then (fault, (m, b))
             else
               (let ppn = drop_bit PPN_SHIFT entry;
                    low = push_bit (9 * level) 1 - 1
                in if level > 0 \<and> ppn AND low \<noteq> 0 then (fault, (m, b))
                   else
                     (let ppn = (if level > 0 then ppn OR (vpn AND low) else ppn);
                          pte_index = drop_bit (PAGE_SHIFT + 9 * level) vaddr AND 0x1ff;
                          pte_addr = table + pte_index * 8;
                          updated = entry OR PTE_A;
                          updated = (if ty = Store then updated OR PTE_D else updated);
                          b = (if updated \<noteq> entry then snd (bus_store pte_addr 8 updated b) else b);
                          m = m\<lparr>mm_tlb := (mm_tlb m)(tlb_index vaddr :=
                                 \<lparr>te_tag = tlb_key csrs vaddr, te_ppn = ppn, te_perms = updated,
                                  te_pte_addr = pte_addr\<rparr>)\<rparr>
                      in (Inr (push_bit PAGE_SHIFT ppn OR (vaddr AND (PAGE_SIZE - 1))), (m, b)))))"

definition translate_paged ::
  "csr_file \<Rightarrow> u64 \<Rightarrow> access_type \<Rightarrow> u32 \<Rightarrow> mmu \<times> bus \<Rightarrow> u64 res \<times> (mmu \<times> bus)" where
  "translate_paged csrs vaddr ty prv s =
     (let (m, b) = s;
          sign_bits = drop_bit 38 vaddr;
          fault = Inl (trap_new (page_fault_for ty) vaddr)
      in if sign_bits \<noteq> 0 \<and> sign_bits \<noteq> 0x3ffffff then (fault, s)
         else
           (let offset = vaddr AND (PAGE_SIZE - 1);
                slot = mm_tlb m (tlb_index vaddr)
            in if te_tag slot = tlb_key csrs vaddr then
                 (if \<not> permitted (te_perms slot) ty prv csrs then (fault, s)
                  else
                    (let dirty = (ty = Store \<and> te_perms slot AND PTE_D = 0);
                         slot = (if dirty then slot\<lparr>te_perms := te_perms slot OR PTE_D\<rparr> else slot);
                         b = (if dirty then snd (bus_store (te_pte_addr slot) 8 (te_perms slot) b) else b);
                         m = m\<lparr>mm_tlb := (mm_tlb m)(tlb_index vaddr := slot), mm_hits := mm_hits m + 1\<rparr>
                     in (Inr (push_bit PAGE_SHIFT (te_ppn slot) OR offset), (m, b))))
               else translate_miss csrs vaddr ty prv s))"

definition translate ::
  "csr_file \<Rightarrow> u64 \<Rightarrow> access_type \<Rightarrow> u32 \<Rightarrow> mmu \<times> bus \<Rightarrow> u64 res \<times> (mmu \<times> bus)" where
  "translate csrs vaddr ty prv s =
     (if prv = PRIV_MACHINE \<or> satp_mode csrs = SATP_MODE_BARE then (Inr vaddr, s)
      else translate_paged csrs vaddr ty prv s)"

section \<open>Faults and offsets\<close>

lemma walk_fault: "fst (walk va ty l tbl b) = Inl t \<Longrightarrow> t = trap_new (page_fault_for ty) va"
  by (induction l arbitrary: tbl b) (auto simp: Let_def split_beta split: sum.splits if_splits)

lemma translate_fault:
  assumes "fst (translate csrs va ty prv s) = Inl t"
  shows "t = trap_new (page_fault_for ty) va"
proof -
  have "t = trap_new (page_fault_for ty) va" if "fst (translate_miss csrs va ty prv s) = Inl t" for s
    using that walk_fault [of va ty 3 "push_bit 12 (satp_ppn csrs)" "snd s" t]
    by (auto simp: translate_miss_def Let_def split_beta split: sum.splits if_splits)
  then show ?thesis
    using assms by (auto simp: translate_def translate_paged_def Let_def split_beta split: if_splits)
qed

lemma page_join:
  fixes p va :: u64
  shows "(push_bit 12 p OR (va AND (PAGE_SIZE - 1))) AND 0xfff = va AND 0xfff"
    "drop_bit 12 (push_bit 12 p OR (va AND (PAGE_SIZE - 1))) = take_bit 52 p"
  by (rule bit_word_eqI; auto simp: bit_simps mask_bits)+

lemma translate_miss_shape:
  "fst (translate_miss csrs va ty prv s) = Inr pa \<Longrightarrow> \<exists>p. pa = push_bit 12 p OR (va AND (PAGE_SIZE - 1))"
  by (auto simp: translate_miss_def Let_def split_beta simp del: push_bit_or split: sum.splits if_splits)

lemma translate_offset:
  assumes "fst (translate csrs va ty prv s) = Inr pa"
  shows "pa AND 0xfff = va AND 0xfff"
  using assms page_join(1) translate_miss_shape [of csrs va ty prv s pa]
  by (auto simp: translate_def translate_paged_def Let_def split_beta split: if_splits)

end
