(* ===== verification/Sv39.thy ===== *)
theory Sv39
  imports Mmu
begin

text \<open>
  What the translation promises: the reference translation reads the page tables in memory
  and nothing else. The cached translation of \<open>Mmu\<close> returns the same answer whenever every cache
  entry agrees with the tables (up to the accessed and dirty bits), and keeps that agreement.
\<close>

section \<open>The reference\<close>

definition canonical :: "u64 \<Rightarrow> bool" where
  "canonical va \<longleftrightarrow> drop_bit 38 va = 0 \<or> drop_bit 38 va = 0x3ffffff"

definition pte_slot :: "u64 \<Rightarrow> nat \<Rightarrow> u64 \<Rightarrow> u64" where
  "pte_slot va level table = table + (drop_bit (12 + 9 * level) va AND 0x1ff) * 8"

fun ref_walk :: "u64 \<Rightarrow> nat \<Rightarrow> u64 \<Rightarrow> bus \<Rightarrow> (u64 \<times> nat \<times> u64) option" where
  "ref_walk va 0 table b = None"
| "ref_walk va (Suc level) table b =
     (case ram_load (pte_slot va level table) 8 b of
        None \<Rightarrow> None
      | Some e \<Rightarrow>
          if \<not> bit e 0 \<or> bit e 2 \<and> \<not> bit e 1 then None
          else if bit e 1 \<or> bit e 3 then Some (e, level, table)
          else ref_walk va level (push_bit 12 (drop_bit 10 e)) b)"

definition leaf_aligned :: "u64 \<Rightarrow> nat \<Rightarrow> bool" where
  "leaf_aligned e level \<longleftrightarrow> take_bit (9 * level) (drop_bit 10 e) = 0"

definition leaf_ppn :: "u64 \<Rightarrow> u64 \<Rightarrow> nat \<Rightarrow> u64" where
  "leaf_ppn va e level = drop_bit 10 e OR take_bit (9 * level) (drop_bit 12 va)"

definition ref_translate :: "csr_file \<Rightarrow> u64 \<Rightarrow> access_type \<Rightarrow> u32 \<Rightarrow> bus \<Rightarrow> u64 option" where
  "ref_translate csrs va ty prv b =
     (if \<not> canonical va then None
      else (case ref_walk va 3 (push_bit 12 (satp_ppn csrs)) b of
              None \<Rightarrow> None
            | Some (e, level, table) \<Rightarrow>
                if permitted e ty prv csrs \<and> leaf_aligned e level
                then Some (push_bit 12 (leaf_ppn va e level) OR take_bit 12 va) else None))"

text \<open>No table entry on the walk is a device register.\<close>

fun walk_clean :: "u64 \<Rightarrow> nat \<Rightarrow> u64 \<Rightarrow> bus \<Rightarrow> bool" where
  "walk_clean va 0 table b = True"
| "walk_clean va (Suc level) table b =
     (\<not> has_device_at (pte_slot va level table) b \<and>
      (case ram_load (pte_slot va level table) 8 b of
         None \<Rightarrow> True
       | Some e \<Rightarrow>
           \<not> bit e 0 \<or> bit e 2 \<and> \<not> bit e 1 \<or> bit e 1 \<or> bit e 3 \<or>
           walk_clean va level (push_bit 12 (drop_bit 10 e)) b))"

section \<open>The walk is the reference walk\<close>

lemma pte_tests:
  "(w AND PTE_V = 0) = (\<not> bit w 0)" "(w AND PTE_R = 0) = (\<not> bit w 1)" "(w AND PTE_W = 0) = (\<not> bit w 2)"
  "(w AND PTE_X = 0) = (\<not> bit w 3)" "(w AND PTE_U = 0) = (\<not> bit w 4)" "(w AND PTE_D = 0) = (\<not> bit w 7)"
  unfolding PTE_V_def PTE_R_def PTE_W_def PTE_X_def PTE_U_def PTE_D_def and_push_bit_1 by simp_all

lemma pte_leaf_test: "(w AND (PTE_R OR PTE_X) = 0) = (\<not> bit w 1 \<and> \<not> bit w 3)"
proof -
  have "w AND (PTE_R OR PTE_X) = (w AND PTE_R) OR (w AND PTE_X)"
    by (simp add: bit.conj_disj_distrib)
  then show ?thesis
    using pte_tests(2,4) [of w] by (simp add: or_eq_0_iff)
qed

lemma bus_load_clean:
  assumes "\<not> has_device_at a b"
  shows "bus_load a 8 Load b
    = (case ram_load a 8 b of Some v \<Rightarrow> (Inr v, b) | None \<Rightarrow> (Inl (trap_new LoadAccessFault a), b))"
proof (cases "ram_valid b a 8")
  case True
  then show ?thesis
    by (simp add: bm.ld_valid bus_ram)
next
  case False
  then have "ram_load a 8 b = None"
    by (simp add: ram_load_def)
  moreover have "dram_load (a - DRAM_BASE) 8 (b_ram b) = None" if "DRAM_BASE \<le> a"
    using False that by (simp add: ram_valid_def dram_load_def)
  ultimately show ?thesis
    using assms by (simp add: bus_load_def load_device_def has_device_at_def access_fault_for_def)
qed

lemma walk_ref:
  assumes "walk_clean va l tbl b"
  shows "walk va ty l tbl b
    = (case ref_walk va l tbl b of None \<Rightarrow> (Inl (trap_new (page_fault_for ty) va), b) | Some r \<Rightarrow> (Inr r, b))"
  using assms
proof (induction l arbitrary: tbl)
  case (Suc l)
  then have nd: "\<not> has_device_at (pte_slot va l tbl) b"
    by simp
  note L = bus_load_clean [OF nd, unfolded pte_slot_def]
  show ?case
  proof (cases "ram_load (pte_slot va l tbl) 8 b")
    case None
    then show ?thesis
      using L by (simp add: pte_slot_def Let_def)
  next
    case (Some e)
    have "walk_clean va l (push_bit 12 (drop_bit 10 e)) b"
      if "bit e 0" "\<not> (bit e 2 \<and> \<not> bit e 1)" "\<not> bit e 1" "\<not> bit e 3"
      using Suc.prems Some that by auto
    then show ?thesis
      using Some L Suc.IH [of "push_bit 12 (drop_bit 10 e)"]
      by (auto simp: pte_slot_def Let_def pte_tests pte_leaf_test)
  qed
qed simp

section \<open>Tables up to the accessed and dirty bits\<close>

definition pte_eqv :: "u64 \<Rightarrow> u64 \<Rightarrow> bool" where
  "pte_eqv x y \<longleftrightarrow> (\<forall>k. k \<noteq> 6 \<and> k \<noteq> 7 \<longrightarrow> bit x k = bit y k)"

lemma pte_eqv_refl [simp]: "pte_eqv x x"
  by (simp add: pte_eqv_def)

lemma pte_eqv_sym: "pte_eqv x y \<Longrightarrow> pte_eqv y x"
  by (simp add: pte_eqv_def)

lemma pte_eqv_trans: "pte_eqv x y \<Longrightarrow> pte_eqv y z \<Longrightarrow> pte_eqv x z"
  by (simp add: pte_eqv_def)

lemma bit_pte_masks: "bit PTE_A k \<longleftrightarrow> k = 6" "bit PTE_D k \<longleftrightarrow> k = 7"
  unfolding PTE_A_def PTE_D_def bit_push_1 by simp_all

lemma pte_eqv_set [simp]:
  "pte_eqv (x OR PTE_A) y = pte_eqv x y" "pte_eqv (x OR PTE_D) y = pte_eqv x y"
  "pte_eqv x (y OR PTE_A) = pte_eqv x y" "pte_eqv x (y OR PTE_D) = pte_eqv x y"
  by (auto simp: pte_eqv_def bit_or_iff bit_pte_masks)

lemma pte_eqv_ppn: "pte_eqv x y \<Longrightarrow> drop_bit 10 x = drop_bit 10 y"
  by (rule bit_word_eqI) (auto simp: pte_eqv_def bit_simps)

lemma pte_eqv_bits: "pte_eqv x y \<Longrightarrow> k < 6 \<Longrightarrow> bit x k = bit y k"
  by (simp add: pte_eqv_def)

lemma permitted_eqv:
  assumes "pte_eqv x y"
  shows "permitted x ty prv csrs = permitted y ty prv csrs"
  using pte_eqv_bits [OF assms, of 1] pte_eqv_bits [OF assms, of 2] pte_eqv_bits [OF assms, of 3]
    pte_eqv_bits [OF assms, of 4]
  by (simp add: permitted_def Let_def pte_tests split: access_type.split)

definition aligned8 :: "u64 \<Rightarrow> bool" where
  "aligned8 a \<longleftrightarrow> 8 dvd unat a"

lemma dvd_mod_64: "8 dvd (n mod 2 ^ LENGTH(64)) \<longleftrightarrow> 8 dvd (n :: nat)"
  by (rule dvd_mod_iff) simp

lemma aligned8_add: "aligned8 a \<Longrightarrow> aligned8 b \<Longrightarrow> aligned8 (a + b)"
  unfolding aligned8_def unat_word_ariths dvd_mod_64 by (rule dvd_add)

lemma aligned8_times: "aligned8 (a * 8)"
  unfolding aligned8_def unat_word_ariths dvd_mod_64 by simp

lemma aligned8_page: "aligned8 (push_bit 12 x)"
proof -
  have "push_bit 12 x = (x * 512) * 8"
    by (simp add: push_bit_eq_mult)
  then show ?thesis
    using aligned8_times [of "x * 512"] by simp
qed

lemma aligned8_slot: "aligned8 t \<Longrightarrow> aligned8 (pte_slot va l t)"
  unfolding pte_slot_def by (intro aligned8_add aligned8_times)

lemma aligned8_disjoint:
  assumes "aligned8 p" "aligned8 q" "p \<noteq> q" "DRAM_BASE \<le> p" "DRAM_BASE \<le> q"
  shows "unat (p - DRAM_BASE) + 8 \<le> unat (q - DRAM_BASE) \<or> unat (q - DRAM_BASE) + 8 \<le> unat (p - DRAM_BASE)"
proof -
  have u: "unat (x - DRAM_BASE) = unat x - 0x80000000 \<and> 0x80000000 \<le> unat x" if "DRAM_BASE \<le> x" for x
    using that by (simp add: unat_sub word_le_nat_alt)
  have "unat p \<noteq> unat q"
    using assms(3) by (simp add: word_unat_eq_iff)
  then have "unat p + 8 \<le> unat q \<or> unat q + 8 \<le> unat p"
    using assms(1,2) by (auto simp: aligned8_def elim!: dvdE)
  then show ?thesis
    using u [OF assms(4)] u [OF assms(5)] by linarith
qed

section \<open>Views\<close>

text \<open>Two bus states give the same view of the tables when every aligned word agrees up to A and D.\<close>

definition same_view :: "bus \<Rightarrow> bus \<Rightarrow> bool" where
  "same_view b b' \<longleftrightarrow>
     (\<forall>a. aligned8 a \<longrightarrow> rel_option pte_eqv (ram_load a 8 b) (ram_load a 8 b')) \<and>
     (\<forall>a. has_device_at a b' = has_device_at a b)"

lemma same_view_refl [simp]: "same_view b b"
  by (simp add: same_view_def option.rel_refl)

lemma store_view:
  assumes "ram_store p 8 v b = Some b'" "aligned8 p" "aligned8 q"
  shows "ram_load q 8 b' = (if q = p then Some v else ram_load q 8 b)"
proof (cases "q = p")
  case True
  then show ?thesis
    using bm.load_store_same [OF assms(1)] by (simp add: take_bit_word_eq_self)
next
  case False
  show ?thesis
  proof (cases "DRAM_BASE \<le> q")
    case True
    have "DRAM_BASE \<le> p"
      using bm.st_valid [OF assms(1)] by (simp add: ram_valid_def)
    then show ?thesis
      using False bm.load_store_disjoint [OF assms(1), of q 8]
        aligned8_disjoint [OF assms(2,3) _ _ True] by auto
  next
    case low: False
    then show ?thesis
      using False by (simp add: ram_load_def ram_valid_def)
  qed
qed

lemma ram_store_devices: "ram_store p n v b = Some b' \<Longrightarrow> has_device_at a b' = has_device_at a b"
  by (auto simp: ram_store_def bus_ram has_device_at_def find_device_def Let_def split: if_splits)

lemma same_view_store:
  assumes "ram_store p 8 v b = Some b'" "aligned8 p" "ram_load p 8 b = Some e" "pte_eqv e v"
  shows "same_view b b'"
  unfolding same_view_def
  using store_view [OF assms(1,2)] ram_store_devices [OF assms(1)] assms(3,4)
  by (auto simp: option.rel_refl)

lemma bus_store_ram: "ram_valid b p n \<Longrightarrow> ram_store p n v b = Some (snd (bus_store p n v b))"
  by (simp add: ram_store_def bus_ram)

definition walk_eqv :: "u64 \<times> nat \<times> u64 \<Rightarrow> u64 \<times> nat \<times> u64 \<Rightarrow> bool" where
  "walk_eqv x y \<longleftrightarrow> pte_eqv (fst x) (fst y) \<and> snd x = snd y"

lemma ref_walk_view:
  assumes "same_view b b'" "aligned8 t"
  shows "rel_option walk_eqv (ref_walk va l t b) (ref_walk va l t b')"
  using assms(2)
proof (induction l arbitrary: t)
  case (Suc l)
  have "rel_option pte_eqv (ram_load (pte_slot va l t) 8 b) (ram_load (pte_slot va l t) 8 b')"
    using assms(1) aligned8_slot [OF Suc.prems] by (simp add: same_view_def)
  then show ?case
  proof (cases rule: option.rel_cases)
    case None
    then show ?thesis
      by simp
  next
    case (Some e e')
    note eq = pte_eqv_bits [OF Some(3), of 0] pte_eqv_bits [OF Some(3), of 1]
      pte_eqv_bits [OF Some(3), of 2] pte_eqv_bits [OF Some(3), of 3] pte_eqv_ppn [OF Some(3)]
    show ?thesis
      using Some eq Suc.IH [OF aligned8_page] by (simp add: walk_eqv_def)
  qed
qed simp

lemma walk_clean_view:
  assumes "same_view b b'" "aligned8 t"
  shows "walk_clean va l t b' = walk_clean va l t b"
  using assms(2)
proof (induction l arbitrary: t)
  case (Suc l)
  have "rel_option pte_eqv (ram_load (pte_slot va l t) 8 b) (ram_load (pte_slot va l t) 8 b')"
    using assms(1) aligned8_slot [OF Suc.prems] by (simp add: same_view_def)
  then show ?case
  proof (cases rule: option.rel_cases)
    case None
    then show ?thesis
      using assms(1) by (simp add: same_view_def)
  next
    case (Some e e')
    note eq = pte_eqv_bits [OF Some(3), of 0] pte_eqv_bits [OF Some(3), of 1]
      pte_eqv_bits [OF Some(3), of 2] pte_eqv_bits [OF Some(3), of 3] pte_eqv_ppn [OF Some(3)]
    show ?thesis
      using Some eq Suc.IH [OF aligned8_page] assms(1) by (simp add: same_view_def)
  qed
qed simp

lemma ref_translate_view:
  assumes "same_view b b'"
  shows "ref_translate csrs va ty prv b' = ref_translate csrs va ty prv b"
proof -
  have "rel_option walk_eqv (ref_walk va 3 (push_bit 12 (satp_ppn csrs)) b)
      (ref_walk va 3 (push_bit 12 (satp_ppn csrs)) b')"
    by (rule ref_walk_view [OF assms aligned8_page])
  then show ?thesis
  proof (cases rule: option.rel_cases)
    case (Some x y)
    then show ?thesis
      using permitted_eqv [of "fst x" "fst y" ty prv csrs] pte_eqv_ppn [of "fst x" "fst y"]
      by (auto simp: ref_translate_def walk_eqv_def leaf_aligned_def leaf_ppn_def split_beta)
  qed (simp add: ref_translate_def)
qed

lemma ref_walk_leaf:
  assumes "ref_walk va l t b = Some (e, lv, tb)" "aligned8 t"
  shows "ram_load (pte_slot va lv tb) 8 b = Some e" "aligned8 tb" "lv < l" "bit e 0"
proof -
  have "ram_load (pte_slot va lv tb) 8 b = Some e \<and> aligned8 tb \<and> lv < l \<and> bit e 0"
    using assms
  proof (induction l arbitrary: t)
    case (Suc l)
    then show ?case
      using aligned8_page by (auto intro: less_SucI split: option.splits if_splits)
  qed simp
  then show "ram_load (pte_slot va lv tb) 8 b = Some e" "aligned8 tb" "lv < l" "bit e 0"
    by simp_all
qed

section \<open>The cache\<close>

lemma canonical_bit:
  assumes "canonical va" "38 \<le> k" "k < 64"
  shows "bit va k \<longleftrightarrow> bit va 38"
proof -
  have k: "bit va k \<longleftrightarrow> bit (drop_bit 38 va) (k - 38)" and z: "bit va 38 \<longleftrightarrow> bit (drop_bit 38 va) 0"
    using assms by (simp_all add: bit_drop_bit_eq)
  have m: "bit (0x3ffffff :: int) j \<longleftrightarrow> j < 26" for j
    using bit_run_iff [of "0x3ffffff" 0 26 j] by (simp add: mask_eq_exp_minus_1)
  show ?thesis
    unfolding k z using assms by (auto simp: canonical_def m)
qed

lemma key_page:
  assumes "canonical va" "canonical va'" "tlb_key csrs va = tlb_key csrs va'"
  shows "drop_bit 12 va = drop_bit 12 va'"
proof (rule bit_word_eqI)
  have low: "bit va (12 + k) \<longleftrightarrow> bit va' (12 + k)" if "k < 44" for k
    using arg_cong [OF assms(3), of "\<lambda>w. bit w k"] that by (simp add: tlb_key_def bit_simps)
  fix n assume n: "n < LENGTH(64)"
  show "bit (drop_bit 12 va) n \<longleftrightarrow> bit (drop_bit 12 va') n"
  proof (cases "n < 44")
    case False
    show ?thesis
    proof (cases "12 + n < 64")
      case True
      then show ?thesis
        using False canonical_bit [OF assms(1), of "12 + n"] canonical_bit [OF assms(2), of "12 + n"] low [of 26]
        by (simp add: bit_drop_bit_eq)
    qed (auto simp: bit_drop_bit_eq dest: bit_imp_le_length)
  qed (use low in \<open>simp add: bit_drop_bit_eq\<close>)
qed

lemma key_not_invalid: "tlb_key csrs va \<noteq> INVALID_TAG"
proof
  assume "tlb_key csrs va = INVALID_TAG"
  then have "bit (tlb_key csrs va) 63"
    by simp
  then show False
    by (auto simp: tlb_key_def satp_asid_def bit_simps mask_bits dest: bit_imp_le_length)
qed

lemma page_index: "drop_bit 12 va = drop_bit 12 va' \<Longrightarrow> drop_bit (12 + n) va = drop_bit (12 + n) (va' :: u64)"
  by (simp only: add.commute [of 12 n] drop_bit_drop_bit [symmetric])

lemma pte_slot_page: "drop_bit 12 va = drop_bit 12 va' \<Longrightarrow> pte_slot va l t = pte_slot va' l t"
  using page_index [of va va' "9 * l"] by (simp add: pte_slot_def)

lemma ref_walk_page: "drop_bit 12 va = drop_bit 12 va' \<Longrightarrow> ref_walk va l t b = ref_walk va' l t b"
  by (induction l arbitrary: t) (auto simp: pte_slot_page [of va va'] split: option.split)

definition entry_ok :: "csr_file \<Rightarrow> bus \<Rightarrow> u64 \<Rightarrow> tlb_entry \<Rightarrow> bool" where
  "entry_ok csrs b va e \<longleftrightarrow>
     (case ref_walk va 3 (push_bit 12 (satp_ppn csrs)) b of
        None \<Rightarrow> False
      | Some (pte, lv, tb) \<Rightarrow>
          leaf_aligned pte lv \<and> te_ppn e = leaf_ppn va pte lv \<and> pte_eqv pte (te_perms e) \<and>
          te_pte_addr e = pte_slot va lv tb)"

definition tlb_ok :: "csr_file \<Rightarrow> mmu \<Rightarrow> bus \<Rightarrow> bool" where
  "tlb_ok csrs m b \<longleftrightarrow>
     (\<forall>va. canonical va \<and> te_tag (mm_tlb m (tlb_index va)) = tlb_key csrs va \<longrightarrow>
        entry_ok csrs b va (mm_tlb m (tlb_index va)))"

lemma tlb_ok_flush: "tlb_ok csrs (mmu_flush m) b" "tlb_ok csrs mmu_new b"
  using key_not_invalid [of csrs, symmetric] by (simp_all add: tlb_ok_def mmu_flush_def mmu_new_def TLB_EMPTY_def)

lemma entry_ok_view:
  assumes "entry_ok csrs b va e" "same_view b b'"
  shows "entry_ok csrs b' va e"
proof -
  have "rel_option walk_eqv (ref_walk va 3 (push_bit 12 (satp_ppn csrs)) b)
      (ref_walk va 3 (push_bit 12 (satp_ppn csrs)) b')"
    by (rule ref_walk_view [OF assms(2) aligned8_page])
  then show ?thesis
  proof (cases rule: option.rel_cases)
    case (Some x y)
    then show ?thesis
      using assms(1) pte_eqv_ppn [of "fst x" "fst y"] pte_eqv_trans [OF pte_eqv_sym]
      by (auto simp: entry_ok_def walk_eqv_def leaf_aligned_def leaf_ppn_def split_beta)
  qed (use assms(1) in \<open>simp add: entry_ok_def\<close>)
qed

lemma entry_ok_page:
  "drop_bit 12 va = drop_bit 12 va' \<Longrightarrow> entry_ok csrs b va e = entry_ok csrs b va' e"
  by (auto simp: entry_ok_def ref_walk_page [of va va'] pte_slot_page [of va va'] leaf_ppn_def
      split: option.split)

lemma tlb_ok_fill:
  assumes ok: "tlb_ok csrs m b" and view: "same_view b b'" and va: "canonical va"
    and tag: "te_tag e = tlb_key csrs va" and new: "entry_ok csrs b' va e"
    and m': "mm_tlb m' = (mm_tlb m)(tlb_index va := e)"
  shows "tlb_ok csrs m' b'"
  unfolding tlb_ok_def
proof (intro allI impI)
  fix va'
  assume *: "canonical va' \<and> te_tag (mm_tlb m' (tlb_index va')) = tlb_key csrs va'"
  show "entry_ok csrs b' va' (mm_tlb m' (tlb_index va'))"
  proof (cases "tlb_index va' = tlb_index va")
    case True
    then have "drop_bit 12 va' = drop_bit 12 va"
      using * tag key_page [of va' va csrs] va m' by simp
    then show ?thesis
      using True new entry_ok_page [of va' va] m' by simp
  next
    case False
    then show ?thesis
      using * ok m' entry_ok_view [OF _ view] by (simp add: tlb_ok_def)
  qed
qed

section \<open>Cached translation refines the reference\<close>

definition answer :: "access_type \<Rightarrow> u64 \<Rightarrow> u64 option \<Rightarrow> u64 res" where
  "answer ty va r = (case r of None \<Rightarrow> Inl (trap_new (page_fault_for ty) va) | Some pa \<Rightarrow> Inr pa)"

lemma leaf_low:
  "(l > 0 \<and> p AND (push_bit (9 * l) 1 - 1) \<noteq> 0) = (take_bit (9 * l) (p :: u64) \<noteq> 0)"
  "(if l > 0 then p OR (v AND (push_bit (9 * l) 1 - 1)) else p) = p OR take_bit (9 * l) (v :: u64)"
  by (cases "l = 0"; simp add: take_bit_eq_mask mask_eq_exp_minus_1)+

lemma update_view:
  assumes leaf: "ref_walk va 3 (push_bit 12 (satp_ppn csrs)) b = Some (e, lv, tb)" and e': "pte_eqv e e'"
  shows "same_view b (snd (bus_store (pte_slot va lv tb) 8 e' b))"
proof -
  note l = ref_walk_leaf [OF leaf aligned8_page]
  have "ram_valid b (pte_slot va lv tb) 8"
    using l(1) by (simp add: ram_load_def split: if_splits)
  then show ?thesis
    using same_view_store [OF bus_store_ram aligned8_slot [OF l(2)] l(1) e'] by simp
qed

lemma entry_ok_leaf:
  assumes "ref_walk va 3 (push_bit 12 (satp_ppn csrs)) b = Some (e, lv, tb)" "leaf_aligned e lv" "pte_eqv e e'"
  shows "entry_ok csrs b va \<lparr>te_tag = k, te_ppn = leaf_ppn va e lv, te_perms = e', te_pte_addr = pte_slot va lv tb\<rparr>"
  using assms by (simp add: entry_ok_def)

lemma tlb_ok_counters [simp]:
  "tlb_ok csrs (m\<lparr>mm_misses := k\<rparr>) b = tlb_ok csrs m b" "tlb_ok csrs (m\<lparr>mm_hits := k\<rparr>) b = tlb_ok csrs m b"
  by (simp_all add: tlb_ok_def)

lemma translate_miss_refines:
  assumes ok: "tlb_ok csrs m b" and clean: "walk_clean va 3 (push_bit 12 (satp_ppn csrs)) b" and va: "canonical va"
  shows "case translate_miss csrs va ty prv (m, b) of
    (r, m', b') \<Rightarrow> r = answer ty va (ref_translate csrs va ty prv b) \<and> same_view b b' \<and> tlb_ok csrs m' b'"
proof (cases "ref_walk va 3 (push_bit 12 (satp_ppn csrs)) b")
  case None
  then show ?thesis
    using walk_ref [OF clean] va ok by (simp add: translate_miss_def ref_translate_def answer_def Let_def)
next
  case (Some r)
  obtain e lv tb where r: "r = (e, lv, tb)"
    by (cases r)
  note leaf = Some [unfolded r]
  define upd where "upd = (if ty = Store then (e OR PTE_A) OR PTE_D else e OR PTE_A)"
  define b' where "b' = (if upd \<noteq> e then snd (bus_store (pte_slot va lv tb) 8 upd b) else b)"
  have eqv: "pte_eqv e upd"
    by (simp add: upd_def)
  have view: "same_view b b'"
    using update_view [OF leaf eqv] by (simp add: b'_def)
  have W: "walk va ty 3 (push_bit 12 (satp_ppn csrs)) b = (Inr (e, lv, tb), b)"
    using walk_ref [OF clean] leaf by simp
  define ent where
    "ent = \<lparr>te_tag = tlb_key csrs va, te_ppn = leaf_ppn va e lv, te_perms = upd, te_pte_addr = pte_slot va lv tb\<rparr>"
  have M: "translate_miss csrs va ty prv (m, b) =
    (if permitted e ty prv csrs \<and> leaf_aligned e lv
     then (Inr (push_bit 12 (leaf_ppn va e lv) OR take_bit 12 va),
           m\<lparr>mm_misses := mm_misses m + 1, mm_tlb := (mm_tlb m)(tlb_index va := ent)\<rparr>, b')
     else (Inl (trap_new (page_fault_for ty) va), m\<lparr>mm_misses := mm_misses m + 1\<rparr>, b))"
    unfolding translate_miss_def Let_def split_beta fst_conv snd_conv W sum.case leaf_low leaf_aligned_def
    by (auto simp: leaf_ppn_def pte_slot_def b'_def upd_def ent_def and_low_mask)
  show ?thesis
  proof (cases "permitted e ty prv csrs \<and> leaf_aligned e lv")
    case True
    have "entry_ok csrs b' va ent"
      unfolding ent_def by (rule entry_ok_view [OF entry_ok_leaf [OF leaf _ eqv] view]) (use True in simp)
    then show ?thesis
      using True M view leaf va tlb_ok_fill [OF ok view va, of ent] by (simp add: ref_translate_def answer_def ent_def)
  next
    case False
    then show ?thesis
      using M leaf va ok by (auto simp: ref_translate_def answer_def)
  qed
qed

lemma entry_ok_dirty: "entry_ok csrs b va e \<Longrightarrow> entry_ok csrs b va (e\<lparr>te_perms := te_perms e OR PTE_D\<rparr>)"
  by (auto simp: entry_ok_def split: option.splits)

lemma translate_hit_refines:
  assumes ok: "tlb_ok csrs m b" and va: "canonical va"
    and hit: "te_tag (mm_tlb m (tlb_index va)) = tlb_key csrs va"
  shows "case translate_paged csrs va ty prv (m, b) of
    (r, m', b') \<Rightarrow> r = answer ty va (ref_translate csrs va ty prv b) \<and> same_view b b' \<and> tlb_ok csrs m' b'"
proof -
  define e where "e = mm_tlb m (tlb_index va)"
  have ent: "entry_ok csrs b va e"
    using ok va hit by (simp add: tlb_ok_def e_def)
  then obtain pte lv tb where leaf: "ref_walk va 3 (push_bit 12 (satp_ppn csrs)) b = Some (pte, lv, tb)"
    and e: "leaf_aligned pte lv" "te_ppn e = leaf_ppn va pte lv" "pte_eqv pte (te_perms e)" "te_pte_addr e = pte_slot va lv tb"
    by (auto simp: entry_ok_def split: option.splits)
  define dirty where "dirty = (ty = Store \<and> te_perms e AND PTE_D = 0)"
  define e' where "e' = (if dirty then e\<lparr>te_perms := te_perms e OR PTE_D\<rparr> else e)"
  define b' where "b' = (if dirty then snd (bus_store (te_pte_addr e') 8 (te_perms e') b) else b)"
  have eqv: "pte_eqv pte (te_perms e')"
    using e(3) by (simp add: e'_def)
  have view: "same_view b b'"
    using update_view [OF leaf eqv] e(4) by (cases dirty) (simp_all add: b'_def e'_def)
  have new: "entry_ok csrs b' va e'"
    using entry_ok_view [OF _ view, of csrs va] ent entry_ok_dirty [OF ent] by (simp add: e'_def)
  have tag: "te_tag e' = tlb_key csrs va"
    using hit by (simp add: e'_def e_def)
  have c: "drop_bit 38 va \<noteq> 0 \<and> drop_bit 38 va \<noteq> 0x3ffffff \<longleftrightarrow> False"
    using va by (auto simp: canonical_def)
  have "translate_paged csrs va ty prv (m, b) =
    (if permitted (te_perms e) ty prv csrs
     then (Inr (push_bit 12 (te_ppn e) OR take_bit 12 va),
           m\<lparr>mm_tlb := (mm_tlb m)(tlb_index va := e'), mm_hits := mm_hits m + 1\<rparr>, b')
     else (Inl (trap_new (page_fault_for ty) va), m, b))"
    using hit unfolding translate_paged_def Let_def split_beta fst_conv snd_conv c if_False
    by (simp add: e'_def b'_def dirty_def e_def and_low_mask)
  then show ?thesis
    using ok view leaf e permitted_eqv [OF e(3)] va tlb_ok_fill [OF ok view va tag new]
    by (simp add: ref_translate_def answer_def)
qed

lemma translate_paged_refines:
  assumes "tlb_ok csrs m b" "walk_clean va 3 (push_bit 12 (satp_ppn csrs)) b"
    "translate_paged csrs va ty prv (m, b) = (r, m', b')"
  shows "r = answer ty va (ref_translate csrs va ty prv b)" "same_view b b'" "tlb_ok csrs m' b'"
proof -
  have "case translate_paged csrs va ty prv (m, b) of
    (r, m', b') \<Rightarrow> r = answer ty va (ref_translate csrs va ty prv b) \<and> same_view b b' \<and> tlb_ok csrs m' b'"
  proof (cases "canonical va")
    case True
    show ?thesis
    proof (cases "te_tag (mm_tlb m (tlb_index va)) = tlb_key csrs va")
      case hit: True
      show ?thesis
        by (rule translate_hit_refines [OF assms(1) True hit])
    next
      case False
      then have "translate_paged csrs va ty prv (m, b) = translate_miss csrs va ty prv (m, b)"
        using True by (auto simp: translate_paged_def canonical_def)
      then show ?thesis
        using translate_miss_refines [OF assms(1,2) True] by simp
    qed
  next
    case False
    then show ?thesis
      using assms(1) by (auto simp: translate_paged_def canonical_def ref_translate_def answer_def)
  qed
  then show "r = answer ty va (ref_translate csrs va ty prv b)" "same_view b b'" "tlb_ok csrs m' b'"
    using assms(3) by simp_all
qed

section \<open>Properties\<close>

text \<open>C1: cached address translation refines translation by the page tables alone: with a cache
  that agrees with the tables, the answer (physical address or page fault with its cause and
  address) is the one of a fresh walk of the tables in memory, the tables are changed in nothing
  but accessed and dirty bits, and the cache still agrees with them.\<close>

theorem translate_refines:
  assumes "prv \<noteq> PRIV_MACHINE" "satp_mode csrs \<noteq> SATP_MODE_BARE" "tlb_ok csrs m b"
    "walk_clean va 3 (push_bit 12 (satp_ppn csrs)) b" "translate csrs va ty prv (m, b) = (r, m', b')"
  shows "r = answer ty va (ref_translate csrs va ty prv b) \<and> same_view b b' \<and> tlb_ok csrs m' b'"
  using assms translate_paged_refines [of csrs m b va ty prv r m' b'] by (simp add: translate_def)

definition sample_tables :: bus where
  "sample_tables = snd (bus_store 0x80000010 8 0x200000df sample_bus)"

definition sample_satp :: csr_file where
  "sample_satp = csr_write SATP 0x8000000000080000 csr_new"

lemma sample_tables_load: "ram_load 0x80000010 8 sample_tables = Some 0x200000df"
  using bm.load_store_same [OF bus_store_ram, of sample_bus "0x80000010" 8 "0x200000df"]
  by (simp add: sample_tables_def take_bit_eq_mask mask_eq_exp_minus_1)

lemma sample_tables_devices: "\<not> has_device_at a sample_tables"
proof -
  have "has_device_at a sample_tables = has_device_at a sample_bus"
    unfolding sample_tables_def by (rule ram_store_devices [OF bus_store_ram]) simp
  then show ?thesis
    by (simp add: has_device_at_def find_device_def sample_bus_def bus_try_new_def dram_try_new_def Let_def)
qed

lemma sample_satp_ppn: "satp_ppn sample_satp = 0x80000" "satp_mode sample_satp = 8"
  by code_simp+

lemma sample_walk:
  "ref_walk 0x80000123 3 0x80000000 sample_tables = Some (0x200000df, 2, 0x80000000)"
  "walk_clean 0x80000123 3 0x80000000 sample_tables"
  using sample_tables_load sample_tables_devices by (simp_all add: numeral_3_eq_3 pte_slot_def)

lemma sample_root: "push_bit 12 (satp_ppn sample_satp) = 0x80000000"
  by (simp add: sample_satp_ppn)

lemma sample_translation: "ref_translate sample_satp 0x80000123 Load PRIV_USER sample_tables = Some 0x80000123"
  using sample_walk(1) sample_root
  by (simp add: ref_translate_def canonical_def leaf_aligned_def leaf_ppn_def permitted_def pte_tests Let_def)

lemma translate_refines_witness:
  "fst (translate sample_satp 0x80000123 Load PRIV_USER (mmu_new, sample_tables)) = Inr 0x80000123"
proof (cases "translate sample_satp 0x80000123 Load PRIV_USER (mmu_new, sample_tables)")
  case (fields r m' b')
  then show ?thesis
    using translate_refines [OF _ _ tlb_ok_flush(2) _ fields] sample_walk(2) sample_root sample_satp_ppn(2)
    by (simp add: sample_translation answer_def)
qed



end
