(* ===== verification/Cpu.thy ===== *)
theory Cpu
  imports Decoder Alu Sv39
begin

text \<open>
  The hart of \<open>src/src/cpu/mod.rs\<close>: registers, mailboxes, translated memory accesses, fetch, the
  decoded-instruction cache and the trap and interrupt machinery. The instructions are in \<open>Exec\<close>
  and \<open>Fp\<close>, the step loop in \<open>Hart\<close>.

  The bus and the mailboxes of all harts are shared between harts by reference in the source; a
  running hart holds them here, and \<open>Platform\<close> hands them from hart to hart. A hart's own mailbox
  is the entry of \<open>c_peers\<close> at its number, which is how \<open>Cpu::new\<close> and \<open>Platform::new\<close> set it up.
  The handles of the clock, the CLINT and the UART point at the ones of the bus record: here they
  say whether they are wired. The trace output and the register dump only write text to the host
  and are left out.
\<close>

section \<open>State\<close>

record mailbox =
  mb_parked :: bool
  mb_pending :: u32
  mb_start_addr :: u64
  mb_start_opaque :: u64
  mb_reservation :: u64

abbreviation (input) MB_IPI :: u32 where "MB_IPI \<equiv> 1"
abbreviation (input) MB_FENCE :: u32 where "MB_FENCE \<equiv> 2"
abbreviation (input) MB_START :: u32 where "MB_START \<equiv> 4"
abbreviation (input) NO_RES :: u64 where "NO_RES \<equiv> NOT 0"
abbreviation (input) DCACHE_SLOTS :: nat where "DCACHE_SLOTS \<equiv> 4096"

definition mailbox_new :: "bool \<Rightarrow> mailbox" where
  "mailbox_new parked =
     \<lparr>mb_parked = parked, mb_pending = 0, mb_start_addr = 0, mb_start_opaque = 0, mb_reservation = NO_RES\<rparr>"

definition send_ipi :: "mailbox \<Rightarrow> mailbox" where
  "send_ipi mb = mb\<lparr>mb_pending := mb_pending mb OR MB_IPI\<rparr>"

definition send_fence :: "mailbox \<Rightarrow> mailbox" where
  "send_fence mb = mb\<lparr>mb_pending := mb_pending mb OR MB_FENCE\<rparr>"

definition send_start :: "u64 \<Rightarrow> u64 \<Rightarrow> mailbox \<Rightarrow> mailbox" where
  "send_start addr opaque mb =
     mb\<lparr>mb_start_addr := addr, mb_start_opaque := opaque, mb_pending := mb_pending mb OR MB_START,
        mb_parked := False\<rparr>"

record decode_entry =
  de_pc :: u64
  de_priv :: u8
  de_inst :: decoded_inst

record cpu =
  c_regs :: "nat \<Rightarrow> u64"
  c_fregs :: "nat \<Rightarrow> u64"
  c_pc :: u64
  c_csrs :: csr_file
  c_priv :: u32
  c_mmu :: mmu
  c_bus :: bus
  c_regfile :: "regfile option"
  c_alu_backend :: "alu_backend option"
  c_next_pc :: u64
  c_reservation_valid :: bool
  c_reservation_addr :: u64
  c_dcache :: "nat \<Rightarrow> decode_entry"
  c_dcache_epoch :: u64
  c_trap_fatal_without_handler :: bool
  c_last_trap :: "trap option"
  c_clock :: bool
  c_clint :: bool
  c_uart :: bool
  c_halted :: bool
  c_sbi_enabled :: bool
  c_sbi_shutdown :: bool
  c_user_quit :: bool
  c_htif_tohost_addr :: u64
  c_htif_tohost_value :: u64
  c_hartid :: u32
  c_peers :: "mailbox list"
  c_idle_on_wfi :: bool
  c_waiting_for_interrupt :: bool
  c_device_touched :: bool
  c_round_start_instret :: u64
  c_instret :: u64
  c_counter_written :: bool
  c_stdout :: "u8 list"

definition cpu_new :: "bus \<Rightarrow> cpu" where
  "cpu_new b =
     \<lparr>c_regs = (\<lambda>i. 0), c_fregs = (\<lambda>i. 0), c_pc = DRAM_BASE, c_csrs = csr_new, c_priv = PRIV_MACHINE,
      c_mmu = mmu_new, c_bus = b, c_regfile = None, c_alu_backend = None, c_next_pc = 0,
      c_reservation_valid = False, c_reservation_addr = 0,
      c_dcache = (\<lambda>i. \<lparr>de_pc = NOT 0, de_priv = 0, de_inst = decoded_inst_default\<rparr>), c_dcache_epoch = 0,
      c_trap_fatal_without_handler = True, c_last_trap = None, c_clock = False, c_clint = False,
      c_uart = False, c_halted = False, c_sbi_enabled = False, c_sbi_shutdown = False,
      c_user_quit = False, c_htif_tohost_addr = 0, c_htif_tohost_value = 0, c_hartid = 0,
      c_peers = [mailbox_new False], c_idle_on_wfi = False, c_waiting_for_interrupt = False,
      c_device_touched = False, c_round_start_instret = 0, c_instret = 0, c_counter_written = False,
      c_stdout = []\<rparr>"

abbreviation own_mailbox :: "cpu \<Rightarrow> mailbox" where
  "own_mailbox c \<equiv> c_peers c ! unat (c_hartid c)"

definition update_mailbox :: "nat \<Rightarrow> (mailbox \<Rightarrow> mailbox) \<Rightarrow> cpu \<Rightarrow> cpu" where
  "update_mailbox i f c = c\<lparr>c_peers := (c_peers c)[i := f (c_peers c ! i)]\<rparr>"

definition set_own :: "(mailbox \<Rightarrow> mailbox) \<Rightarrow> cpu \<Rightarrow> cpu" where
  "set_own f c = update_mailbox (unat (c_hartid c)) f c"

section \<open>Registers and the ALU\<close>

definition read_reg :: "nat \<Rightarrow> cpu \<Rightarrow> u64 \<times> cpu" where
  "read_reg i c =
     (if i = 0 \<or> i \<ge> NUM_REGS then (0, c)
      else (case c_regfile c of
              Some rf \<Rightarrow> (let (v, rf) = rf_read rf i in (v, c\<lparr>c_regfile := Some rf\<rparr>))
            | None \<Rightarrow> (c_regs c i, c)))"

definition write_reg :: "nat \<Rightarrow> u64 \<Rightarrow> cpu \<Rightarrow> cpu" where
  "write_reg i v c =
     (if i = 0 \<or> i \<ge> NUM_REGS then c
      else (case c_regfile c of
              Some rf \<Rightarrow> c\<lparr>c_regfile := Some (rf_write rf i v)\<rparr>
            | None \<Rightarrow> c\<lparr>c_regs := (c_regs c)(i := v)\<rparr>))"

definition alu :: "alu_op \<Rightarrow> u64 \<Rightarrow> u64 \<Rightarrow> cpu \<Rightarrow> u64 \<times> cpu" where
  "alu opr a b c =
     (case c_alu_backend c of
        Some be \<Rightarrow> (let (v, be) = be_exec be opr a b in (v, c\<lparr>c_alu_backend := Some be\<rparr>))
      | None \<Rightarrow> (alu_reference opr a b, c))"

section \<open>Parked and idle harts\<close>

definition parked :: "cpu \<Rightarrow> bool" where
  "parked c = mb_parked (own_mailbox c)"

definition set_parked :: "bool \<Rightarrow> cpu \<Rightarrow> cpu" where
  "set_parked p c = set_own (\<lambda>mb. mb\<lparr>mb_parked := p\<rparr>) c"

definition flush_decode_cache :: "cpu \<Rightarrow> cpu" where
  "flush_decode_cache c = c\<lparr>c_dcache := (\<lambda>i. (c_dcache c i)\<lparr>de_pc := NOT 0\<rparr>)\<rparr>"

definition remote_fence :: "cpu \<Rightarrow> cpu" where
  "remote_fence c = flush_decode_cache (c\<lparr>c_mmu := mmu_flush (c_mmu c)\<rparr>)"

definition clear_reservation :: "cpu \<Rightarrow> cpu" where
  "clear_reservation c = set_own (\<lambda>mb. mb\<lparr>mb_reservation := NO_RES\<rparr>) (c\<lparr>c_reservation_valid := False\<rparr>)"

definition start_at :: "u64 \<Rightarrow> u64 \<Rightarrow> cpu \<Rightarrow> cpu" where
  "start_at addr opaque c =
     (let c = set_parked False c;
          c = c\<lparr>c_waiting_for_interrupt := False, c_priv := PRIV_SUPERVISOR, c_pc := addr,
                c_csrs := csr_write SATP 0 (c_csrs c)\<rparr>;
          st = csr_mstatus (c_csrs c) AND NOT (MSTATUS_SIE OR MSTATUS_SPIE);
          c = c\<lparr>c_csrs := csr_set_mstatus st (c_csrs c)\<rparr>;
          c = write_reg 10 (ucast (c_hartid c)) c;
          c = write_reg 11 opaque c
      in remote_fence (clear_reservation c))"

definition apply_mailbox :: "cpu \<Rightarrow> cpu" where
  "apply_mailbox c =
     (let flags = mb_pending (own_mailbox c) in
      if flags = 0 then c
      else
        (let c = set_own (\<lambda>mb. mb\<lparr>mb_pending := 0\<rparr>) c;
             c = (if flags AND MB_IPI \<noteq> 0 then c\<lparr>c_csrs := raise_interrupt MIP_SSIP (c_csrs c)\<rparr> else c);
             c = (if flags AND MB_FENCE \<noteq> 0 then remote_fence c else c)
         in if flags AND MB_START \<noteq> 0
            then start_at (mb_start_addr (own_mailbox c)) (mb_start_opaque (own_mailbox c)) c
            else c))"

definition runnable :: "cpu \<Rightarrow> bool \<times> cpu" where
  "runnable c =
     (let c = apply_mailbox c in
      if parked c then (False, c)
      else if c_waiting_for_interrupt c then
        (if pending_enabled (c_csrs c) = 0 then (False, c)
         else (True, c\<lparr>c_waiting_for_interrupt := False\<rparr>))
      else (True, c))"

section \<open>Memory\<close>

definition data_privilege :: "cpu \<Rightarrow> u32" where
  "data_privilege c =
     (if c_priv c = PRIV_MACHINE \<and> csr_mstatus (c_csrs c) AND MSTATUS_MPRV \<noteq> 0
      then mstatus_mpp (c_csrs c) else c_priv c)"

definition crosses_page :: "u64 \<Rightarrow> nat \<Rightarrow> bool" where
  "crosses_page vaddr n \<longleftrightarrow> (vaddr AND (PAGE_SIZE - 1)) + of_nat n > PAGE_SIZE"

text \<open>The calls of the MMU and of the bus with the hart's own parts.\<close>

definition hart_translate :: "u64 \<Rightarrow> access_type \<Rightarrow> u32 \<Rightarrow> cpu \<Rightarrow> u64 res \<times> cpu" where
  "hart_translate vaddr ty p c =
     (let (r, (m, b)) = translate (c_csrs c) vaddr ty p (c_mmu c, c_bus c)
      in (r, c\<lparr>c_mmu := m, c_bus := b\<rparr>))"

definition hart_load :: "u64 \<Rightarrow> nat \<Rightarrow> access_type \<Rightarrow> cpu \<Rightarrow> u64 res \<times> cpu" where
  "hart_load pa n ty c = (let (r, b) = bus_load pa n ty (c_bus c) in (r, c\<lparr>c_bus := b\<rparr>))"

definition hart_store :: "u64 \<Rightarrow> nat \<Rightarrow> u64 \<Rightarrow> cpu \<Rightarrow> unit res \<times> cpu" where
  "hart_store pa n v c = (let (r, b) = bus_store pa n v (c_bus c) in (r, c\<lparr>c_bus := b\<rparr>))"

definition note_store :: "u64 \<Rightarrow> nat \<Rightarrow> cpu \<Rightarrow> cpu" where
  "note_store paddr n c =
     (let first = drop_bit 3 paddr; last = drop_bit 3 (paddr + of_nat n - 1) in
      c\<lparr>c_peers := map (\<lambda>i.
          let mb = c_peers c ! i; g = mb_reservation mb in
          if of_nat i = c_hartid c then mb
          else if g \<noteq> NO_RES \<and> g \<ge> first \<and> g \<le> last then mb\<lparr>mb_reservation := NO_RES\<rparr> else mb)
        [0..<length (c_peers c)]\<rparr>)"

fun load_bytes :: "u64 \<Rightarrow> access_type \<Rightarrow> u32 \<Rightarrow> nat list \<Rightarrow> u64 \<Rightarrow> cpu \<Rightarrow> u64 res \<times> cpu" where
  "load_bytes vaddr ty p [] value c = (Inr value, c)"
| "load_bytes vaddr ty p (i # is) value c =
     and_then (hart_translate (vaddr + of_nat i) ty p c) (\<lambda>pa c.
     and_then (hart_load pa 1 ty c) (\<lambda>b c.
     load_bytes vaddr ty p is (value OR push_bit (8 * i) (b AND 0xff)) c))"

definition load_across_pages :: "u64 \<Rightarrow> nat \<Rightarrow> access_type \<Rightarrow> cpu \<Rightarrow> u64 res \<times> cpu" where
  "load_across_pages vaddr n ty c = load_bytes vaddr ty (data_privilege c) [0..<n] 0 c"

fun probe_bytes :: "u64 \<Rightarrow> u32 \<Rightarrow> nat list \<Rightarrow> cpu \<Rightarrow> unit res \<times> cpu" where
  "probe_bytes vaddr p [] c = (Inr (), c)"
| "probe_bytes vaddr p (i # is) c =
     and_then (hart_translate (vaddr + of_nat i) Store p c) (\<lambda>pa c. probe_bytes vaddr p is c)"

fun store_bytes :: "u64 \<Rightarrow> u32 \<Rightarrow> nat list \<Rightarrow> u64 \<Rightarrow> cpu \<Rightarrow> unit res \<times> cpu" where
  "store_bytes vaddr p [] value c = (Inr (), c)"
| "store_bytes vaddr p (i # is) value c =
     and_then (hart_translate (vaddr + of_nat i) Store p c) (\<lambda>pa c.
     and_then (hart_store pa 1 (drop_bit (8 * i) value AND 0xff) c) (\<lambda>u c.
     store_bytes vaddr p is value (if length (c_peers c) > 1 then note_store pa 1 c else c)))"

definition store_across_pages :: "u64 \<Rightarrow> nat \<Rightarrow> u64 \<Rightarrow> cpu \<Rightarrow> unit res \<times> cpu" where
  "store_across_pages vaddr n value c =
     (let p = data_privilege c in
      and_then (probe_bytes vaddr p [0..<n] c) (\<lambda>u c. store_bytes vaddr p [0..<n] value c))"

definition mem_load :: "u64 \<Rightarrow> nat \<Rightarrow> access_type \<Rightarrow> cpu \<Rightarrow> u64 res \<times> cpu" where
  "mem_load vaddr n ty c =
     (if crosses_page vaddr n then load_across_pages vaddr n ty c
      else
        (let p = (if ty = Instruction then c_priv c else data_privilege c) in
         and_then (hart_translate vaddr ty p c) (\<lambda>pa c. hart_load pa n ty c)))"

definition mem_store :: "u64 \<Rightarrow> nat \<Rightarrow> u64 \<Rightarrow> cpu \<Rightarrow> unit res \<times> cpu" where
  "mem_store vaddr n value c =
     (if crosses_page vaddr n then store_across_pages vaddr n value c
      else
        (let p = data_privilege c in
         and_then (hart_translate vaddr Store p c) (\<lambda>pa c.
         and_then (hart_store pa n value c) (\<lambda>u c.
         (Inr (), if length (c_peers c) > 1 then note_store pa n c else c)))))"

section \<open>Fetch\<close>

definition fetch_inst :: "cpu \<Rightarrow> decoded_inst res \<times> cpu" where
  "fetch_inst c =
     (if c_pc c AND 1 \<noteq> 0 then (Inl (trap_new InstructionAddressMisaligned (c_pc c)), c)
      else
        and_then (mem_load (c_pc c) 2 Instruction c) (\<lambda>low c.
        let low = ucast low in
        if \<not> is_32bit_instruction low then (Inr (decode16 low 0), c)
        else
          and_then (mem_load (c_pc c + 2) 2 Instruction c) (\<lambda>high c.
          (Inr (decode16 low (ucast high)), c))))"

definition dcache_index :: "u64 \<Rightarrow> nat" where
  "dcache_index pc = unat (drop_bit 1 pc AND 0xfff)"

definition cache_fill :: "decoded_inst \<Rightarrow> cpu \<Rightarrow> cpu" where
  "cache_fill inst c =
     (if i_length inst = 4 \<and> c_pc c AND (PAGE_SIZE - 1) = PAGE_SIZE - 2 then c
      else
        (case hart_translate (c_pc c) Instruction (c_priv c) c of
           (Inl t, c) \<Rightarrow> c
         | (Inr pa, c) \<Rightarrow>
             if pa < DRAM_BASE then c
             else
               (let offset = pa - DRAM_BASE; b = c_bus c in
                if \<not> in_range offset (unat (i_length inst)) (b_ram b) then c
                else c\<lparr>c_bus := b\<lparr>b_ram := mark_code_page offset (b_ram b)\<rparr>,
                       c_dcache := (c_dcache c)(dcache_index (c_pc c) :=
                         \<lparr>de_pc = c_pc c, de_priv = ucast (c_priv c), de_inst = inst\<rparr>)\<rparr>)))"

section \<open>Traps and interrupts\<close>

definition handler_installed_for :: "trap \<Rightarrow> cpu \<Rightarrow> bool" where
  "handler_installed_for t c =
     (let to_supervisor = (c_priv c \<le> PRIV_SUPERVISOR \<and> delegated_exception (trap_cause_code t) (c_csrs c))
      in csr_read (if to_supervisor then STVEC else MTVEC) (c_csrs c) \<noteq> 0)"

definition set_flag :: "bool \<Rightarrow> u64 \<Rightarrow> u64 \<Rightarrow> u64" where
  "set_flag on m w = (if on then w OR m else w AND NOT m)"

definition enter_trap :: "u64 \<Rightarrow> u64 \<Rightarrow> u64 \<Rightarrow> bool \<Rightarrow> cpu \<Rightarrow> cpu" where
  "enter_trap cause_code tval epc is_interrupt c =
     (let raw_cause = cause_code AND NOT (push_bit 63 1);
          deleg = (if is_interrupt then delegated_interrupt raw_cause (c_csrs c)
                   else delegated_exception raw_cause (c_csrs c));
          to_supervisor = (c_priv c \<le> PRIV_SUPERVISOR \<and> deleg);
          status = csr_mstatus (c_csrs c);
          (target, c) =
            (if to_supervisor then
               (let csrs = csr_write STVAL tval (csr_write SCAUSE cause_code (csr_write SEPC epc (c_csrs c)));
                    sie = (status AND MSTATUS_SIE \<noteq> 0);
                    status = set_flag sie MSTATUS_SPIE status;
                    status = status AND NOT MSTATUS_SIE;
                    status = set_flag (c_priv c = PRIV_SUPERVISOR) MSTATUS_SPP status;
                    csrs = csr_set_mstatus status csrs
                in (csr_read STVEC csrs, c\<lparr>c_csrs := csrs, c_priv := PRIV_SUPERVISOR\<rparr>))
             else
               (let csrs = csr_write MTVAL tval (csr_write MCAUSE cause_code (csr_write MEPC epc (c_csrs c)));
                    mie = (status AND MSTATUS_MIE \<noteq> 0);
                    status = set_flag mie MSTATUS_MPIE status;
                    status = status AND NOT MSTATUS_MIE;
                    status = (status AND NOT MSTATUS_MPP) OR push_bit MSTATUS_MPP_SHIFT (ucast (c_priv c));
                    csrs = csr_set_mstatus status csrs
                in (csr_read MTVEC csrs, c\<lparr>c_csrs := csrs, c_priv := PRIV_MACHINE\<rparr>)));
          base = target AND NOT MTVEC_MODE_MASK;
          mode = target AND MTVEC_MODE_MASK;
          c = c\<lparr>c_pc := (if mode = MTVEC_MODE_VECTORED \<and> is_interrupt
                        then base + 4 * (cause_code AND 0x3f) else base)\<rparr>
      in clear_reservation c)"

definition take_trap :: "trap \<Rightarrow> cpu \<Rightarrow> cpu" where
  "take_trap t c = enter_trap (trap_cause_code t) (t_tval t) (c_pc c) False c"

definition take_interrupt :: "interrupt \<Rightarrow> cpu \<Rightarrow> cpu" where
  "take_interrupt i c = enter_trap (intr_cause_code i) 0 (c_pc c) True c"

definition handle_trap_or_stop :: "trap \<Rightarrow> cpu \<Rightarrow> unit res \<times> cpu" where
  "handle_trap_or_stop t c =
     (let c = c\<lparr>c_last_trap := Some t\<rparr> in
      if c_trap_fatal_without_handler c \<and> \<not> handler_installed_for t c then (Inl t, c)
      else (Inr (), take_trap t c))"

definition next_interrupt :: "cpu \<Rightarrow> interrupt option" where
  "next_interrupt c =
     (let ready = pending_enabled (c_csrs c) in
      if ready = 0 then None
      else
        (let mideleg = csr_read MIDELEG (c_csrs c);
             m_enabled = (c_priv c < PRIV_MACHINE \<or> mstatus_mie (c_csrs c));
             s_enabled = (c_priv c < PRIV_SUPERVISOR \<or> c_priv c = PRIV_SUPERVISOR \<and> mstatus_sie (c_csrs c));
             m_ready = ready AND NOT mideleg;
             s_ready = ready AND mideleg;
             candidates = (if m_enabled \<and> m_ready \<noteq> 0 then m_ready
                           else if s_enabled \<and> s_ready \<noteq> 0 then s_ready else 0)
         in if candidates = 0 then None
            else if candidates AND MIP_MEIP \<noteq> 0 then Some MachineExternal
            else if candidates AND MIP_MSIP \<noteq> 0 then Some MachineSoftware
            else if candidates AND MIP_MTIP \<noteq> 0 then Some MachineTimer
            else if candidates AND MIP_SEIP \<noteq> 0 then Some SupervisorExternal
            else if candidates AND MIP_SSIP \<noteq> 0 then Some SupervisorSoftware
            else if candidates AND MIP_STIP \<noteq> 0 then Some SupervisorTimer
            else None))"

definition set_branch_target :: "u64 \<Rightarrow> cpu \<Rightarrow> unit res \<times> cpu" where
  "set_branch_target target c =
     (if target AND 1 \<noteq> 0 then (Inl (trap_new InstructionAddressMisaligned target), c)
      else (Inr (), c\<lparr>c_next_pc := target\<rparr>))"

end
