(* ===== verification/Softfloat.thy ===== *)
theory Softfloat
  imports Csr Alu
begin

text \<open>
  The software floating point of \<open>src/src/softfloat.rs\<close>. Bit patterns are 64-bit words. The
  128-bit significands are natural numbers, with the truncation of a left shift written out;
  exponents, at most a few thousand in magnitude for every operand the functions can be given,
  are integers; shift counts are natural numbers.
\<close>

section \<open>Formats and unpacking\<close>

datatype rm = Rne | Rtz | Rdn | Rup | Rmm

definition rm_from_bits :: "u32 \<Rightarrow> rm option" where
  "rm_from_bits b =
     (if b = 0 then Some Rne else if b = 1 then Some Rtz else if b = 2 then Some Rdn
      else if b = 3 then Some Rup else if b = 4 then Some Rmm else None)"

record fmt =
  exp_bits :: nat
  frac_bits :: nat

definition F32 :: fmt where "F32 = \<lparr>exp_bits = 8, frac_bits = 23\<rparr>"
definition F64 :: fmt where "F64 = \<lparr>exp_bits = 11, frac_bits = 52\<rparr>"

definition bias :: "fmt \<Rightarrow> int" where
  "bias f = 2 ^ (exp_bits f - 1) - 1"

definition exp_max :: "fmt \<Rightarrow> u64" where
  "exp_max f = push_bit (exp_bits f) 1 - 1"

definition frac_mask :: "fmt \<Rightarrow> u64" where
  "frac_mask f = push_bit (frac_bits f) 1 - 1"

definition sign_bit :: "fmt \<Rightarrow> u64" where
  "sign_bit f = push_bit (exp_bits f + frac_bits f) 1"

definition prec :: "fmt \<Rightarrow> nat" where
  "prec f = frac_bits f + 1"

definition canonical_nan :: "fmt \<Rightarrow> u64" where
  "canonical_nan f = push_bit (frac_bits f) (exp_max f) OR push_bit (frac_bits f - 1) 1"

definition inf :: "fmt \<Rightarrow> bool \<Rightarrow> u64" where
  "inf f sign = (if sign then sign_bit f else 0) OR push_bit (frac_bits f) (exp_max f)"

definition zero :: "fmt \<Rightarrow> bool \<Rightarrow> u64" where
  "zero f sign = (if sign then sign_bit f else 0)"

definition max_finite :: "fmt \<Rightarrow> bool \<Rightarrow> u64" where
  "max_finite f sign =
     (if sign then sign_bit f else 0) OR (push_bit (frac_bits f) (exp_max f - 1) OR frac_mask f)"

datatype fp_class = CZero | CInf | CNan bool | CFinite u64 int

record unpacked =
  u_sign :: bool
  u_class :: fp_class

definition unpack :: "u64 \<Rightarrow> fmt \<Rightarrow> unpacked" where
  "unpack bits f =
     (let sign = (bits AND sign_bit f \<noteq> 0);
          e = drop_bit (frac_bits f) bits AND exp_max f;
          frac = bits AND frac_mask f
      in \<lparr>u_sign = sign,
          u_class =
            (if e = exp_max f then
               (if frac = 0 then CInf else CNan (frac AND push_bit (frac_bits f - 1) 1 = 0))
             else if e = 0 then
               (if frac = 0 then CZero else CFinite frac (1 - bias f - int (frac_bits f)))
             else CFinite (frac OR push_bit (frac_bits f) 1) (uint e - bias f - int (frac_bits f)))\<rparr>)"

definition is_nan :: "u64 \<Rightarrow> fmt \<Rightarrow> bool" where
  "is_nan bits f = (case u_class (unpack bits f) of CNan s \<Rightarrow> True | _ \<Rightarrow> False)"

definition is_snan :: "u64 \<Rightarrow> fmt \<Rightarrow> bool" where
  "is_snan bits f = (case u_class (unpack bits f) of CNan s \<Rightarrow> s | _ \<Rightarrow> False)"

section \<open>Rounding\<close>

abbreviation (input) T_POS :: nat where "T_POS \<equiv> 120"

definition msb128 :: "nat \<Rightarrow> nat" where
  "msb128 n = 127 - leading_zeros (of_nat n :: 128 word)"

definition shl128 :: "nat \<Rightarrow> nat \<Rightarrow> nat" where
  "shl128 n k = take_bit 128 (push_bit k n)"

definition round_inc :: "rm \<Rightarrow> bool \<Rightarrow> bool \<Rightarrow> bool \<Rightarrow> bool \<Rightarrow> bool" where
  "round_inc m sign lsb half rest =
     (let inexact = (half \<or> rest) in
      case m of
        Rne \<Rightarrow> half \<and> (rest \<or> lsb)
      | Rtz \<Rightarrow> False
      | Rdn \<Rightarrow> sign \<and> inexact
      | Rup \<Rightarrow> \<not> sign \<and> inexact
      | Rmm \<Rightarrow> half)"

definition round_up :: "rm \<Rightarrow> bool \<Rightarrow> nat \<Rightarrow> bool \<Rightarrow> bool \<Rightarrow> nat" where
  "round_up m sign kept half rest = kept + of_bool (round_inc m sign (odd kept) half rest)"

definition split_sig :: "nat \<Rightarrow> bool \<Rightarrow> nat \<Rightarrow> nat \<times> bool \<times> bool" where
  "split_sig sig_n sticky shift =
     (if shift \<ge> T_POS + 2 then (0, False, True)
      else
        (let kept = drop_bit shift sig_n;
             dropped = take_bit shift sig_n;
             half = 2 ^ (shift - 1)
         in (kept, dropped AND half \<noteq> 0, dropped AND (half - 1) \<noteq> 0 \<or> sticky)))"

definition norm_sig :: "nat \<Rightarrow> bool \<Rightarrow> nat \<times> bool" where
  "norm_sig sig sticky =
     (let msb = msb128 sig in
      if msb > T_POS then
        (let k = msb - T_POS in (drop_bit k sig, sticky \<or> take_bit k sig \<noteq> 0))
      else (shl128 sig (T_POS - msb), sticky))"

definition pack_normal :: "bool \<Rightarrow> int \<Rightarrow> nat \<Rightarrow> u64 \<Rightarrow> fmt \<Rightarrow> rm \<Rightarrow> u64 \<times> u64" where
  "pack_normal sign biased kept flags f m =
     (let (k, be) = (if kept = 2 ^ prec f then (drop_bit 1 kept, biased + 1) else (kept, biased)) in
      if of_int be \<ge> exp_max f then
        (let to_inf = (case m of Rne \<Rightarrow> True | Rmm \<Rightarrow> True | Rtz \<Rightarrow> False | Rdn \<Rightarrow> sign | Rup \<Rightarrow> \<not> sign)
         in (if to_inf then inf f sign else max_finite f sign, flags OR (FFLAG_OF OR FFLAG_NX)))
      else
        ((if sign then sign_bit f else 0) OR (push_bit (frac_bits f) (of_int be) OR (of_nat k AND frac_mask f)),
         flags))"

definition round_pack_pos :: "bool \<Rightarrow> int \<Rightarrow> nat \<Rightarrow> bool \<Rightarrow> fmt \<Rightarrow> rm \<Rightarrow> u64 \<times> u64" where
  "round_pack_pos sign exp sig sticky f m =
     (let msb = msb128 sig;
          (sig_n, sticky) = norm_sig sig sticky;
          e2 = exp + int msb - int T_POS;
          e_lead = e2 + int T_POS;
          emin = 1 - bias f;
          biased = e_lead + bias f;
          base_shift = T_POS + 1 - prec f;
          shift = (if biased \<ge> 1 then base_shift else base_shift + nat (1 - biased));
          (kept0, half, rest) = split_sig sig_n sticky shift;
          inexact = (half \<or> rest);
          kept = round_up m sign kept0 half rest;
          flags = (if inexact then FFLAG_NX else 0)
      in if biased \<ge> 1 then pack_normal sign biased kept flags f m
         else
           (let (k_p, half_p, rest_p) = split_sig sig_n sticky base_shift;
                rounded_p = round_up m sign k_p half_p rest_p;
                reaches_normal = (e_lead = emin - 1 \<and> rounded_p = 2 ^ prec f);
                flags = (if inexact \<and> \<not> reaches_normal then flags OR FFLAG_UF else flags)
            in ((if sign then sign_bit f else 0) OR of_nat kept, flags)))"

definition round_pack :: "bool \<Rightarrow> int \<Rightarrow> nat \<Rightarrow> bool \<Rightarrow> fmt \<Rightarrow> rm \<Rightarrow> u64 \<times> u64" where
  "round_pack sign exp sig sticky f m =
     (if sig = 0 then round_pack_pos sign (- 100000) 1 False f m
      else round_pack_pos sign exp sig sticky f m)"

definition invalid :: "fmt \<Rightarrow> u64 \<times> u64" where
  "invalid f = (canonical_nan f, FFLAG_NV)"

definition nan_result :: "unpacked \<Rightarrow> unpacked \<Rightarrow> fmt \<Rightarrow> (u64 \<times> u64) option" where
  "nan_result a b f =
     (let nan = (\<lambda>u. case u_class u of CNan s \<Rightarrow> True | _ \<Rightarrow> False);
          snan = (\<lambda>u. case u_class u of CNan s \<Rightarrow> s | _ \<Rightarrow> False)
      in if \<not> nan a \<and> \<not> nan b then None
         else Some (canonical_nan f, if snan a \<or> snan b then FFLAG_NV else 0))"

section \<open>Arithmetic\<close>

definition norm_exact :: "bool \<times> nat \<times> int \<Rightarrow> bool \<times> nat \<times> int" where
  "norm_exact x =
     (let (s, sig, e) = x in
      if sig = 0 then (s, 0, - 1073741824)
      else (let msb = msb128 sig in (s, shl128 sig (T_POS - msb), e - int (T_POS - msb))))"

definition add_exact :: "bool \<times> nat \<times> int \<Rightarrow> bool \<times> nat \<times> int \<Rightarrow> (bool \<times> nat \<times> int \<times> bool) option" where
  "add_exact x y =
     (let (sa, ma, ea) = norm_exact x;
          (sb, mb, eb) = norm_exact y;
          ((sB, mB, eB), (sS, mS, eS)) =
            (if ea > eb \<or> ea = eb \<and> ma \<ge> mb then ((sa, ma, ea), (sb, mb, eb))
             else ((sb, mb, eb), (sa, ma, ea)))
      in if mS = 0 then (if mB = 0 then None else Some (sB, mB, eB, False))
         else
           (let diff = nat (eB - eS);
                (aligned, sticky) =
                  (if diff \<ge> 127 then (0, True) else (drop_bit diff mS, take_bit diff mS \<noteq> 0))
            in if sB = sS then Some (sB, mB + aligned, eB, sticky)
               else
                 (let diff_sig = mB - aligned;
                      diff_sig = (if sticky then diff_sig - 1 else diff_sig)
                  in if diff_sig = 0 \<and> \<not> sticky then None else Some (sB, diff_sig, eB, sticky))))"

definition zero_sum_sign :: "bool \<Rightarrow> bool \<Rightarrow> rm \<Rightarrow> bool" where
  "zero_sum_sign a b m = (if a = b then a else m = Rdn)"

definition add_signed :: "u64 \<Rightarrow> u64 \<Rightarrow> bool \<Rightarrow> fmt \<Rightarrow> rm \<Rightarrow> u64 \<times> u64" where
  "add_signed a_bits b_bits negate_b f m =
     (let a = unpack a_bits f;
          b = unpack b_bits f;
          b = b\<lparr>u_sign := (u_sign b \<noteq> negate_b)\<rparr>
      in case nan_result a b f of
           Some r \<Rightarrow> r
         | None \<Rightarrow>
             (case (u_class a, u_class b) of
                (CInf, CInf) \<Rightarrow> if u_sign a \<noteq> u_sign b then invalid f else (inf f (u_sign a), 0)
              | (CInf, _) \<Rightarrow> (inf f (u_sign a), 0)
              | (_, CInf) \<Rightarrow> (inf f (u_sign b), 0)
              | (CZero, CZero) \<Rightarrow> (zero f (zero_sum_sign (u_sign a) (u_sign b) m), 0)
              | (CZero, CFinite s e) \<Rightarrow> (if negate_b then b_bits XOR sign_bit f else b_bits, 0)
              | (CFinite s e, CZero) \<Rightarrow> (a_bits, 0)
              | (CFinite sa ea, CFinite sb eb) \<Rightarrow>
                  (case add_exact (u_sign a, unat sa, ea) (u_sign b, unat sb, eb) of
                     None \<Rightarrow> (zero f (m = Rdn), 0)
                   | Some (s, sig, e, st) \<Rightarrow> round_pack s e sig st f m)
              | _ \<Rightarrow> invalid f))"

definition fadd :: "u64 \<Rightarrow> u64 \<Rightarrow> fmt \<Rightarrow> rm \<Rightarrow> u64 \<times> u64" where
  "fadd a b f m = add_signed a b False f m"

definition fsub :: "u64 \<Rightarrow> u64 \<Rightarrow> fmt \<Rightarrow> rm \<Rightarrow> u64 \<times> u64" where
  "fsub a b f m = add_signed a b True f m"

definition fmul :: "u64 \<Rightarrow> u64 \<Rightarrow> fmt \<Rightarrow> rm \<Rightarrow> u64 \<times> u64" where
  "fmul a_bits b_bits f m =
     (let a = unpack a_bits f; b = unpack b_bits f in
      case nan_result a b f of
        Some r \<Rightarrow> r
      | None \<Rightarrow>
          (let sign = (u_sign a \<noteq> u_sign b) in
           case (u_class a, u_class b) of
             (CInf, CZero) \<Rightarrow> invalid f
           | (CZero, CInf) \<Rightarrow> invalid f
           | (CInf, _) \<Rightarrow> (inf f sign, 0)
           | (_, CInf) \<Rightarrow> (inf f sign, 0)
           | (CZero, _) \<Rightarrow> (zero f sign, 0)
           | (_, CZero) \<Rightarrow> (zero f sign, 0)
           | (CFinite sa ea, CFinite sb eb) \<Rightarrow> round_pack sign (ea + eb) (unat sa * unat sb) False f m
           | _ \<Rightarrow> invalid f))"

definition fdiv :: "u64 \<Rightarrow> u64 \<Rightarrow> fmt \<Rightarrow> rm \<Rightarrow> u64 \<times> u64" where
  "fdiv a_bits b_bits f m =
     (let a = unpack a_bits f; b = unpack b_bits f in
      case nan_result a b f of
        Some r \<Rightarrow> r
      | None \<Rightarrow>
          (let sign = (u_sign a \<noteq> u_sign b) in
           case (u_class a, u_class b) of
             (CInf, CInf) \<Rightarrow> invalid f
           | (CZero, CZero) \<Rightarrow> invalid f
           | (CInf, _) \<Rightarrow> (inf f sign, 0)
           | (_, CInf) \<Rightarrow> (zero f sign, 0)
           | (CZero, _) \<Rightarrow> (zero f sign, 0)
           | (_, CZero) \<Rightarrow> (inf f sign, FFLAG_DZ)
           | (CFinite sa ea, CFinite sb eb) \<Rightarrow>
               (let la = leading_zeros sa; lb = leading_zeros sb;
                    sa = push_bit la sa; sb = push_bit lb sb;
                    ea = ea - int la; eb = eb - int lb;
                    num = unat sa * 2 ^ 64;
                    q = num div unat sb;
                    r = num mod unat sb
                in round_pack sign (ea - eb - 64) q (r \<noteq> 0) f m)
           | _ \<Rightarrow> invalid f))"

function isqrt_loop :: "nat \<Rightarrow> nat \<Rightarrow> nat" where
  "isqrt_loop n x = (let y = (x + n div x) div 2 in if y \<ge> x then x else isqrt_loop n y)"
  by auto
termination by (relation "measure snd") auto

definition isqrt :: "nat \<Rightarrow> nat" where
  "isqrt n =
     (if n = 0 then 0
      else isqrt_loop n (2 ^ ((128 - leading_zeros (of_nat n :: 128 word) + 1) div 2)))"

definition fsqrt :: "u64 \<Rightarrow> fmt \<Rightarrow> rm \<Rightarrow> u64 \<times> u64" where
  "fsqrt a_bits f m =
     (let a = unpack a_bits f in
      case u_class a of
        CNan signalling \<Rightarrow> (canonical_nan f, if signalling then FFLAG_NV else 0)
      | CZero \<Rightarrow> (a_bits, 0)
      | CInf \<Rightarrow> if u_sign a then invalid f else (inf f False, 0)
      | CFinite sig exp \<Rightarrow>
          if u_sign a then invalid f
          else
            (let s = unat sig; e = exp;
                 bits = 128 - leading_zeros (of_nat s :: 128 word);
                 (s, e) = (if bits < 53 then
                             (let shift = (53 - bits + 1) div 2 * 2 in (shl128 s shift, e - int shift))
                           else (s, e));
                 (s, e) = (if odd e then (shl128 s 1, e - 1) else (s, e));
                 scaled = shl128 s (2 * 36);
                 r = isqrt scaled;
                 exact = (r * r = scaled)
             in round_pack False (e div 2 - 36) r (\<not> exact) f m))"

definition fma :: "u64 \<Rightarrow> u64 \<Rightarrow> u64 \<Rightarrow> fmt \<Rightarrow> rm \<Rightarrow> u64 \<times> u64" where
  "fma a_bits b_bits c_bits f m =
     (let a = unpack a_bits f; b = unpack b_bits f; c = unpack c_bits f;
          nan = (\<lambda>u. case u_class u of CNan s \<Rightarrow> True | _ \<Rightarrow> False);
          snan = (\<lambda>u. case u_class u of CNan s \<Rightarrow> s | _ \<Rightarrow> False);
          any_nan = list_ex nan [a, b, c];
          any_snan = list_ex snan [a, b, c];
          inf_times_zero = (u_class a = CInf \<and> u_class b = CZero \<or> u_class a = CZero \<and> u_class b = CInf)
      in if inf_times_zero then invalid f
         else if any_nan then (canonical_nan f, if any_snan then FFLAG_NV else 0)
         else
           (let psign = (u_sign a \<noteq> u_sign b) in
            if u_class a = CInf \<or> u_class b = CInf then
              (if u_class c = CInf \<and> u_sign c \<noteq> psign then invalid f else (inf f psign, 0))
            else if u_class c = CInf then (inf f (u_sign c), 0)
            else
              (let prod = (case (u_class a, u_class b) of
                             (CFinite sa ea, CFinite sb eb) \<Rightarrow> Some (unat sa * unat sb, ea + eb)
                           | _ \<Rightarrow> None)
               in case (prod, u_class c) of
                    (None, CZero) \<Rightarrow> (zero f (zero_sum_sign psign (u_sign c) m), 0)
                  | (None, _) \<Rightarrow> (c_bits, 0)
                  | (Some (psig, pexp), CZero) \<Rightarrow> round_pack psign pexp psig False f m
                  | (Some (psig, pexp), CFinite sc ec) \<Rightarrow>
                      (case add_exact (psign, psig, pexp) (u_sign c, unat sc, ec) of
                         None \<Rightarrow> (zero f (m = Rdn), 0)
                       | Some (s, sig, e, st) \<Rightarrow> round_pack s e sig st f m)
                  | _ \<Rightarrow> invalid f)))"

definition fconvert :: "u64 \<Rightarrow> fmt \<Rightarrow> fmt \<Rightarrow> rm \<Rightarrow> u64 \<times> u64" where
  "fconvert a_bits src dst m =
     (let a = unpack a_bits src in
      case u_class a of
        CNan signalling \<Rightarrow> (canonical_nan dst, if signalling then FFLAG_NV else 0)
      | CInf \<Rightarrow> (inf dst (u_sign a), 0)
      | CZero \<Rightarrow> (zero dst (u_sign a), 0)
      | CFinite sig exp \<Rightarrow> round_pack (u_sign a) exp (unat sig) False dst m)"

definition from_int :: "bool \<Rightarrow> u64 \<Rightarrow> fmt \<Rightarrow> rm \<Rightarrow> u64 \<times> u64" where
  "from_int negative magnitude f m =
     (if magnitude = 0 then (zero f False, 0)
      else round_pack negative 0 (unat magnitude) False f m)"

definition int_parts :: "u64 \<Rightarrow> int \<Rightarrow> nat \<times> bool \<times> bool" where
  "int_parts sig exp =
     (if exp \<ge> 0 then (unat sig * 2 ^ nat exp, False, False)
      else
        (let shift = nat (- exp) in
         if shift \<ge> 128 then (0, False, True)
         else
           (let dropped = take_bit shift (unat sig); h = 2 ^ (shift - 1)
            in (drop_bit shift (unat sig), dropped AND h \<noteq> 0, dropped AND (h - 1) \<noteq> 0))))"

definition to_int :: "u64 \<Rightarrow> fmt \<Rightarrow> rm \<Rightarrow> nat \<Rightarrow> bool \<Rightarrow> u64 \<times> u64" where
  "to_int a_bits f m bits is_signed =
     (let max_pos = (if bits = 32 then (if is_signed then 0x7fffffff else 0xffffffff)
                     else if is_signed then 0x7fffffffffffffff else 0xffffffffffffffff);
          min_neg = (if is_signed then (if bits = 32 then 0xffffffff80000000 else 0x8000000000000000) else 0);
          a = unpack a_bits f
      in case u_class a of
           CNan s \<Rightarrow> (max_pos, FFLAG_NV)
         | CInf \<Rightarrow> (if u_sign a then min_neg else max_pos, FFLAG_NV)
         | CZero \<Rightarrow> (0, 0)
         | CFinite sig exp \<Rightarrow>
             if exp > 70 then (if u_sign a then min_neg else max_pos, FFLAG_NV)
             else
               (let sign = u_sign a;
                    (whole, half, rest) = int_parts sig exp;
                    inexact = (half \<or> rest);
                    whole = whole + of_bool (round_inc m sign (odd whole) half rest);
                    (fits, value) =
                      (if sign then
                         (if is_signed then (whole \<le> nat \<bar>sint min_neg\<bar>, - of_nat whole) else (whole = 0, 0))
                       else (whole \<le> unat max_pos, of_nat whole))
                in if \<not> fits then (if sign then min_neg else max_pos, FFLAG_NV)
                   else (value, if inexact then FFLAG_NX else 0)))"

definition order_key :: "u64 \<Rightarrow> fmt \<Rightarrow> int" where
  "order_key bits f =
     (let mag = uint (bits AND NOT (sign_bit f)) in if bits AND sign_bit f \<noteq> 0 then - mag else mag)"

definition fcompare :: "u64 \<Rightarrow> u64 \<Rightarrow> fmt \<Rightarrow> int" where
  "fcompare a b f =
     (let ka = order_key a f; kb = order_key b f in of_bool (ka > kb) - of_bool (ka < kb))"

end
