(* ===== verification/Fp.thy ===== *)
theory Fp
  imports Cpu Softfloat
begin

text \<open>
  The floating-point instructions of \<open>src/src/cpu/fp.rs\<close>: NaN boxing, classification, the guards of
  the floating-point unit and one definition per group of operations. The arithmetic is
  \<open>Softfloat\<close>.
\<close>

section \<open>Boxing and classification\<close>

abbreviation (input) CANONICAL_NAN_F32 :: u32 where "CANONICAL_NAN_F32 \<equiv> 0x7fc00000"

definition nan_box :: "u32 \<Rightarrow> u64" where
  "nan_box single = 0xffffffff00000000 OR ucast single"

definition nan_unbox :: "u64 \<Rightarrow> u32" where
  "nan_unbox reg = (if drop_bit 32 reg = 0xffffffff then ucast reg else CANONICAL_NAN_F32)"

abbreviation (input) FCLASS_NEG_INF :: u64 where "FCLASS_NEG_INF \<equiv> 1"
abbreviation (input) FCLASS_NEG_NORMAL :: u64 where "FCLASS_NEG_NORMAL \<equiv> 2"
abbreviation (input) FCLASS_NEG_SUBNORM :: u64 where "FCLASS_NEG_SUBNORM \<equiv> 4"
abbreviation (input) FCLASS_NEG_ZERO :: u64 where "FCLASS_NEG_ZERO \<equiv> 8"
abbreviation (input) FCLASS_POS_ZERO :: u64 where "FCLASS_POS_ZERO \<equiv> 16"
abbreviation (input) FCLASS_POS_SUBNORM :: u64 where "FCLASS_POS_SUBNORM \<equiv> 32"
abbreviation (input) FCLASS_POS_NORMAL :: u64 where "FCLASS_POS_NORMAL \<equiv> 64"
abbreviation (input) FCLASS_POS_INF :: u64 where "FCLASS_POS_INF \<equiv> 128"
abbreviation (input) FCLASS_SIGNALLING :: u64 where "FCLASS_SIGNALLING \<equiv> 256"
abbreviation (input) FCLASS_QUIET_NAN :: u64 where "FCLASS_QUIET_NAN \<equiv> 512"

definition fclass :: "u64 \<Rightarrow> fmt \<Rightarrow> u64" where
  "fclass bits f =
     (let negative = (drop_bit (exp_bits f + frac_bits f) bits \<noteq> 0);
          e_max = push_bit (exp_bits f) 1 - 1;
          exponent = drop_bit (frac_bits f) bits AND e_max;
          mantissa = bits AND (push_bit (frac_bits f) 1 - 1)
      in if exponent = e_max then
           (if mantissa = 0 then (if negative then FCLASS_NEG_INF else FCLASS_POS_INF)
            else
              (let quiet_bit = push_bit (frac_bits f - 1) 1
               in if mantissa AND quiet_bit \<noteq> 0 then FCLASS_QUIET_NAN else FCLASS_SIGNALLING))
         else if exponent = 0 then
           (if mantissa = 0 then (if negative then FCLASS_NEG_ZERO else FCLASS_POS_ZERO)
            else if negative then FCLASS_NEG_SUBNORM else FCLASS_POS_SUBNORM)
         else if negative then FCLASS_NEG_NORMAL else FCLASS_POS_NORMAL)"

section \<open>Instructions\<close>

definition illegal :: "decoded_inst \<Rightarrow> trap" where
  "illegal inst = trap_new IllegalInstruction (ucast (i_encoded inst))"

definition require_fpu :: "decoded_inst \<Rightarrow> cpu \<Rightarrow> unit res" where
  "require_fpu inst c = (if \<not> fpu_enabled (c_csrs c) then Inl (illegal inst) else Inr ())"

definition write_freg :: "nat \<Rightarrow> u64 \<Rightarrow> cpu \<Rightarrow> cpu" where
  "write_freg i v c = c\<lparr>c_fregs := (c_fregs c)(i := v), c_csrs := mark_fpu_dirty (c_csrs c)\<rparr>"

definition rounding :: "decoded_inst \<Rightarrow> cpu \<Rightarrow> rm res" where
  "rounding inst c =
     (let bits = (if i_funct3 inst = FRM_DYN then csr_rounding_mode (c_csrs c) else i_funct3 inst) in
      case rm_from_bits bits of Some m \<Rightarrow> Inr m | None \<Rightarrow> Inl (illegal inst))"

definition execute_load_fp :: "decoded_inst \<Rightarrow> cpu \<Rightarrow> unit res \<times> cpu" where
  "execute_load_fp inst c =
     and_then (require_fpu inst c, c) (\<lambda>u c.
     let (rs1, c) = read_reg (i_rs1 inst) c; addr = rs1 + i_imm inst in
     if i_funct3 inst = 0x2 then
       and_then (mem_load addr 4 Load c) (\<lambda>v c. (Inr (), write_freg (i_rd inst) (nan_box (ucast v)) c))
     else if i_funct3 inst = 0x3 then
       and_then (mem_load addr 8 Load c) (\<lambda>v c. (Inr (), write_freg (i_rd inst) v c))
     else (Inl (illegal inst), c))"

definition execute_store_fp :: "decoded_inst \<Rightarrow> cpu \<Rightarrow> unit res \<times> cpu" where
  "execute_store_fp inst c =
     and_then (require_fpu inst c, c) (\<lambda>u c.
     let (rs1, c) = read_reg (i_rs1 inst) c; addr = rs1 + i_imm inst in
     if i_funct3 inst = 0x2 then mem_store addr 4 (c_fregs c (i_rs2 inst) AND 0xffffffff) c
     else if i_funct3 inst = 0x3 then mem_store addr 8 (c_fregs c (i_rs2 inst)) c
     else (Inl (illegal inst), c))"

definition box_for :: "bool \<Rightarrow> u64 \<Rightarrow> u64" where
  "box_for is_double bits = (if is_double then bits else nan_box (ucast bits))"

definition unbox_for :: "bool \<Rightarrow> u64 \<Rightarrow> u64" where
  "unbox_for is_double bits = (if is_double then bits else ucast (nan_unbox bits))"

definition put :: "decoded_inst \<Rightarrow> bool \<Rightarrow> u64 \<times> u64 \<Rightarrow> cpu \<Rightarrow> unit res \<times> cpu" where
  "put inst is_double r c =
     (let (bits, flags) = r; c = c\<lparr>c_csrs := raise_fflags flags (c_csrs c)\<rparr>
      in (Inr (), write_freg (i_rd inst) (box_for is_double bits) c))"

definition fsgnj :: "u32 \<Rightarrow> bool \<Rightarrow> u64 \<Rightarrow> u64 \<Rightarrow> u64 option" where
  "fsgnj funct3 is_double a b =
     (let s = (if is_double then push_bit 63 1 else push_bit 31 1);
          result = (\<lambda>sign. (a AND NOT s) OR sign)
      in if funct3 = 0x0 then Some (result (b AND s))
         else if funct3 = 0x1 then Some (result (NOT b AND s))
         else if funct3 = 0x2 then Some (result ((a XOR b) AND s))
         else None)"

definition fminmax :: "bool \<Rightarrow> u64 \<Rightarrow> u64 \<Rightarrow> fmt \<Rightarrow> u64 \<times> u64" where
  "fminmax want_max a b f =
     (let flags = (if is_snan a f \<or> is_snan b f then FFLAG_NV else 0);
          an = is_nan a f; bn = is_nan b f;
          result =
            (if an \<and> bn then canonical_nan f
             else if an then b
             else if bn then a
             else
               (let ord = fcompare a b f in
                if ord = 0 then
                  (let neg_zero = zero f True in
                   if a = neg_zero \<and> b \<noteq> neg_zero then (if want_max then b else a)
                   else if b = neg_zero \<and> a \<noteq> neg_zero then (if want_max then a else b)
                   else a)
                else if (ord > 0) = want_max then a else b))
      in (result, flags))"

definition fcmp :: "u32 \<Rightarrow> u64 \<Rightarrow> u64 \<Rightarrow> fmt \<Rightarrow> (bool \<times> u64) option" where
  "fcmp funct3 a b f =
     (let an = is_nan a f; bn = is_nan b f; any_snan = (is_snan a f \<or> is_snan b f) in
      if funct3 = 0x2 then
        Some (\<not> an \<and> \<not> bn \<and> fcompare a b f = 0, if any_snan then FFLAG_NV else 0)
      else if funct3 = 0x1 then
        Some (\<not> an \<and> \<not> bn \<and> fcompare a b f < 0, if an \<or> bn then FFLAG_NV else 0)
      else if funct3 = 0x0 then
        Some (\<not> an \<and> \<not> bn \<and> fcompare a b f \<le> 0, if an \<or> bn then FFLAG_NV else 0)
      else None)"

definition int_source :: "nat \<Rightarrow> u64 \<Rightarrow> bool \<times> u64" where
  "int_source rs2 x =
     (if rs2 = 0 then (let w = (ucast x :: i32) in (w <s 0, if w <s 0 then ucast (- w) else ucast w))
      else if rs2 = 1 then (False, ucast (ucast x :: u32))
      else if rs2 = 2 then (x <s 0, if x <s 0 then - x else x)
      else (False, x))"

definition execute_op_fp :: "decoded_inst \<Rightarrow> cpu \<Rightarrow> unit res \<times> cpu" where
  "execute_op_fp inst c =
     and_then (require_fpu inst c, c) (\<lambda>u c.
     let opr = drop_bit 2 (i_funct7 inst);
         is_double = (i_funct7 inst AND 0x3 = 0x1);
         bad = (Inl (illegal inst), c)
     in if i_funct7 inst AND 0x3 > 0x1 then bad
        else
          (let f = (if is_double then F64 else F32);
               a_bits = c_fregs c (i_rs1 inst); b_bits = c_fregs c (i_rs2 inst);
               a = unbox_for is_double a_bits; b = unbox_for is_double b_bits;
               rounded = (\<lambda>g. and_then (rounding inst c, c) (\<lambda>m c. put inst is_double (g m) c))
           in if opr = 0x00 then rounded (\<lambda>m. fadd a b f m)
              else if opr = 0x01 then rounded (\<lambda>m. fsub a b f m)
              else if opr = 0x02 then rounded (\<lambda>m. fmul a b f m)
              else if opr = 0x03 then rounded (\<lambda>m. fdiv a b f m)
              else if opr = 0x0b then
                (if i_rs2 inst \<noteq> 0 then bad else rounded (\<lambda>m. fsqrt a f m))
              else if opr = 0x04 then
                (case fsgnj (i_funct3 inst) is_double a b of
                   None \<Rightarrow> bad
                 | Some result \<Rightarrow> (Inr (), write_freg (i_rd inst) (box_for is_double result) c))
              else if opr = 0x05 then
                (if i_funct3 inst > 0x1 then bad
                 else put inst is_double (fminmax (i_funct3 inst = 0x1) a b f) c)
              else if opr = 0x08 then
                (if i_rs2 inst \<noteq> (if is_double then 0 else 1) then bad
                 else
                   (let (src_fmt, src) = (if is_double then (F32, ucast (nan_unbox a_bits)) else (F64, a_bits))
                    in rounded (\<lambda>m. fconvert src src_fmt f m)))
              else if opr = 0x14 then
                (case fcmp (i_funct3 inst) a b f of
                   None \<Rightarrow> bad
                 | Some (result, flags) \<Rightarrow>
                     (Inr (), write_reg (i_rd inst) (of_bool result)
                        (c\<lparr>c_csrs := raise_fflags flags (c_csrs c)\<rparr>)))
              else if opr = 0x18 then
                and_then (rounding inst c, c) (\<lambda>m c.
                if i_rs2 inst > 3 then (Inl (illegal inst), c)
                else
                  (let bits = (if i_rs2 inst \<le> 1 then 32 else 64); is_signed = even (i_rs2 inst);
                       (v, fl) = to_int a f m bits is_signed;
                       result = (if bits = 32 then scast (ucast v :: u32) else v)
                   in (Inr (), write_reg (i_rd inst) result (c\<lparr>c_csrs := raise_fflags fl (c_csrs c)\<rparr>))))
              else if opr = 0x1a then
                (if i_rs2 inst > 3 then bad
                 else
                   and_then (rounding inst c, c) (\<lambda>m c.
                   let (x, c) = read_reg (i_rs1 inst) c; (neg, mag) = int_source (i_rs2 inst) x
                   in put inst is_double (from_int neg mag f m) c))
              else if opr = 0x1c then
                (if i_funct3 inst = 0x0 then
                   (if i_rs2 inst \<noteq> 0 then bad
                    else (Inr (), write_reg (i_rd inst) (if is_double then a_bits else scast (ucast a_bits :: u32)) c))
                 else if i_funct3 inst = 0x1 then (Inr (), write_reg (i_rd inst) (fclass a f) c)
                 else bad)
              else if opr = 0x1e then
                (if i_funct3 inst \<noteq> 0x0 \<or> i_rs2 inst \<noteq> 0 then bad
                 else
                   (let (x, c) = read_reg (i_rs1 inst) c
                    in (Inr (), write_freg (i_rd inst) (box_for is_double x) c)))
              else bad))"

definition execute_fused_madd :: "decoded_inst \<Rightarrow> cpu \<Rightarrow> unit res \<times> cpu" where
  "execute_fused_madd inst c =
     and_then (require_fpu inst c, c) (\<lambda>u c.
     let rs3 = unat (drop_bit 27 (i_raw inst)); fmt_bits = drop_bit 25 (i_raw inst) AND 0x3 in
     if fmt_bits > 0x1 then (Inl (illegal inst), c)
     else
       (let is_double = (fmt_bits = 0x1); f = (if is_double then F64 else F32) in
        and_then (rounding inst c, c) (\<lambda>m c.
        let negate_product = (i_opcode inst = NMSUB \<or> i_opcode inst = NMADD);
            subtract_addend = (i_opcode inst = MSUB \<or> i_opcode inst = NMADD);
            sign = (if is_double then push_bit 63 1 else push_bit 31 1);
            a = unbox_for is_double (c_fregs c (i_rs1 inst));
            b = unbox_for is_double (c_fregs c (i_rs2 inst));
            addend = unbox_for is_double (c_fregs c rs3);
            a = (if negate_product then a XOR sign else a);
            addend = (if subtract_addend then addend XOR sign else addend)
        in put inst is_double (fma a b addend f m) c)))"

end
