(* ===== verification/Sbi.thy ===== *)
theory Sbi
  imports Cpu
begin

text \<open>
  The firmware services of \<open>src/src/sbi.rs\<close>: what an \<open>ecall\<close> from supervisor mode does when the
  emulator plays the firmware. The host's standard output is the byte list \<open>c_stdout\<close>.
\<close>

section \<open>Calls\<close>

abbreviation (input) EXT_SET_TIMER :: u64 where "EXT_SET_TIMER \<equiv> 0x00"
abbreviation (input) EXT_CONSOLE_PUTCHAR :: u64 where "EXT_CONSOLE_PUTCHAR \<equiv> 0x01"
abbreviation (input) EXT_CONSOLE_GETCHAR :: u64 where "EXT_CONSOLE_GETCHAR \<equiv> 0x02"
abbreviation (input) EXT_SHUTDOWN :: u64 where "EXT_SHUTDOWN \<equiv> 0x08"
abbreviation (input) EXT_BASE :: u64 where "EXT_BASE \<equiv> 0x10"
abbreviation (input) EXT_TIME :: u64 where "EXT_TIME \<equiv> 0x54494d45"
abbreviation (input) EXT_IPI :: u64 where "EXT_IPI \<equiv> 0x735049"
abbreviation (input) EXT_RFENCE :: u64 where "EXT_RFENCE \<equiv> 0x52464e43"
abbreviation (input) EXT_HSM :: u64 where "EXT_HSM \<equiv> 0x48534d"
abbreviation (input) EXT_SRST :: u64 where "EXT_SRST \<equiv> 0x53525354"

abbreviation (input) SUCCESS :: i64 where "SUCCESS \<equiv> 0"
abbreviation (input) ERR_NOT_SUPPORTED :: i64 where "ERR_NOT_SUPPORTED \<equiv> - 2"
abbreviation (input) ERR_INVALID_PARAM :: i64 where "ERR_INVALID_PARAM \<equiv> - 3"
abbreviation (input) ERR_ALREADY_AVAILABLE :: i64 where "ERR_ALREADY_AVAILABLE \<equiv> - 6"

abbreviation (input) HART_STARTED :: u64 where "HART_STARTED \<equiv> 0"
abbreviation (input) HART_STOPPED :: u64 where "HART_STOPPED \<equiv> 1"

abbreviation (input) IMPL_ID :: u64 where "IMPL_ID \<equiv> 5"
abbreviation (input) IMPL_VERSION :: u64 where "IMPL_VERSION \<equiv> 1"
abbreviation (input) SPEC_VERSION :: u64 where "SPEC_VERSION \<equiv> 3"

definition set_return :: "i64 \<Rightarrow> u64 \<Rightarrow> cpu \<Rightarrow> cpu" where
  "set_return err value c = write_reg 11 value (write_reg 10 err c)"

definition have_extension :: "u64 \<Rightarrow> bool" where
  "have_extension eid \<longleftrightarrow>
     eid \<in> {EXT_SET_TIMER, EXT_CONSOLE_PUTCHAR, EXT_CONSOLE_GETCHAR, EXT_SHUTDOWN, EXT_BASE, EXT_TIME,
       EXT_IPI, EXT_RFENCE, EXT_HSM, EXT_SRST}"

definition targets :: "u64 \<Rightarrow> u64 \<Rightarrow> cpu \<Rightarrow> nat list option" where
  "targets m base c =
     (let count = of_nat (length (c_peers c)) in
      if base = NOT 0 then Some [0..<length (c_peers c)]
      else
        (let bits = filter (\<lambda>k. drop_bit k m AND 1 \<noteq> 0) [0..<64];
             ids = map (\<lambda>k. base + of_nat k) bits;
             out = map unat (filter (\<lambda>i. i < count) ids);
             okay = list_all (\<lambda>i. i < count) ids
         in if okay then Some out else None))"

definition sbi_set_timer :: "u64 \<Rightarrow> cpu \<Rightarrow> cpu" where
  "sbi_set_timer deadline c =
     (if c_clint c then
        (let (cl, csrs) = set_timer deadline (c_csrs c) (c_hartid c) (b_clint (c_bus c))
         in c\<lparr>c_bus := (c_bus c)\<lparr>b_clint := cl\<rparr>, c_csrs := csrs\<rparr>)
      else c)"

definition sbi_base :: "u64 \<Rightarrow> u64 \<Rightarrow> cpu \<Rightarrow> cpu" where
  "sbi_base fid a0 c =
     (if fid = 0 then set_return SUCCESS SPEC_VERSION c
      else if fid = 1 then set_return SUCCESS IMPL_ID c
      else if fid = 2 then set_return SUCCESS IMPL_VERSION c
      else if fid = 3 then set_return SUCCESS (of_bool (have_extension a0)) c
      else if 4 \<le> fid \<and> fid \<le> 6 then set_return SUCCESS 0 c
      else set_return ERR_NOT_SUPPORTED 0 c)"

definition sbi_ipi :: "u64 \<Rightarrow> u64 \<Rightarrow> cpu \<Rightarrow> cpu" where
  "sbi_ipi fid a0 c =
     (if fid \<noteq> 0 then set_return ERR_NOT_SUPPORTED 0 c
      else
        (let me = unat (c_hartid c); (a1, c) = read_reg 11 c in
         case targets a0 a1 c of
           Some ids \<Rightarrow>
             set_return SUCCESS 0 (fold (\<lambda>i c.
               if i = me then c\<lparr>c_csrs := raise_interrupt MIP_SSIP (c_csrs c)\<rparr>
               else update_mailbox i send_ipi c) ids c)
         | None \<Rightarrow> set_return ERR_INVALID_PARAM 0 c))"

definition sbi_rfence :: "u64 \<Rightarrow> u64 \<Rightarrow> cpu \<Rightarrow> cpu" where
  "sbi_rfence fid a0 c =
     (if fid > 2 then set_return ERR_NOT_SUPPORTED 0 c
      else
        (let me = unat (c_hartid c); (a1, c) = read_reg 11 c in
         case targets a0 a1 c of
           Some ids \<Rightarrow>
             set_return SUCCESS 0 (fold (\<lambda>i c.
               if i = me then remote_fence c else update_mailbox i send_fence c) ids c)
         | None \<Rightarrow> set_return ERR_INVALID_PARAM 0 c))"

definition sbi_hsm :: "u64 \<Rightarrow> u64 \<Rightarrow> cpu \<Rightarrow> cpu" where
  "sbi_hsm fid a0 c =
     (if fid = 0 then
        (let (addr, c) = read_reg 11 c; (opaque, c) = read_reg 12 c in
         if a0 \<ge> of_nat (length (c_peers c)) then set_return ERR_INVALID_PARAM 0 c
         else if \<not> mb_parked (c_peers c ! unat a0) then set_return ERR_ALREADY_AVAILABLE 0 c
         else set_return SUCCESS 0 (update_mailbox (unat a0) (send_start addr opaque) c))
      else if fid = 1 then set_return SUCCESS 0 (set_parked True c)
      else if fid = 2 then
        (if a0 \<ge> of_nat (length (c_peers c)) then set_return ERR_INVALID_PARAM 0 c
         else set_return SUCCESS (if mb_parked (c_peers c ! unat a0) then HART_STOPPED else HART_STARTED) c)
      else if fid = 3 then
        (if a0 AND 0x80000000 \<noteq> 0 then set_return ERR_NOT_SUPPORTED 0 c
         else set_return SUCCESS 0 (c\<lparr>c_waiting_for_interrupt := c_idle_on_wfi c\<rparr>))
      else set_return ERR_NOT_SUPPORTED 0 c)"

definition handle_ecall :: "cpu \<Rightarrow> bool \<times> cpu" where
  "handle_ecall c =
     (let (eid, c) = read_reg 17 c; (fid, c) = read_reg 16 c; (a0, c) = read_reg 10 c in
      (True,
       if eid = EXT_SET_TIMER then sbi_set_timer a0 c
       else if eid = EXT_CONSOLE_PUTCHAR then c\<lparr>c_stdout := c_stdout c @ [ucast a0]\<rparr>
       else if eid = EXT_CONSOLE_GETCHAR then
         (if c_uart c then
            (let (ch, u) = take_input_byte (b_uart (c_bus c))
             in write_reg 10 (scast ch) (c\<lparr>c_bus := (c_bus c)\<lparr>b_uart := u\<rparr>\<rparr>))
          else write_reg 10 (- 1) c)
       else if eid = EXT_SHUTDOWN then c\<lparr>c_halted := True, c_sbi_shutdown := True\<rparr>
       else if eid = EXT_BASE then sbi_base fid a0 c
       else if eid = EXT_TIME then
         (if fid = 0 then set_return SUCCESS 0 (sbi_set_timer a0 c) else set_return ERR_NOT_SUPPORTED 0 c)
       else if eid = EXT_IPI then sbi_ipi fid a0 c
       else if eid = EXT_RFENCE then sbi_rfence fid a0 c
       else if eid = EXT_HSM then sbi_hsm fid a0 c
       else if eid = EXT_SRST then
         (if fid = 0 then set_return SUCCESS 0 (c\<lparr>c_halted := True, c_sbi_shutdown := True\<rparr>)
          else set_return ERR_NOT_SUPPORTED 0 c)
       else set_return ERR_NOT_SUPPORTED 0 c))"

end
