(* ===== verification/Exec.thy ===== *)
theory Exec
  imports Fp Sbi "HOL-Library.Signed_Division"
begin

text \<open>
  The instructions of \<open>src/src/cpu/exec.rs\<close>: control transfer, loads and stores, integer
  arithmetic, M, A, Zicsr, the privileged instructions and the bit-manipulation extensions. What
  an instruction computes from its operands is a function of its own (\<open>mul_div_value\<close>,
  \<open>amo_value\<close>, \<open>zb_op_value\<close> and so on), the handler around it reads and writes the registers.
\<close>

section \<open>Control transfer\<close>

definition execute_jal :: "decoded_inst \<Rightarrow> cpu \<Rightarrow> unit res \<times> cpu" where
  "execute_jal inst c =
     (let target = c_pc c + i_imm inst; link = c_pc c + i_length inst in
      and_then (set_branch_target target c) (\<lambda>u c. (Inr (), write_reg (i_rd inst) link c)))"

definition execute_jalr :: "decoded_inst \<Rightarrow> cpu \<Rightarrow> unit res \<times> cpu" where
  "execute_jalr inst c =
     (if i_funct3 inst \<noteq> 0 then (Inl (illegal inst), c)
      else
        (let (rs1, c) = read_reg (i_rs1 inst) c;
             (sum, c) = alu Add rs1 (i_imm inst) c;
             target = sum AND NOT 1;
             link = c_pc c + i_length inst
         in and_then (set_branch_target target c) (\<lambda>u c. (Inr (), write_reg (i_rd inst) link c))))"

definition execute_branch :: "decoded_inst \<Rightarrow> cpu \<Rightarrow> unit res \<times> cpu" where
  "execute_branch inst c =
     (let (a, c) = read_reg (i_rs1 inst) c; (b, c) = read_reg (i_rs2 inst) c;
          f3 = i_funct3 inst;
          decide = (\<lambda>taken c. if \<not> taken then (Inr (), c) else set_branch_target (c_pc c + i_imm inst) c)
      in if f3 = 0x0 then (let (x, c) = alu Xor a b c in decide (x = 0) c)
         else if f3 = 0x1 then (let (x, c) = alu Xor a b c in decide (x \<noteq> 0) c)
         else if f3 = 0x4 then (let (x, c) = alu Slt a b c in decide (x \<noteq> 0) c)
         else if f3 = 0x5 then (let (x, c) = alu Slt a b c in decide (x = 0) c)
         else if f3 = 0x6 then (let (x, c) = alu Sltu a b c in decide (x \<noteq> 0) c)
         else if f3 = 0x7 then (let (x, c) = alu Sltu a b c in decide (x = 0) c)
         else (Inl (illegal inst), c))"

section \<open>Loads and stores\<close>

definition load_kind :: "u32 \<Rightarrow> (nat \<times> bool) option" where
  "load_kind f3 =
     (if f3 = 0x0 then Some (1, True)
      else if f3 = 0x1 then Some (2, True)
      else if f3 = 0x2 then Some (4, True)
      else if f3 = 0x3 then Some (8, False)
      else if f3 = 0x4 then Some (1, False)
      else if f3 = 0x5 then Some (2, False)
      else if f3 = 0x6 then Some (4, False)
      else None)"

definition execute_load :: "decoded_inst \<Rightarrow> cpu \<Rightarrow> unit res \<times> cpu" where
  "execute_load inst c =
     (let (rs1, c) = read_reg (i_rs1 inst) c; (addr, c) = alu Add rs1 (i_imm inst) c in
      case load_kind (i_funct3 inst) of
        None \<Rightarrow> (Inl (illegal inst), c)
      | Some (n, is_signed) \<Rightarrow>
          and_then (mem_load addr n Load c) (\<lambda>v c.
          (Inr (), write_reg (i_rd inst) (if is_signed then sign_extend v (8 * n) else v) c)))"

definition store_size :: "u32 \<Rightarrow> nat option" where
  "store_size f3 =
     (if f3 = 0x0 then Some 1 else if f3 = 0x1 then Some 2 else if f3 = 0x2 then Some 4
      else if f3 = 0x3 then Some 8 else None)"

definition execute_store :: "decoded_inst \<Rightarrow> cpu \<Rightarrow> unit res \<times> cpu" where
  "execute_store inst c =
     (let (rs1, c) = read_reg (i_rs1 inst) c;
          (addr, c) = alu Add rs1 (i_imm inst) c;
          (value, c) = read_reg (i_rs2 inst) c
      in case store_size (i_funct3 inst) of
           None \<Rightarrow> (Inl (illegal inst), c)
         | Some n \<Rightarrow> mem_store addr n value c)"

section \<open>Bit manipulation\<close>

definition zb_op_value :: "u32 \<Rightarrow> u64 \<Rightarrow> u64 \<Rightarrow> u64 option" where
  "zb_op_value key a b =
     (let the_bit = push_bit (unat (b AND 63)) 1 :: u64;
          k = (\<lambda>f7 f3. key = (push_bit 3 f7 OR f3))
      in if k 0x10 2 then Some (push_bit 1 a + b)
         else if k 0x10 4 then Some (push_bit 2 a + b)
         else if k 0x10 6 then Some (push_bit 3 a + b)
         else if k 0x20 7 then Some (a AND NOT b)
         else if k 0x20 6 then Some (a OR NOT b)
         else if k 0x20 4 then Some (NOT (a XOR b))
         else if k 0x05 4 then Some (if a <s b then a else b)
         else if k 0x05 5 then Some (min a b)
         else if k 0x05 6 then Some (if b <s a then a else b)
         else if k 0x05 7 then Some (max a b)
         else if k 0x30 1 then Some (rol64 a (ucast b))
         else if k 0x30 5 then Some (ror64 a (ucast b))
         else if k 0x24 1 then Some (a AND NOT the_bit)
         else if k 0x24 5 then Some (drop_bit (unat (b AND 63)) a AND 1)
         else if k 0x34 1 then Some (a XOR the_bit)
         else if k 0x14 1 then Some (a OR the_bit)
         else if k 0x05 1 then Some (clmul a b)
         else if k 0x05 2 then Some (clmulr a b)
         else if k 0x05 3 then Some (clmulh a b)
         else if k 0x07 5 then Some (if b = 0 then 0 else a)
         else if k 0x07 7 then Some (if b \<noteq> 0 then 0 else a)
         else None)"

definition execute_zb_op :: "decoded_inst \<Rightarrow> cpu \<Rightarrow> unit res option \<times> cpu" where
  "execute_zb_op inst c =
     (let (a, c) = read_reg (i_rs1 inst) c; (b, c) = read_reg (i_rs2 inst) c;
          key = push_bit 3 (i_funct7 inst) OR i_funct3 inst
      in case zb_op_value key a b of
           None \<Rightarrow> (None, c)
         | Some r \<Rightarrow> (Some (Inr ()), write_reg (i_rd inst) r c))"

definition execute_zb_op_32 :: "decoded_inst \<Rightarrow> cpu \<Rightarrow> unit res option \<times> cpu" where
  "execute_zb_op_32 inst c =
     (let (a, c) = read_reg (i_rs1 inst) c; (b, c) = read_reg (i_rs2 inst) c;
          key = push_bit 3 (i_funct7 inst) OR i_funct3 inst;
          k = (\<lambda>f7 f3. key = (push_bit 3 f7 OR f3));
          out = (\<lambda>r. (Some (Inr ()), write_reg (i_rd inst) r c))
      in if k 0x04 0 then out (zext32 a + b)
         else if k 0x10 2 then out (push_bit 1 (zext32 a) + b)
         else if k 0x10 4 then out (push_bit 2 (zext32 a) + b)
         else if k 0x10 6 then out (push_bit 3 (zext32 a) + b)
         else if k 0x04 4 then
           (if i_rs2 inst \<noteq> 0 then (Some (Inl (illegal inst)), c) else out (a AND 0xffff))
         else if k 0x30 1 then out (sext (ucast (rol32 (ucast a) (ucast b))) 32)
         else if k 0x30 5 then out (sext (ucast (ror32 (ucast a) (ucast b))) 32)
         else (None, c))"

definition execute_zb_op_imm :: "decoded_inst \<Rightarrow> cpu \<Rightarrow> unit res option \<times> cpu" where
  "execute_zb_op_imm inst c =
     (let (a, c) = read_reg (i_rs1 inst) c;
          imm12 = drop_bit 20 (i_raw inst) AND 0xfff;
          f6 = funct6 inst;
          shamt = shamt6 inst;
          the_bit = push_bit (unat shamt) 1;
          out = (\<lambda>r. (Some (Inr ()), write_reg (i_rd inst) r c))
      in if i_funct3 inst = 1 then
           (if imm12 = 0x600 then out (clz64 a)
            else if imm12 = 0x601 then out (ctz64 a)
            else if imm12 = 0x602 then out (cpop64 a)
            else if imm12 = 0x604 then out (sext a 8)
            else if imm12 = 0x605 then out (sext a 16)
            else if f6 = 0x0a then out (a OR the_bit)
            else if f6 = 0x12 then out (a AND NOT the_bit)
            else if f6 = 0x1a then out (a XOR the_bit)
            else (None, c))
         else if i_funct3 inst = 5 then
           (if imm12 = 0x6b8 then out (rev8 a)
            else if imm12 = 0x287 then out (orc_b a)
            else if f6 = 0x18 then out (ror64 a shamt)
            else if f6 = 0x12 then out (drop_bit (unat shamt) a AND 1)
            else (None, c))
         else (None, c))"

definition execute_zb_op_imm_32 :: "decoded_inst \<Rightarrow> cpu \<Rightarrow> unit res option \<times> cpu" where
  "execute_zb_op_imm_32 inst c =
     (let (a, c) = read_reg (i_rs1 inst) c;
          imm12 = drop_bit 20 (i_raw inst) AND 0xfff;
          out = (\<lambda>r. (Some (Inr ()), write_reg (i_rd inst) r c))
      in if i_funct3 inst = 1 then
           (if imm12 = 0x600 then out (clz32 a)
            else if imm12 = 0x601 then out (ctz32 a)
            else if imm12 = 0x602 then out (cpop32 a)
            else if funct6 inst = 0x02 then out (push_bit (unat (shamt6 inst)) (zext32 a))
            else (None, c))
         else if i_funct3 inst = 5 \<and> i_funct7 inst = 0x30 then
           out (sext (ucast (ror32 (ucast a) (shamt5 inst))) 32)
         else (None, c))"

section \<open>Integer arithmetic\<close>

text \<open>What the dispatchers do with a probe of the extensions: its result, or carry on.\<close>

definition or_else :: "unit res option \<times> cpu \<Rightarrow> (cpu \<Rightarrow> unit res \<times> cpu) \<Rightarrow> unit res \<times> cpu" where
  "or_else probe k = (case probe of (Some r, c) \<Rightarrow> (r, c) | (None, c) \<Rightarrow> k c)"

definition execute_op_imm :: "decoded_inst \<Rightarrow> cpu \<Rightarrow> unit res \<times> cpu" where
  "execute_op_imm inst c =
     or_else (if i_funct3 inst = 1 \<or> i_funct3 inst = 5 then execute_zb_op_imm inst c else (None, c)) (\<lambda>c.
     let (rs1, c) = read_reg (i_rs1 inst) c;
         imm = i_imm inst;
         f3 = i_funct3 inst;
         out = (\<lambda>opr b. let (r, c) = alu opr rs1 b c in (Inr (), write_reg (i_rd inst) r c));
         bad = (Inl (illegal inst), c)
     in if f3 = 0x0 then out Add imm
        else if f3 = 0x1 then (if funct6 inst \<noteq> 0x00 then bad else out Sll (ucast (shamt6 inst)))
        else if f3 = 0x2 then out Slt imm
        else if f3 = 0x3 then out Sltu imm
        else if f3 = 0x4 then out Xor imm
        else if f3 = 0x5 then
          (let shamt = ucast (shamt6 inst) in
           if funct6 inst = 0x00 then out Srl shamt
           else if funct6 inst = 0x10 then out Sra shamt
           else bad)
        else if f3 = 0x6 then out Or imm
        else if f3 = 0x7 then out And imm
        else bad)"

definition execute_op_imm_32 :: "decoded_inst \<Rightarrow> cpu \<Rightarrow> unit res \<times> cpu" where
  "execute_op_imm_32 inst c =
     or_else (if i_funct3 inst = 1 \<or> i_funct3 inst = 5 then execute_zb_op_imm_32 inst c else (None, c)) (\<lambda>c.
     let (rs1, c) = read_reg (i_rs1 inst) c;
         f3 = i_funct3 inst;
         out = (\<lambda>opr b. let (r, c) = alu opr rs1 b c in (Inr (), write_reg (i_rd inst) r c));
         bad = (Inl (illegal inst), c)
     in if f3 = 0x0 then out AddW (i_imm inst)
        else if f3 = 0x1 then (if i_funct7 inst \<noteq> 0x00 then bad else out SllW (ucast (shamt5 inst)))
        else if f3 = 0x5 then
          (let shamt = ucast (shamt5 inst) in
           if i_funct7 inst = 0x00 then out SrlW shamt
           else if i_funct7 inst = 0x20 then out SraW shamt
           else bad)
        else bad)"

definition mul_div_value :: "u32 \<Rightarrow> u64 \<Rightarrow> u64 \<Rightarrow> u64" where
  "mul_div_value f3 a b =
     (let sa = sint a; sb = sint b in
      if f3 = 0x0 then a * b
      else if f3 = 0x1 then word_of_int (drop_bit 64 (sa * sb))
      else if f3 = 0x2 then word_of_int (drop_bit 64 (sa * uint b))
      else if f3 = 0x3 then word_of_int (drop_bit 64 (uint a * uint b))
      else if f3 = 0x4 then
        (if b = 0 then NOT 0 else if sa = - (2 ^ 63) \<and> sb = - 1 then a else word_of_int (sa sdiv sb))
      else if f3 = 0x5 then (if b = 0 then NOT 0 else a div b)
      else if f3 = 0x6 then
        (if b = 0 then a else if sa = - (2 ^ 63) \<and> sb = - 1 then 0 else word_of_int (sa smod sb))
      else (if b = 0 then a else a mod b))"

definition execute_mul_div :: "decoded_inst \<Rightarrow> cpu \<Rightarrow> unit res \<times> cpu" where
  "execute_mul_div inst c =
     (let (a, c) = read_reg (i_rs1 inst) c; (b, c) = read_reg (i_rs2 inst) c
      in (Inr (), write_reg (i_rd inst) (mul_div_value (i_funct3 inst) a b) c))"

definition mul_div_32_value :: "u32 \<Rightarrow> u32 \<Rightarrow> u32 \<Rightarrow> u32 option" where
  "mul_div_32_value f3 a b =
     (let sa = sint a; sb = sint b in
      if f3 = 0x0 then Some (a * b)
      else if f3 = 0x4 then
        Some (if b = 0 then NOT 0 else if sa = - (2 ^ 31) \<and> sb = - 1 then a else word_of_int (sa sdiv sb))
      else if f3 = 0x5 then Some (if b = 0 then NOT 0 else a div b)
      else if f3 = 0x6 then
        Some (if b = 0 then a else if sa = - (2 ^ 31) \<and> sb = - 1 then 0 else word_of_int (sa smod sb))
      else if f3 = 0x7 then Some (if b = 0 then a else a mod b)
      else None)"

definition execute_mul_div_32 :: "decoded_inst \<Rightarrow> cpu \<Rightarrow> unit res \<times> cpu" where
  "execute_mul_div_32 inst c =
     (let (a, c) = read_reg (i_rs1 inst) c; (b, c) = read_reg (i_rs2 inst) c in
      case mul_div_32_value (i_funct3 inst) (ucast a) (ucast b) of
        None \<Rightarrow> (Inl (illegal inst), c)
      | Some r \<Rightarrow> (Inr (), write_reg (i_rd inst) (sext32 r) c))"

definition execute_op :: "decoded_inst \<Rightarrow> cpu \<Rightarrow> unit res \<times> cpu" where
  "execute_op inst c =
     (if i_funct7 inst = 0x01 then execute_mul_div inst c
      else
        or_else (if i_funct7 inst \<noteq> 0x00 then execute_zb_op inst c else (None, c)) (\<lambda>c.
        if i_funct7 inst \<noteq> 0x00 \<and> i_funct7 inst \<noteq> 0x20 then (Inl (illegal inst), c)
        else
          (let (a, c) = read_reg (i_rs1 inst) c; (b, c) = read_reg (i_rs2 inst) c;
               sub = (i_funct7 inst = 0x20);
               f3 = i_funct3 inst;
               out = (\<lambda>opr. let (r, c) = alu opr a b c in (Inr (), write_reg (i_rd inst) r c));
               bad = (Inl (illegal inst), c)
           in if f3 = 0x0 then out (if sub then Sub else Add)
              else if f3 \<in> {0x1, 0x2, 0x3, 0x4, 0x6, 0x7} \<and> i_funct7 inst \<noteq> 0x00 then bad
              else if f3 = 0x1 then out Sll
              else if f3 = 0x2 then out Slt
              else if f3 = 0x3 then out Sltu
              else if f3 = 0x4 then out Xor
              else if f3 = 0x5 then out (if sub then Sra else Srl)
              else if f3 = 0x6 then out Or
              else if f3 = 0x7 then out And
              else bad)))"

definition execute_op_32 :: "decoded_inst \<Rightarrow> cpu \<Rightarrow> unit res \<times> cpu" where
  "execute_op_32 inst c =
     (if i_funct7 inst = 0x01 then execute_mul_div_32 inst c
      else
        or_else (if i_funct7 inst \<noteq> 0x00 then execute_zb_op_32 inst c else (None, c)) (\<lambda>c.
        if i_funct7 inst \<noteq> 0x00 \<and> i_funct7 inst \<noteq> 0x20 then (Inl (illegal inst), c)
        else
          (let (a, c) = read_reg (i_rs1 inst) c; (b, c) = read_reg (i_rs2 inst) c;
               sub = (i_funct7 inst = 0x20);
               f3 = i_funct3 inst;
               out = (\<lambda>opr. let (r, c) = alu opr a b c in (Inr (), write_reg (i_rd inst) r c));
               bad = (Inl (illegal inst), c)
           in if f3 = 0x0 then out (if sub then SubW else AddW)
              else if f3 = 0x1 then (if i_funct7 inst \<noteq> 0x00 then bad else out SllW)
              else if f3 = 0x5 then out (if sub then SraW else SrlW)
              else bad)))"

section \<open>Atomics\<close>

definition amo_value :: "u32 \<Rightarrow> 'a::len word \<Rightarrow> 'a word \<Rightarrow> 'a word option" where
  "amo_value funct5 orig src =
     (if funct5 = 0x00 then Some (orig + src)
      else if funct5 = 0x01 then Some src
      else if funct5 = 0x04 then Some (orig XOR src)
      else if funct5 = 0x08 then Some (orig OR src)
      else if funct5 = 0x0c then Some (orig AND src)
      else if funct5 = 0x10 then Some (if src <s orig then src else orig)
      else if funct5 = 0x14 then Some (if orig <s src then src else orig)
      else if funct5 = 0x18 then Some (min orig src)
      else if funct5 = 0x1c then Some (max orig src)
      else None)"

definition execute_lr :: "decoded_inst \<Rightarrow> nat \<Rightarrow> u64 \<Rightarrow> cpu \<Rightarrow> unit res \<times> cpu" where
  "execute_lr inst n addr c =
     (if i_rs2 inst \<noteq> 0 then (Inl (illegal inst), c)
      else
        and_then (mem_load addr n Load c) (\<lambda>v c.
        let c = c\<lparr>c_reservation_valid := True, c_reservation_addr := addr\<rparr>;
            p = data_privilege c;
            (r, c) = hart_translate addr Load p c;
            pa = (case r of Inr pa \<Rightarrow> pa | Inl t \<Rightarrow> addr);
            c = set_own (\<lambda>mb. mb\<lparr>mb_reservation := drop_bit 3 pa\<rparr>) c
        in (Inr (), write_reg (i_rd inst) (if n = 4 then sext32 (ucast v) else v) c)))"

definition execute_sc :: "decoded_inst \<Rightarrow> nat \<Rightarrow> u64 \<Rightarrow> cpu \<Rightarrow> unit res \<times> cpu" where
  "execute_sc inst n addr c =
     (let holds = (c_reservation_valid c \<and> c_reservation_addr c = addr \<and>
                   mb_reservation (own_mailbox c) \<noteq> NO_RES);
          c = c\<lparr>c_reservation_valid := False\<rparr>;
          (src, c) = read_reg (i_rs2 inst) c;
          drop = set_own (\<lambda>mb. mb\<lparr>mb_reservation := NO_RES\<rparr>)
      in if holds then
           and_then (mem_store addr n src c) (\<lambda>u c. (Inr (), write_reg (i_rd inst) 0 (drop c)))
         else (Inr (), write_reg (i_rd inst) 1 (drop c)))"

definition execute_amo :: "decoded_inst \<Rightarrow> cpu \<Rightarrow> unit res \<times> cpu" where
  "execute_amo inst c =
     (if i_funct3 inst \<noteq> 0x2 \<and> i_funct3 inst \<noteq> 0x3 then (Inl (illegal inst), c)
      else
        (let n = (if i_funct3 inst = 0x2 then 4 else 8);
             funct5 = drop_bit 2 (i_funct7 inst) AND 0x1f;
             (addr, c) = read_reg (i_rs1 inst) c
         in if addr mod of_nat n \<noteq> 0 then
              (Inl (trap_new (if funct5 = 0x02 then LoadAddressMisaligned else StoreAMOAddressMisaligned) addr), c)
            else if funct5 = 0x02 then execute_lr inst n addr c
            else if funct5 = 0x03 then execute_sc inst n addr c
            else
              and_then (mem_load addr n Load c) (\<lambda>orig c.
              let (src, c) = read_reg (i_rs2 inst) c in
              if n = 4 then
                (case amo_value funct5 (ucast orig :: u32) (ucast src) of
                   None \<Rightarrow> (Inl (illegal inst), c)
                 | Some result \<Rightarrow>
                     and_then (mem_store addr 4 (ucast result) c) (\<lambda>u c.
                     (Inr (), write_reg (i_rd inst) (sext32 (ucast orig)) c)))
              else
                (case amo_value funct5 orig src of
                   None \<Rightarrow> (Inl (illegal inst), c)
                 | Some result \<Rightarrow>
                     and_then (mem_store addr 8 result c) (\<lambda>u c.
                     (Inr (), write_reg (i_rd inst) orig c))))))"

section \<open>Privileged instructions\<close>

definition execute_mret :: "decoded_inst \<Rightarrow> cpu \<Rightarrow> unit res \<times> cpu" where
  "execute_mret inst c =
     (if i_rd inst \<noteq> 0 \<or> i_rs1 inst \<noteq> 0 \<or> c_priv c < PRIV_MACHINE then (Inl (illegal inst), c)
      else
        (let status = csr_mstatus (c_csrs c);
             mpie = (status AND MSTATUS_MPIE \<noteq> 0);
             status = set_flag mpie MSTATUS_MIE status;
             status = status OR MSTATUS_MPIE;
             return_priv = ucast (drop_bit MSTATUS_MPP_SHIFT (status AND MSTATUS_MPP)) :: u32;
             status = (status AND NOT MSTATUS_MPP) OR push_bit MSTATUS_MPP_SHIFT (ucast PRIV_LEAST_SUPPORTED);
             status = (if return_priv \<noteq> PRIV_MACHINE then status AND NOT MSTATUS_MPRV else status);
             csrs = csr_set_mstatus status (c_csrs c)
         in (Inr (), c\<lparr>c_csrs := csrs, c_priv := return_priv, c_next_pc := csr_read MEPC csrs\<rparr>)))"

definition execute_sret :: "decoded_inst \<Rightarrow> cpu \<Rightarrow> unit res \<times> cpu" where
  "execute_sret inst c =
     (if i_rd inst \<noteq> 0 \<or> i_rs1 inst \<noteq> 0 \<or> c_priv c < PRIV_SUPERVISOR then (Inl (illegal inst), c)
      else if c_priv c = PRIV_SUPERVISOR \<and> csr_mstatus (c_csrs c) AND MSTATUS_TSR \<noteq> 0
      then (Inl (illegal inst), c)
      else
        (let status = csr_mstatus (c_csrs c);
             spie = (status AND MSTATUS_SPIE \<noteq> 0);
             status = set_flag spie MSTATUS_SIE status;
             status = status OR MSTATUS_SPIE;
             return_priv = (if status AND MSTATUS_SPP \<noteq> 0 then PRIV_SUPERVISOR else PRIV_USER);
             status = status AND NOT MSTATUS_SPP;
             status = (if return_priv \<noteq> PRIV_MACHINE then status AND NOT MSTATUS_MPRV else status);
             csrs = csr_set_mstatus status (c_csrs c)
         in (Inr (), c\<lparr>c_csrs := csrs, c_priv := return_priv, c_next_pc := csr_read SEPC csrs\<rparr>)))"

definition execute_sfence_vma :: "decoded_inst \<Rightarrow> cpu \<Rightarrow> unit res \<times> cpu" where
  "execute_sfence_vma inst c =
     (if i_rd inst \<noteq> 0 \<or> c_priv c < PRIV_SUPERVISOR then (Inl (illegal inst), c)
      else if c_priv c = PRIV_SUPERVISOR \<and> csr_mstatus (c_csrs c) AND MSTATUS_TVM \<noteq> 0
      then (Inl (illegal inst), c)
      else (Inr (), flush_decode_cache (c\<lparr>c_mmu := mmu_flush (c_mmu c)\<rparr>)))"

definition tvm_blocks :: "u32 \<Rightarrow> cpu \<Rightarrow> bool" where
  "tvm_blocks addr c \<longleftrightarrow>
     addr = SATP \<and> c_priv c = PRIV_SUPERVISOR \<and> csr_mstatus (c_csrs c) AND MSTATUS_TVM \<noteq> 0"

definition hart_csr_read :: "u32 \<Rightarrow> cpu \<Rightarrow> u64 res" where
  "hart_csr_read addr c =
     (let bad = Inl (trap_new IllegalInstruction 0); csrs = c_csrs c in
      if \<not> csr_exists addr then bad
      else if (addr = FCSR \<or> addr = FFLAGS \<or> addr = FRM) \<and> \<not> fpu_enabled csrs then bad
      else if c_priv c < min_privilege addr \<or> tvm_blocks addr c then bad
      else if addr = CYCLE \<and> \<not> counter_enabled 0 (c_priv c) csrs then bad
      else if addr = TIME \<and> \<not> counter_enabled 1 (c_priv c) csrs then bad
      else if addr = INSTRET \<and> \<not> counter_enabled 2 (c_priv c) csrs then bad
      else if addr = TIME \<and> c_clock c then Inr (clock_now (b_clock (c_bus c)))
      else Inr (csr_read addr csrs))"

definition hart_csr_write :: "u32 \<Rightarrow> u64 \<Rightarrow> cpu \<Rightarrow> unit res \<times> cpu" where
  "hart_csr_write addr value c =
     (let bad = Inl (trap_new IllegalInstruction 0); fp = (addr = FCSR \<or> addr = FFLAGS \<or> addr = FRM) in
      if \<not> csr_exists addr then (bad, c)
      else if fp \<and> \<not> fpu_enabled (c_csrs c) then (bad, c)
      else
        (let c = (if fp then c\<lparr>c_csrs := mark_fpu_dirty (c_csrs c)\<rparr> else c) in
         if is_read_only addr \<or> c_priv c < min_privilege addr \<or> tvm_blocks addr c then (bad, c)
         else
           (let c = (if addr = MINSTRET \<or> addr = MCYCLE then c\<lparr>c_counter_written := True\<rparr> else c);
                c = c\<lparr>c_csrs := csr_write addr value (c_csrs c)\<rparr>
            in (Inr (), if addr = SATP then flush_decode_cache (c\<lparr>c_mmu := mmu_flush (c_mmu c)\<rparr>) else c))))"

definition execute_csr :: "decoded_inst \<Rightarrow> cpu \<Rightarrow> unit res \<times> cpu" where
  "execute_csr inst c =
     (let addr = ucast (i_imm inst AND 0xfff);
          immediate_form = (i_funct3 inst AND 0x4 \<noteq> 0);
          (src, c) = (if immediate_form then (of_nat (i_rs1 inst), c) else read_reg (i_rs1 inst) c);
          f = i_funct3 inst AND 0x3
      in if f = 0x1 then
           (if i_rd inst = 0 \<and> (\<not> csr_exists addr \<or> c_priv c < min_privilege addr)
            then (Inl (trap_new IllegalInstruction 0), c)
            else
              and_then (if i_rd inst \<noteq> 0 then hart_csr_read addr c else Inr 0, c) (\<lambda>old c.
              and_then (hart_csr_write addr src c) (\<lambda>u c.
              (Inr (), write_reg (i_rd inst) old c))))
         else if f = 0x2 \<or> f = 0x3 then
           and_then (hart_csr_read addr c, c) (\<lambda>old c.
           and_then (if src \<noteq> 0
                     then hart_csr_write addr (if f = 0x2 then old OR src else old AND NOT src) c
                     else (Inr (), c)) (\<lambda>u c.
           (Inr (), write_reg (i_rd inst) old c)))
         else (Inl (illegal inst), c))"

definition execute_system :: "decoded_inst \<Rightarrow> cpu \<Rightarrow> unit res \<times> cpu" where
  "execute_system inst c =
     (if i_funct3 inst \<noteq> 0 then execute_csr inst c
      else
        (let sel = i_imm inst AND 0xfff; operands = (i_rd inst \<noteq> 0 \<or> i_rs1 inst \<noteq> 0) in
         if sel = 0x000 then
           (if operands then (Inl (illegal inst), c)
            else if c_priv c = PRIV_USER then (Inl (trap_new ECallFromUMode 0), c)
            else if c_priv c = PRIV_SUPERVISOR then
              (if c_sbi_enabled c then
                 (let (handled, c) = handle_ecall c
                  in if handled then (Inr (), c) else (Inl (trap_new ECallFromSMode 0), c))
               else (Inl (trap_new ECallFromSMode 0), c))
            else (Inl (trap_new ECallFromMMode 0), c))
         else if sel = 0x001 then
           (if operands then (Inl (illegal inst), c) else (Inl (trap_new Breakpoint (c_pc c)), c))
         else if sel = 0x102 then execute_sret inst c
         else if sel = 0x302 then execute_mret inst c
         else if sel = 0x105 then
           (if operands then (Inl (illegal inst), c)
            else (Inr (), if c_idle_on_wfi c then c\<lparr>c_waiting_for_interrupt := True\<rparr> else c))
         else if i_funct7 inst = 0x09 then execute_sfence_vma inst c
         else (Inl (illegal inst), c)))"

section \<open>Dispatch\<close>

definition execute :: "decoded_inst \<Rightarrow> cpu \<Rightarrow> unit res \<times> cpu" where
  "execute inst c =
     (let opc = i_opcode inst in
      if opc = LUI then (Inr (), write_reg (i_rd inst) (i_imm inst) c)
      else if opc = AUIPC then (Inr (), write_reg (i_rd inst) (c_pc c + i_imm inst) c)
      else if opc = JAL then execute_jal inst c
      else if opc = JALR then execute_jalr inst c
      else if opc = BRANCH then execute_branch inst c
      else if opc = LOAD then execute_load inst c
      else if opc = STORE then execute_store inst c
      else if opc = OP_IMM then execute_op_imm inst c
      else if opc = OP_IMM_32 then execute_op_imm_32 inst c
      else if opc = OP then execute_op inst c
      else if opc = OP_32 then execute_op_32 inst c
      else if opc = AMO then execute_amo inst c
      else if opc = SYSTEM then execute_system inst c
      else if opc = LOAD_FP then execute_load_fp inst c
      else if opc = STORE_FP then execute_store_fp inst c
      else if opc = OP_FP then execute_op_fp inst c
      else if opc = MADD \<or> opc = MSUB \<or> opc = NMSUB \<or> opc = NMADD then execute_fused_madd inst c
      else if opc = MISC_MEM then (Inr (), if i_funct3 inst = 1 then flush_decode_cache c else c)
      else (Inl (illegal inst), c))"

end
