(* ===== verification/Hart.thy ===== *)
theory Hart
  imports Exec
begin

text \<open>
  The step loop of \<open>src/src/cpu/mod.rs\<close>: one step checks for an interrupt, takes the instruction
  from the decode cache or fetches it, executes it and commits the program counter; \<open>run\<close> and
  \<open>run_core\<close> iterate it. Both loops run at most \<open>max_steps\<close> times, which is the natural number
  their recursion counts down.
\<close>

section \<open>One step\<close>

definition sync_decode_cache :: "cpu \<Rightarrow> cpu" where
  "sync_decode_cache c =
     (let epoch = code_epoch (b_ram (c_bus c)) in
      if epoch \<noteq> c_dcache_epoch c then (flush_decode_cache c)\<lparr>c_dcache_epoch := epoch\<rparr> else c)"

definition cached_fetch :: "cpu \<Rightarrow> decoded_inst res \<times> cpu" where
  "cached_fetch c =
     (let e = c_dcache c (dcache_index (c_pc c)) in
      if de_pc e = c_pc c \<and> de_priv e = ucast (c_priv c) then (Inr (de_inst e), c)
      else
        (case fetch_inst c of
           (Inr i, c) \<Rightarrow> (Inr i, cache_fill i c)
         | (Inl t, c) \<Rightarrow> (Inl t, c)))"

definition retire :: "cpu \<Rightarrow> cpu" where
  "retire c =
     (let c = c\<lparr>c_pc := c_next_pc c, c_instret := c_instret c + 1\<rparr> in
      if \<not> c_counter_written c then c\<lparr>c_csrs := tick_counters (c_csrs c)\<rparr> else c)"

definition step_core :: "cpu \<Rightarrow> unit res \<times> cpu" where
  "step_core c =
     (case next_interrupt c of
        Some i \<Rightarrow> (Inr (), take_interrupt i c)
      | None \<Rightarrow>
          (case cached_fetch (sync_decode_cache c) of
             (Inl t, c) \<Rightarrow> handle_trap_or_stop t c
           | (Inr inst, c) \<Rightarrow>
               (case execute inst (c\<lparr>c_next_pc := c_pc c + i_length inst, c_counter_written := False\<rparr>) of
                  (Inl t, c) \<Rightarrow> handle_trap_or_stop t c
                | (Inr u, c) \<Rightarrow> (Inr (), retire c))))"

section \<open>The loops\<close>

fun run_loop :: "nat \<Rightarrow> u64 \<Rightarrow> cpu \<Rightarrow> (u64 \<times> trap option) \<times> cpu" where
  "run_loop 0 n c = ((n, None), c)"
| "run_loop (Suc k) n c =
     (case step_core c of
        (Inl t, c) \<Rightarrow> ((n, Some t), c)
      | (Inr u, c) \<Rightarrow> if c_halted c then ((n + 1, None), c) else run_loop k (n + 1) c)"

definition hart_run :: "u64 \<Rightarrow> cpu \<Rightarrow> (u64 \<times> trap option) \<times> cpu" where
  "hart_run max_steps c = run_loop (unat max_steps) 0 c"

definition publish_live :: "cpu \<Rightarrow> cpu" where
  "publish_live c =
     (if c_clock c
      then c\<lparr>c_bus := (c_bus c)\<lparr>b_clock := (b_clock (c_bus c))\<lparr>ck_live := c_instret c - c_round_start_instret c\<rparr>\<rparr>\<rparr>
      else c)"

fun run_core_loop :: "nat \<Rightarrow> u64 \<Rightarrow> u64 \<Rightarrow> cpu \<Rightarrow> (u64 \<times> trap option) \<times> cpu" where
  "run_core_loop 0 mmio_before n c = ((n, None), c)"
| "run_core_loop (Suc k) mmio_before n c =
     (let (go, c) = (if c_waiting_for_interrupt c then runnable c else (True, c)) in
      if \<not> go then ((n, None), c)
      else
        (case step_core c of
           (Inl t, c) \<Rightarrow> ((n, Some t), c)
         | (Inr u, c) \<Rightarrow>
             (let c = publish_live c in
              if c_halted c \<or> parked c then ((n + 1, None), c)
              else if b_mmio_epoch (c_bus c) \<noteq> mmio_before
              then ((n + 1, None), c\<lparr>c_device_touched := True\<rparr>)
              else run_core_loop k mmio_before (n + 1) c)))"

definition run_core :: "u64 \<Rightarrow> cpu \<Rightarrow> (u64 \<times> trap option) \<times> cpu" where
  "run_core max_steps c =
     (let c = c\<lparr>c_device_touched := False\<rparr>
      in run_core_loop (unat max_steps) (b_mmio_epoch (c_bus c)) 0 c)"

end
