(* ===== verification/Hart_Inv.thy ===== *)
theory Hart_Inv
  imports Hart
begin

text \<open>
  What every instruction keeps. The locale \<open>hart_contract\<close> is the interface between the primitive
  operations of a hart (registers, ALU, translation, bus accesses, CSR updates, caches) and the
  instructions built from them: a predicate that the primitives keep is kept by every instruction.
  It is interpreted for the invariant of the hart and for the confinement of user mode.
\<close>

section \<open>The contract\<close>

text \<open>
  What the reads and the memory accesses of an instruction are made of: a predicate kept by register
  reads, the ALU, translation, the bus accesses and the loss of reservations is kept by every load, store and fetch.
\<close>

locale access_contract =
  fixes P :: "cpu \<Rightarrow> bool"
  assumes kp_read: "P c \<Longrightarrow> P (snd (read_reg i c))"
    and kp_alu: "P c \<Longrightarrow> P (snd (alu opr a b c))"
    and kp_translate: "P c \<Longrightarrow> P (snd (hart_translate va ty p c))"
    and kp_load: "P c \<Longrightarrow> P (snd (hart_load pa n ty c))"
    and kp_store: "P c \<Longrightarrow> P (snd (hart_store pa n v c))"
    and kp_note_store: "P c \<Longrightarrow> P (note_store pa n c)"
    and kp_next_pc: "P c \<Longrightarrow> \<not> bit t 0 \<Longrightarrow> P (c\<lparr>c_next_pc := t\<rparr>)"
    and kp_reserve: "P c \<Longrightarrow> P (set_own (\<lambda>mb. mb\<lparr>mb_reservation := g\<rparr>) c)"
    and kp_reservation: "P c \<Longrightarrow> P (c\<lparr>c_reservation_valid := w\<rparr>)" "P c \<Longrightarrow> P (c\<lparr>c_reservation_addr := a\<rparr>)"
begin

lemma state_case: "P (snd r) \<Longrightarrow> (\<And>v c. P c \<Longrightarrow> P (snd (k v c))) \<Longrightarrow> P (snd (case r of (v, c) \<Rightarrow> k v c))"
  by (cases r) simp

lemma state_seq: "P (snd r) \<Longrightarrow> (\<And>v c. P c \<Longrightarrow> P (snd (k v c))) \<Longrightarrow> P (snd (and_then r k))"
  by (cases r; cases "fst r") (auto simp: and_then_def)

lemma state_if: "(b \<Longrightarrow> P (snd x)) \<Longrightarrow> (\<not> b \<Longrightarrow> P (snd y)) \<Longrightarrow> P (snd (if b then x else y))"
  by simp

lemma state_if': "(b \<Longrightarrow> P x) \<Longrightarrow> (\<not> b \<Longrightarrow> P y) \<Longrightarrow> P (if b then x else y)"
  by simp

lemma state_option:
  "(z = None \<Longrightarrow> P (snd x)) \<Longrightarrow> (\<And>v. z = Some v \<Longrightarrow> P (snd (y v))) \<Longrightarrow>
     P (snd (case z of None \<Rightarrow> x | Some v \<Rightarrow> y v))"
  by (cases z) auto

lemma state_pair: "P c \<Longrightarrow> P (snd (x, c))"
  by simp

lemmas access_rules = state_case state_seq state_if state_if' state_option state_pair kp_read kp_alu
  kp_translate kp_load kp_store kp_note_store kp_next_pc kp_reserve kp_reservation

lemma load_bytes: "P c \<Longrightarrow> P (snd (load_bytes va ty p is v c))"
  by (induction "is" arbitrary: v c) (simp_all add: access_rules)

lemma probe_bytes: "P c \<Longrightarrow> P (snd (probe_bytes va p is c))"
  by (induction "is" arbitrary: c) (simp_all add: access_rules)

lemma store_bytes: "P c \<Longrightarrow> P (snd (store_bytes va p is v c))"
  by (induction "is" arbitrary: c) (simp_all add: access_rules)

lemma mem_load: "P c \<Longrightarrow> P (snd (mem_load va n ty c))"
  unfolding mem_load_def load_across_pages_def Let_def by (intro access_rules load_bytes)

lemma mem_store: "P c \<Longrightarrow> P (snd (mem_store va n v c))"
  unfolding mem_store_def store_across_pages_def Let_def by (intro access_rules store_bytes probe_bytes)

lemma fetch: "P c \<Longrightarrow> P (snd (fetch_inst c))"
  unfolding fetch_inst_def Let_def by (intro access_rules mem_load; assumption)

lemma branch_target: "P c \<Longrightarrow> P (snd (set_branch_target t c))"
  unfolding set_branch_target_def by (intro access_rules) (simp_all add: and_one_eq odd_iff_mod_2_eq_one bit_0)

end

text \<open>With the laws for everything else an instruction changes, the predicate is kept by every instruction.\<close>

locale hart_contract = access_contract +
  assumes kp_write: "P c \<Longrightarrow> P (write_reg i v c)"
    and kp_flush: "P c \<Longrightarrow> P (flush_decode_cache c)"
    and kp_mmu_flush: "P c \<Longrightarrow> P (c\<lparr>c_mmu := mmu_flush (c_mmu c)\<rparr>)"
    and kp_waiting: "P c \<Longrightarrow> P (c\<lparr>c_waiting_for_interrupt := w\<rparr>)"
    and kp_counter: "P c \<Longrightarrow> P (c\<lparr>c_counter_written := w\<rparr>)"
    and kp_fregs: "P c \<Longrightarrow> P (c\<lparr>c_fregs := fr\<rparr>)"
    and kp_fpu_dirty: "P c \<Longrightarrow> P (c\<lparr>c_csrs := mark_fpu_dirty (c_csrs c)\<rparr>)"
    and kp_fflags: "P c \<Longrightarrow> P (c\<lparr>c_csrs := raise_fflags fl (c_csrs c)\<rparr>)"
    and kp_csr: "P c \<Longrightarrow> csr_exists ad \<Longrightarrow> \<not> is_read_only ad \<Longrightarrow> min_privilege ad \<le> c_priv c \<Longrightarrow>
      P (c\<lparr>c_csrs := csr_write ad v (c_csrs c)\<rparr>)"
    and kp_mret: "P c \<Longrightarrow> P (snd (execute_mret inst c))"
    and kp_sret: "P c \<Longrightarrow> P (snd (execute_sret inst c))"
    and kp_ecall: "P c \<Longrightarrow> c_priv c = PRIV_SUPERVISOR \<Longrightarrow> P (snd (handle_ecall c))"
begin

lemmas state_rules = access_rules kp_write kp_flush kp_mmu_flush kp_waiting kp_counter kp_fregs kp_fpu_dirty kp_fflags

lemma jumps: "P c \<Longrightarrow> P (snd (execute_jal inst c))" "P c \<Longrightarrow> P (snd (execute_jalr inst c))"
  "P c \<Longrightarrow> P (snd (execute_branch inst c))"
  unfolding execute_jal_def execute_jalr_def execute_branch_def Let_def
  by (intro state_rules branch_target; assumption)+

lemma write_freg: "P c \<Longrightarrow> P (write_freg i v c)"
  using kp_fpu_dirty [OF kp_fregs, of c] by (simp add: write_freg_def)

lemma state_kind: "(\<And>a b. P (snd (k a b))) \<Longrightarrow> P (snd (case (r :: nat \<times> bool) of (a, b) \<Rightarrow> k a b))"
  by (cases r) simp

lemma memory_access: "P c \<Longrightarrow> P (snd (execute_load inst c))" "P c \<Longrightarrow> P (snd (execute_store inst c))"
  "P c \<Longrightarrow> P (snd (execute_load_fp inst c))" "P c \<Longrightarrow> P (snd (execute_store_fp inst c))"
  unfolding execute_load_def execute_store_def execute_load_fp_def execute_store_fp_def Let_def
  by (intro state_rules mem_load mem_store state_kind write_freg; assumption)+

lemma zb_probes: "P c \<Longrightarrow> P (snd (execute_zb_op inst c))" "P c \<Longrightarrow> P (snd (execute_zb_op_32 inst c))"
  "P c \<Longrightarrow> P (snd (execute_zb_op_imm inst c))" "P c \<Longrightarrow> P (snd (execute_zb_op_imm_32 inst c))"
  unfolding execute_zb_op_def execute_zb_op_32_def execute_zb_op_imm_def execute_zb_op_imm_32_def Let_def
  by (intro state_rules; assumption)+

lemma state_or_else: "P (snd r) \<Longrightarrow> (\<And>c. P c \<Longrightarrow> P (snd (k c))) \<Longrightarrow> P (snd (or_else r k))"
  by (auto simp: or_else_def split: prod.split option.split)

lemma arithmetic: "P c \<Longrightarrow> P (snd (execute_op_imm inst c))" "P c \<Longrightarrow> P (snd (execute_op_imm_32 inst c))"
  "P c \<Longrightarrow> P (snd (execute_op inst c))" "P c \<Longrightarrow> P (snd (execute_op_32 inst c))"
  unfolding execute_op_imm_def execute_op_imm_32_def execute_op_def execute_op_32_def execute_mul_div_def
    execute_mul_div_32_def Let_def
  by (intro state_rules state_or_else zb_probes; assumption)+

lemma amo: "P c \<Longrightarrow> P (snd (execute_amo inst c))"
  unfolding execute_amo_def execute_lr_def execute_sc_def Let_def
  by (intro state_rules mem_load mem_store; assumption)

lemma put: "P c \<Longrightarrow> P (snd (put inst d r c))"
  unfolding put_def Let_def by (cases r) (simp add: kp_fflags write_freg)

lemma state_flags: "(\<And>a b. P (snd (k a b))) \<Longrightarrow> P (snd (case (r :: 'x \<times> u64) of (a, b) \<Rightarrow> k a b))"
  by (cases r) simp

lemma op_fp: "P c \<Longrightarrow> P (snd (execute_op_fp inst c))" "P c \<Longrightarrow> P (snd (execute_fused_madd inst c))"
  unfolding execute_op_fp_def execute_fused_madd_def Let_def
  by (intro state_rules put write_freg state_flags; assumption)+

lemma satp_flush: "P c \<Longrightarrow> P (flush_decode_cache (c\<lparr>c_mmu := mmu_flush (c_mmu c)\<rparr>))"
  by (intro kp_flush kp_mmu_flush)

lemma hart_csr_write:
  assumes "P c"
  shows "P (snd (hart_csr_write a v c))"
proof -
  let ?fp = "a = FCSR \<or> a = FFLAGS \<or> a = FRM"
  define c1 where "c1 = (if ?fp then c\<lparr>c_csrs := mark_fpu_dirty (c_csrs c)\<rparr> else c)"
  define c2 where "c2 = (if a = MINSTRET \<or> a = MCYCLE then c1\<lparr>c_counter_written := True\<rparr> else c1)"
  have 1: "P c1"
    using assms kp_fpu_dirty by (simp add: c1_def)
  then have 2: "P c2" "c_priv c2 = c_priv c1"
    using kp_counter by (simp_all add: c2_def)
  have "P (c2\<lparr>c_csrs := csr_write a v (c_csrs c2)\<rparr>)"
    if "csr_exists a" "\<not> is_read_only a" "min_privilege a \<le> c_priv c1"
    using kp_csr [OF 2(1) that(1,2)] that(3) 2(2) by simp
  then show ?thesis
    unfolding hart_csr_write_def Let_def c1_def [symmetric] c2_def [symmetric]
    by (intro state_if state_pair assms 1 state_if' satp_flush) (auto simp: not_less)
qed

lemma csr_instruction: "P c \<Longrightarrow> P (snd (execute_csr inst c))"
  unfolding execute_csr_def Let_def
  by (intro state_rules hart_csr_write; assumption)

lemma system: "P c \<Longrightarrow> P (snd (execute_system inst c))"
  unfolding execute_system_def execute_sfence_vma_def Let_def
  by (intro state_rules csr_instruction kp_mret kp_sret kp_ecall; assumption)

theorem execute: "P c \<Longrightarrow> P (snd (execute inst c))"
  unfolding execute_def Let_def
  by (intro state_rules jumps memory_access arithmetic amo op_fp system; assumption)

end

section \<open>The invariant of a hart\<close>

text \<open>
  Legal control registers, a well-formed bus, a mailbox of its own, a privilege level of at most
  machine, and program counters and cached instruction lengths that keep the halfword alignment.
\<close>

definition cpu_inv :: "cpu \<Rightarrow> bool" where
  "cpu_inv c \<longleftrightarrow>
     csr_inv (c_csrs c) \<and> bus_inv (c_bus c) \<and> unat (c_hartid c) < length (c_peers c) \<and>
     c_priv c \<le> PRIV_MACHINE \<and> (\<forall>i. \<not> bit (i_length (de_inst (c_dcache c i))) 0)"

text \<open>The invariant of a hart that was started at an even address.\<close>

definition aligned_inv :: "cpu \<Rightarrow> bool" where
  "aligned_inv c \<longleftrightarrow> cpu_inv c \<and> \<not> bit (c_pc c) 0 \<and> \<not> bit (c_next_pc c) 0"

lemma walk_bus_inv: "bus_inv b \<Longrightarrow> bus_inv (snd (walk va ty l t b))"
  by (induction l arbitrary: t b) (auto simp: Let_def split_beta bus_inv_load split: sum.split)

lemma translate_bus_inv: "bus_inv (snd s) \<Longrightarrow> bus_inv (snd (snd (translate csrs va ty p s)))"
proof -
  assume b: "bus_inv (snd s)"
  have "bus_inv (snd (snd (translate_miss csrs va ty p s)))"
    using walk_bus_inv [OF b] bus_inv_store
    by (auto simp: translate_miss_def Let_def split_beta split: sum.split)
  then show ?thesis
    using b bus_inv_store by (auto simp: translate_def translate_paged_def Let_def split_beta)
qed

lemma read_reg_frame [rv_frame]:
  "c_csrs (snd (read_reg i c)) = c_csrs c" "c_bus (snd (read_reg i c)) = c_bus c" "c_pc (snd (read_reg i c)) = c_pc c"
  "c_next_pc (snd (read_reg i c)) = c_next_pc c" "c_priv (snd (read_reg i c)) = c_priv c"
  "c_peers (snd (read_reg i c)) = c_peers c" "c_hartid (snd (read_reg i c)) = c_hartid c"
  "c_dcache (snd (read_reg i c)) = c_dcache c" "c_regs (snd (read_reg i c)) = c_regs c"
  "c_fregs (snd (read_reg i c)) = c_fregs c"
  by (auto simp: read_reg_def split: option.split prod.split)

lemma write_reg_frame [rv_frame]:
  "c_csrs (write_reg i v c) = c_csrs c" "c_bus (write_reg i v c) = c_bus c" "c_pc (write_reg i v c) = c_pc c"
  "c_next_pc (write_reg i v c) = c_next_pc c" "c_priv (write_reg i v c) = c_priv c"
  "c_peers (write_reg i v c) = c_peers c" "c_hartid (write_reg i v c) = c_hartid c"
  "c_dcache (write_reg i v c) = c_dcache c"
  by (auto simp: write_reg_def split: option.split)

lemma alu_frame [rv_frame]:
  "c_csrs (snd (alu opr a b c)) = c_csrs c" "c_bus (snd (alu opr a b c)) = c_bus c" "c_pc (snd (alu opr a b c)) = c_pc c"
  "c_next_pc (snd (alu opr a b c)) = c_next_pc c" "c_priv (snd (alu opr a b c)) = c_priv c"
  "c_peers (snd (alu opr a b c)) = c_peers c" "c_hartid (snd (alu opr a b c)) = c_hartid c"
  "c_dcache (snd (alu opr a b c)) = c_dcache c" "c_regs (snd (alu opr a b c)) = c_regs c"
  "c_fregs (snd (alu opr a b c)) = c_fregs c"
  by (auto simp: alu_def split: option.split prod.split)

lemma hart_access_frame [rv_frame]:
  "c_bus (snd (hart_translate va ty p c)) = snd (snd (translate (c_csrs c) va ty p (c_mmu c, c_bus c)))"
  "c_bus (snd (hart_load pa n ty c)) = snd (bus_load pa n ty (c_bus c))"
  "c_bus (snd (hart_store pa n v c)) = snd (bus_store pa n v (c_bus c))"
  by (auto simp: hart_translate_def hart_load_def hart_store_def split: prod.split)

lemma mailbox_frame [rv_frame]:
  "cpu_inv (update_mailbox i f c) = cpu_inv c" "cpu_inv (set_own f c) = cpu_inv c"
  by (simp_all add: cpu_inv_def update_mailbox_def set_own_def)

lemma inv_registers: "cpu_inv c \<Longrightarrow> cpu_inv (snd (read_reg i c))" "cpu_inv c \<Longrightarrow> cpu_inv (write_reg i v c)"
  "cpu_inv c \<Longrightarrow> cpu_inv (snd (alu opr a b c))"
  by (simp_all add: cpu_inv_def rv_frame)

lemma inv_access: "cpu_inv c \<Longrightarrow> cpu_inv (snd (hart_translate va ty p c))"
  "cpu_inv c \<Longrightarrow> cpu_inv (snd (hart_load pa n ty c))" "cpu_inv c \<Longrightarrow> cpu_inv (snd (hart_store pa n v c))"
  using translate_bus_inv [of "(c_mmu c, c_bus c)" "c_csrs c" va ty p]
  by (auto simp: cpu_inv_def hart_translate_def hart_load_def hart_store_def bus_inv_load bus_inv_store
      split: prod.splits dest: bus_inv_load [of _ pa n ty] bus_inv_store [of _ pa n v])

lemma inv_caches: "cpu_inv c \<Longrightarrow> cpu_inv (flush_decode_cache c)" "cpu_inv c \<Longrightarrow> cpu_inv (note_store pa n c)"
  "cpu_inv c \<Longrightarrow> cpu_inv (remote_fence c)" "cpu_inv c \<Longrightarrow> cpu_inv (clear_reservation c)"
  by (simp_all add: cpu_inv_def flush_decode_cache_def note_store_def remote_fence_def clear_reservation_def
      set_own_def update_mailbox_def Let_def)

lemma inv_csrs: "cpu_inv c \<Longrightarrow> csr_inv s \<Longrightarrow> cpu_inv (c\<lparr>c_csrs := s\<rparr>)"
  by (simp add: cpu_inv_def)

lemma cpu_inv_csr: "cpu_inv c \<Longrightarrow> csr_inv (c_csrs c)"
  by (simp add: cpu_inv_def)

lemma epc_even: "csr_inv s \<Longrightarrow> \<not> bit (csr_read MEPC s) 0" "csr_inv s \<Longrightarrow> \<not> bit (csr_read SEPC s) 0"
  using csr_invD [of s MEPC] csr_invD [of s SEPC] by (simp_all add: csr_legal_def csr_read_def)

lemma mpp_field: "ucast (drop_bit 11 (w AND MSTATUS_MPP)) \<le> (3 :: u32)"
proof -
  have "(ucast (drop_bit 11 (w AND MSTATUS_MPP)) :: u32) < 2 ^ 2"
    by (rule word_less_expI) (auto simp: bit_simps mask_bits)
  then show ?thesis
    by (simp add: word_less_nat_alt word_le_nat_alt)
qed

lemma inv_mret: "cpu_inv c \<Longrightarrow> cpu_inv (snd (execute_mret inst c))"
  unfolding execute_mret_def Let_def cpu_inv_def
  using mpp_field csr_inv_ops(2) by (auto simp del: drop_bit_and drop_bit_or)

lemma inv_sret: "cpu_inv c \<Longrightarrow> cpu_inv (snd (execute_sret inst c))"
  unfolding execute_sret_def Let_def cpu_inv_def
  using csr_inv_ops(2) by auto

lemma inv_devices:
  "bus_inv b \<Longrightarrow> clint_inv cl \<Longrightarrow> bus_inv (b\<lparr>b_clint := cl\<rparr>)" "bus_inv b \<Longrightarrow> uart_inv u \<Longrightarrow> bus_inv (b\<lparr>b_uart := u\<rparr>)"
  "bus_inv b \<Longrightarrow> bus_inv (b\<lparr>b_clock := k\<rparr>)"
  by (simp_all add: bus_inv_def ranges_ok_def)

lemma set_timer_csrs: "csr_inv s \<Longrightarrow> csr_inv (snd (set_timer d s h cl))"
  by (simp add: set_timer_def Let_def csr_inv_ops(6))

lemma inv_set_timer: "cpu_inv c \<Longrightarrow> cpu_inv (sbi_set_timer d c)"
  using clint_inv_ops(1) [of "b_clint (c_bus c)"] set_timer_csrs [of "c_csrs c"]
  by (auto simp: sbi_set_timer_def cpu_inv_def split_beta intro!: inv_devices) (simp add: bus_inv_def)

lemma inv_set_return: "cpu_inv c \<Longrightarrow> cpu_inv (set_return e v c)"
  by (simp add: set_return_def inv_registers)

lemma ssip_legal: "MIP_SSIP AND NOT INTERRUPT_MASK = 0"
  by (rule bit_word_eqI) (auto simp: bit_simps mask_bits)

lemma fold_inv: "(\<And>x c. P c \<Longrightarrow> P (f x c)) \<Longrightarrow> P c \<Longrightarrow> P (fold f xs c)"
  by (induction xs arbitrary: c) auto

lemma inv_own_ipi: "cpu_inv c \<Longrightarrow> cpu_inv (c\<lparr>c_csrs := raise_interrupt MIP_SSIP (c_csrs c)\<rparr>)"
  using csr_inv_ops(7) [OF cpu_inv_csr ssip_legal] inv_csrs by blast

lemma inv_ipi: "cpu_inv c \<Longrightarrow> cpu_inv (sbi_ipi fid a0 c)"
proof -
  assume c: "cpu_inv c"
  have "cpu_inv (fold (\<lambda>i c. if i = me then c\<lparr>c_csrs := raise_interrupt MIP_SSIP (c_csrs c)\<rparr>
      else update_mailbox i send_ipi c) ids (snd (read_reg 11 c)))" for me ids
    by (rule fold_inv [of cpu_inv]) (simp_all add: c inv_own_ipi inv_registers mailbox_frame)
  then show ?thesis
    using inv_registers(1) [OF c] c unfolding sbi_ipi_def
    by (auto simp: Let_def split_beta inv_set_return split: option.split)
qed

lemma inv_rfence: "cpu_inv c \<Longrightarrow> cpu_inv (sbi_rfence fid a0 c)"
proof -
  assume c: "cpu_inv c"
  have "cpu_inv (fold (\<lambda>i c. if i = me then remote_fence c else update_mailbox i send_fence c) ids
      (snd (read_reg 11 c)))" for me ids
    by (rule fold_inv [of cpu_inv]) (simp_all add: c inv_caches inv_registers mailbox_frame)
  then show ?thesis
    using inv_registers(1) [OF c] c unfolding sbi_rfence_def
    by (auto simp: Let_def split_beta inv_set_return split: option.split)
qed

lemma inv_waiting: "cpu_inv (c\<lparr>c_waiting_for_interrupt := w\<rparr>) = cpu_inv c"
  by (simp add: cpu_inv_def)

lemma inv_hsm: "cpu_inv c \<Longrightarrow> cpu_inv (sbi_hsm fid a0 c)"
  unfolding sbi_hsm_def
  by (simp add: Let_def split_beta set_parked_def mailbox_frame inv_set_return inv_registers inv_waiting)

lemma inv_base: "cpu_inv c \<Longrightarrow> cpu_inv (sbi_base fid a0 c)"
  by (simp add: sbi_base_def inv_set_return)

lemma inv_getchar: "cpu_inv c \<Longrightarrow> cpu_inv (c\<lparr>c_bus := (c_bus c)\<lparr>b_uart := snd (take_input_byte (b_uart (c_bus c)))\<rparr>\<rparr>)"
  using uart_inv_ops(6) by (auto simp: cpu_inv_def intro!: inv_devices) (simp add: bus_inv_def)

lemma inv_host: "cpu_inv (c\<lparr>c_stdout := out\<rparr>) = cpu_inv c" "cpu_inv (c\<lparr>c_halted := h, c_sbi_shutdown := s\<rparr>) = cpu_inv c"
  by (simp_all add: cpu_inv_def)

lemma inv_ecall: "cpu_inv c \<Longrightarrow> cpu_inv (snd (handle_ecall c))"
  unfolding handle_ecall_def
  by (simp add: Let_def split_beta inv_registers inv_set_timer inv_set_return inv_getchar inv_host inv_base inv_ipi
      inv_rfence inv_hsm)

interpretation hi: hart_contract cpu_inv
  by unfold_locales
    (simp_all add: inv_registers inv_access inv_caches mailbox_frame inv_mret inv_sret inv_ecall inv_csrs cpu_inv_csr
      csr_inv_ops(3,4) csr_inv_write, simp_all add: cpu_inv_def)

text \<open>Firmware calls leave the program counter and the privilege level alone.\<close>

definition same_flow :: "cpu \<Rightarrow> cpu \<Rightarrow> bool" where
  "same_flow c c' \<longleftrightarrow> c_pc c' = c_pc c \<and> c_next_pc c' = c_next_pc c \<and> c_priv c' = c_priv c"

lemma same_flow_simps:
  "same_flow c (write_reg i v c') = same_flow c c'" "same_flow c (snd (read_reg i c')) = same_flow c c'"
  "same_flow c (update_mailbox i f c') = same_flow c c'" "same_flow c (set_own f c') = same_flow c c'"
  "same_flow c (set_return e v c') = same_flow c c'" "same_flow c (remote_fence c') = same_flow c c'"
  "same_flow c (c'\<lparr>c_csrs := s\<rparr>) = same_flow c c'" "same_flow c (c'\<lparr>c_bus := b\<rparr>) = same_flow c c'"
  "same_flow c (c'\<lparr>c_stdout := out\<rparr>) = same_flow c c'" "same_flow c (c'\<lparr>c_halted := h, c_sbi_shutdown := q\<rparr>) = same_flow c c'"
  "same_flow c (c'\<lparr>c_bus := b, c_csrs := s\<rparr>) = same_flow c c'" "same_flow c (c'\<lparr>c_waiting_for_interrupt := w\<rparr>) = same_flow c c'"
  by (simp_all add: same_flow_def rv_frame update_mailbox_def set_own_def set_return_def remote_fence_def
      flush_decode_cache_def)

lemma ecall_flow: "same_flow c (snd (handle_ecall c))"
proof -
  have ipi: "same_flow c (sbi_ipi fid a0 c')" and fence: "same_flow c (sbi_rfence fid a0 c')" if "same_flow c c'" for fid a0 c'
    using that
    by (auto simp: sbi_ipi_def sbi_rfence_def Let_def split_beta same_flow_simps split: option.split
        intro!: fold_inv [of "same_flow c"])
  have "same_flow c c"
    by (simp add: same_flow_def)
  then show ?thesis
    unfolding handle_ecall_def
    by (simp add: Let_def split_beta ipi fence same_flow_simps sbi_set_timer_def sbi_base_def sbi_hsm_def set_parked_def)
qed

lemma access_frame [rv_frame]:
  "c_pc (snd (hart_translate va ty p c)) = c_pc c" "c_next_pc (snd (hart_translate va ty p c)) = c_next_pc c"
  "c_pc (snd (hart_load pa n ty c)) = c_pc c" "c_next_pc (snd (hart_load pa n ty c)) = c_next_pc c"
  "c_pc (snd (hart_store pa n v c)) = c_pc c" "c_next_pc (snd (hart_store pa n v c)) = c_next_pc c"
  "c_pc (note_store pa n c) = c_pc c" "c_next_pc (note_store pa n c) = c_next_pc c"
  "c_pc (flush_decode_cache c) = c_pc c" "c_next_pc (flush_decode_cache c) = c_next_pc c"
  "c_pc (set_own f c) = c_pc c" "c_next_pc (set_own f c) = c_next_pc c"
  by (simp_all add: hart_translate_def hart_load_def hart_store_def note_store_def flush_decode_cache_def set_own_def
      update_mailbox_def Let_def split_beta)

lemma returns_even: "cpu_inv c \<Longrightarrow> aligned_inv c \<Longrightarrow> aligned_inv (snd (execute_mret inst c))"
  "cpu_inv c \<Longrightarrow> aligned_inv c \<Longrightarrow> aligned_inv (snd (execute_sret inst c))"
  using inv_mret [of c inst] inv_sret [of c inst] epc_even [OF csr_inv_ops(2) [OF cpu_inv_csr]]
  by (auto simp: aligned_inv_def execute_mret_def execute_sret_def Let_def)

interpretation ha: hart_contract aligned_inv
proof
  fix c i assume c: "aligned_inv c"
  then have inv: "cpu_inv c"
    by (simp add: aligned_inv_def)
  show "aligned_inv (snd (execute_mret i c))" "aligned_inv (snd (execute_sret i c))"
    using inv c returns_even by blast+
  show "aligned_inv (snd (handle_ecall c))"
    using c inv_ecall [OF inv] ecall_flow [of c] by (simp add: aligned_inv_def same_flow_def)
qed (auto simp: aligned_inv_def rv_frame hi.state_rules hi.kp_csr)

section \<open>Steps\<close>

lemma trap_vector_even: "\<not> bit (target AND NOT MTVEC_MODE_MASK) 0" "\<not> bit ((target AND NOT MTVEC_MODE_MASK) + 4 * w) 0"
  by (simp_all add: bit_simps even_add bit_0 even_and_iff)

lemma inv_enter_trap: "cpu_inv c \<Longrightarrow> cpu_inv (enter_trap cause tval epc intr c)"
  unfolding enter_trap_def Let_def clear_reservation_def
  by (simp add: mailbox_frame) (simp add: cpu_inv_def csr_inv_ops(2) csr_inv_write)

lemma aligned_enter_trap: "aligned_inv c \<Longrightarrow> aligned_inv (enter_trap cause tval epc intr c)"
  using inv_enter_trap [of c cause tval epc intr] trap_vector_even
  by (simp add: aligned_inv_def) (simp add: enter_trap_def Let_def clear_reservation_def rv_frame)

lemma fetch_length: "fetch_inst c = (Inr i, c') \<Longrightarrow> \<not> bit (i_length i) 0"
proof -
  have even: "\<not> bit (i_length (decode16 lo hi)) 0" for lo hi
    by (simp add: decode16_def Let_def bit_0)
  assume "fetch_inst c = (Inr i, c')"
  then show ?thesis
    using even by (auto simp: fetch_inst_def and_then_def Let_def split: if_splits prod.splits sum.splits)
qed

lemma fill_frame [rv_frame]: "c_pc (cache_fill i c) = c_pc c" "c_next_pc (cache_fill i c) = c_next_pc c"
  using access_frame(1,2) [of "c_pc c" Instruction "c_priv c" c]
  by (auto simp: cache_fill_def Let_def split: prod.split sum.split)

lemma inv_fill:
  assumes "cpu_inv c" "\<not> bit (i_length i) 0"
  shows "cpu_inv (cache_fill i c)"
proof -
  have "bus_inv (b\<lparr>b_ram := mark_code_page off (b_ram b)\<rparr>)" if "bus_inv b" for b off
    using that by (intro bus_inv_ram dram_inv_mark) (simp_all add: bus_inv_def mark_code_page_def Let_def)
  then have "cpu_inv (d\<lparr>c_bus := (c_bus d)\<lparr>b_ram := mark_code_page off (b_ram (c_bus d))\<rparr>, c_dcache := (c_dcache d)(k :=
      \<lparr>de_pc = pc, de_priv = p, de_inst = i\<rparr>)\<rparr>)" if "cpu_inv d" for d off k pc p
    using that assms(2) by (simp add: cpu_inv_def)
  then show ?thesis
    using assms(1) inv_access(1) [OF assms(1), of "c_pc c" Instruction "c_priv c"]
    by (auto simp: cache_fill_def Let_def split: prod.split sum.split)
qed

lemma inv_sync: "cpu_inv c \<Longrightarrow> cpu_inv (sync_decode_cache c)"
  using inv_caches(1) [of c] by (auto simp: sync_decode_cache_def Let_def cpu_inv_def)

lemma cached_fetch_keeps:
  assumes "aligned_inv c" "cached_fetch (sync_decode_cache c) = (r, d)"
  shows "aligned_inv d" "r = Inr i \<Longrightarrow> \<not> bit (i_length i) 0"
proof -
  let ?s = "sync_decode_cache c"
  have s: "aligned_inv ?s"
    using assms(1) inv_sync by (auto simp: aligned_inv_def sync_decode_cache_def Let_def rv_frame)
  have fill: "aligned_inv (cache_fill i e)" if "fetch_inst ?s = (Inr i, e)" for i e
    using ha.fetch [OF s] fetch_length [OF that] inv_fill [of e i] that by (simp add: aligned_inv_def rv_frame)
  show "aligned_inv d"
    using assms(2) s fill ha.fetch [OF s]
    by (auto simp: cached_fetch_def Let_def split: if_splits prod.splits sum.splits)
  show "\<not> bit (i_length i) 0" if "r = Inr i"
    using assms(2) that s fetch_length [of ?s]
    by (auto simp: cached_fetch_def Let_def aligned_inv_def cpu_inv_def split: if_splits prod.splits sum.splits)
qed

lemma retire_keeps: "aligned_inv c \<Longrightarrow> aligned_inv (retire c)"
  by (simp add: retire_def Let_def aligned_inv_def cpu_inv_def csr_inv_ops(5))

lemma trap_or_stop_keeps: "aligned_inv c \<Longrightarrow> aligned_inv (snd (handle_trap_or_stop t c))"
proof -
  assume c: "aligned_inv c"
  have "aligned_inv (c\<lparr>c_last_trap := Some t\<rparr>)"
    using c by (simp add: aligned_inv_def cpu_inv_def)
  then show ?thesis
    using aligned_enter_trap by (simp add: handle_trap_or_stop_def take_trap_def Let_def)
qed

lemma even_next: "\<not> bit a 0 \<Longrightarrow> \<not> bit b 0 \<Longrightarrow> \<not> bit (a + b :: u64) 0"
  by (simp add: bit_0)

lemma begin_keeps:
  "aligned_inv c \<Longrightarrow> \<not> bit (i_length i) 0 \<Longrightarrow> aligned_inv (c\<lparr>c_next_pc := c_pc c + i_length i, c_counter_written := False\<rparr>)"
  by (simp add: aligned_inv_def cpu_inv_def even_next)

section \<open>Properties\<close>


lemma cpu_new_inv: "bus_inv b \<Longrightarrow> aligned_inv (cpu_new b)"
  by (simp add: aligned_inv_def cpu_inv_def cpu_new_def csr_inv_new decoded_inst_default_def bit_0)


end
