(* ===== verification/Hart_User.thy ===== *)
theory Hart_User
  imports Hart_Inv
begin

text \<open>
  What an instruction can do in user mode: the contract of \<open>Hart_Inv\<close> interpreted for a predicate
  that fixes the privilege level, the control registers and the state of the other harts.
\<close>

section \<open>Confinement\<close>

text \<open>
  The state \<open>c\<close> differs from \<open>c0\<close> only in what user mode may change: no control register but the
  floating-point status and the floating-point field of \<open>mstatus\<close>, no other hart except for a
  reservation it loses, not the power state.
\<close>

definition user_confined :: "cpu \<Rightarrow> cpu \<Rightarrow> bool" where
  "user_confined c0 c \<longleftrightarrow>
     c_priv c = PRIV_USER \<and>
     (\<forall>a. a \<noteq> FCSR \<longrightarrow> a \<noteq> MSTATUS \<longrightarrow> csr_raw (c_csrs c) a = csr_raw (c_csrs c0) a) \<and>
     csr_raw (c_csrs c) MSTATUS AND NOT MSTATUS_FS = csr_raw (c_csrs c0) MSTATUS AND NOT MSTATUS_FS \<and>
     c_halted c = c_halted c0 \<and> c_sbi_shutdown c = c_sbi_shutdown c0 \<and>
     map (mb_reservation_update (\<lambda>g. 0)) (c_peers c) = map (mb_reservation_update (\<lambda>g. 0)) (c_peers c0)"

lemma user_registers:
  "csr_exists a \<Longrightarrow> \<not> is_read_only a \<Longrightarrow> min_privilege a \<le> PRIV_USER \<Longrightarrow> a = FCSR \<or> a = FFLAGS \<or> a = FRM"
proof -
  have "drop_bit 8 a = 3" if "PMPADDR0 \<le> a" "a \<le> PMPADDR15"
    using that by (simp add: word_unat_eq_iff word_le_nat_alt drop_bit_eq_div unat_div)
  moreover assume "csr_exists a" "\<not> is_read_only a" "min_privilege a \<le> PRIV_USER"
  ultimately show ?thesis
    by (auto simp: csr_exists_def is_read_only_def min_privilege_def)
qed

lemma user_csr_write: "a = FCSR \<or> a = FFLAGS \<or> a = FRM \<Longrightarrow> b \<noteq> FCSR \<Longrightarrow> csr_raw (csr_write a v s) b = csr_raw s b"
  by (auto simp: csr_write_def csr_set_raw_def Let_def)

lemma fpu_csr_frame:
  "b \<noteq> MSTATUS \<Longrightarrow> csr_raw (mark_fpu_dirty s) b = csr_raw s b" "b \<noteq> FCSR \<Longrightarrow> csr_raw (raise_fflags f s) b = csr_raw s b"
  "csr_raw (mark_fpu_dirty s) MSTATUS AND NOT MSTATUS_FS = csr_raw s MSTATUS AND NOT MSTATUS_FS"
  by (auto simp: mark_fpu_dirty_def raise_fflags_def csr_set_raw_def intro!: bit_word_eqI simp: bit_simps mask_bits)

lemma power_frame:
  "c_halted (snd (read_reg i c)) = c_halted c" "c_sbi_shutdown (snd (read_reg i c)) = c_sbi_shutdown c"
  "c_halted (write_reg i v c) = c_halted c" "c_sbi_shutdown (write_reg i v c) = c_sbi_shutdown c"
  "c_halted (snd (alu opr a b c)) = c_halted c" "c_sbi_shutdown (snd (alu opr a b c)) = c_sbi_shutdown c"
  by (auto simp: read_reg_def write_reg_def alu_def split: option.split prod.split)

lemma reservations_only:
  "map (mb_reservation_update (\<lambda>g. 0)) (c_peers (note_store pa n c)) = map (mb_reservation_update (\<lambda>g. 0)) (c_peers c)"
  "map (mb_reservation_update (\<lambda>g. 0)) ((c_peers c)[i := (c_peers c ! i)\<lparr>mb_reservation := g\<rparr>]) =
     map (mb_reservation_update (\<lambda>g. 0)) (c_peers c)"
  by (rule nth_equalityI; simp add: note_store_def Let_def)
    (cases "i < length (c_peers c)"; rule nth_equalityI; simp add: nth_list_update)

interpretation hu: hart_contract "user_confined c0" for c0
proof
  fix c ad v
  assume "user_confined c0 c" "csr_exists ad" "\<not> is_read_only ad" "min_privilege ad \<le> c_priv c"
  then show "user_confined c0 (c\<lparr>c_csrs := csr_write ad v (c_csrs c)\<rparr>)"
    using user_registers [of ad] by (auto simp: user_confined_def user_csr_write)
next
  fix c pa n assume "user_confined c0 c"
  then show "user_confined c0 (note_store pa n c)"
    using reservations_only(1) [of pa n c] by (simp add: user_confined_def) (simp add: note_store_def Let_def)
next
  fix c g assume "user_confined c0 c"
  then show "user_confined c0 (set_own (\<lambda>mb. mb\<lparr>mb_reservation := g\<rparr>) c)"
    using reservations_only(2) [of c] by (simp add: user_confined_def set_own_def update_mailbox_def)
qed (auto simp: user_confined_def rv_frame power_frame fpu_csr_frame flush_decode_cache_def hart_translate_def hart_load_def
    hart_store_def execute_mret_def execute_sret_def Let_def split_beta)



end
