(* ===== verification/Hart_Trap.thy ===== *)
theory Hart_Trap
  imports Hart_Inv
begin

text \<open>
  Traps: an instruction that traps has changed no architectural register, entering a trap saves what
  the return instruction restores, and which interrupt is taken.
\<close>

section \<open>Precise exceptions\<close>

definition same_arch :: "cpu \<Rightarrow> cpu \<Rightarrow> bool" where
  "same_arch c0 c \<longleftrightarrow>
     c_regs c = c_regs c0 \<and> c_fregs c = c_fregs c0 \<and> c_pc c = c_pc c0 \<and> c_priv c = c_priv c0 \<and> c_csrs c = c_csrs c0"

definition precise :: "cpu \<Rightarrow> 'a res \<times> cpu \<Rightarrow> bool" where
  "precise c0 r \<longleftrightarrow> (\<forall>t. fst r = Inl t \<longrightarrow> same_arch c0 (snd r))"

interpretation sa: access_contract "same_arch c0" for c0
  by unfold_locales
    (auto simp: same_arch_def rv_frame hart_translate_def hart_load_def hart_store_def note_store_def set_own_def
      update_mailbox_def Let_def split_beta)

lemma precise_done: "precise c0 (Inr v, c)" "same_arch c0 c \<Longrightarrow> precise c0 (Inl t, c)"
  by (simp_all add: precise_def)

lemma precise_same: "same_arch c0 (snd r) \<Longrightarrow> precise c0 r"
  by (simp add: precise_def)

lemma precise_seq:
  "same_arch c0 (snd r) \<Longrightarrow> (\<And>v c. same_arch c0 c \<Longrightarrow> precise c0 (k v c)) \<Longrightarrow> precise c0 (and_then r k)"
  by (cases r; cases "fst r") (auto simp: precise_def)

lemma precise_case:
  "same_arch c0 (snd r) \<Longrightarrow> (\<And>v c. same_arch c0 c \<Longrightarrow> precise c0 (k v c)) \<Longrightarrow> precise c0 (case r of (v, c) \<Rightarrow> k v c)"
  by (cases r) simp

lemma precise_if: "(b \<Longrightarrow> precise c0 x) \<Longrightarrow> (\<not> b \<Longrightarrow> precise c0 y) \<Longrightarrow> precise c0 (if b then x else y)"
  by simp

lemma precise_option:
  "(z = None \<Longrightarrow> precise c0 x) \<Longrightarrow> (\<And>v. z = Some v \<Longrightarrow> precise c0 (y v)) \<Longrightarrow>
     precise c0 (case z of None \<Rightarrow> x | Some v \<Rightarrow> y v)"
  by (cases z) auto

lemma precise_kind: "(\<And>a b. precise c0 (k a b)) \<Longrightarrow> precise c0 (case (r :: 'x \<times> 'y) of (a, b) \<Rightarrow> k a b)"
  by (cases r) simp

lemmas precise_rules = precise_done precise_seq precise_case precise_if precise_option
  sa.access_rules sa.mem_load sa.branch_target

lemma precise_jumps: assumes "same_arch c0 c"
  shows "precise c0 (execute_jal inst c)" "precise c0 (execute_jalr inst c)" "precise c0 (execute_branch inst c)"
  unfolding execute_jal_def execute_jalr_def execute_branch_def Let_def
  by (intro precise_rules assms precise_same [OF sa.branch_target]; assumption)+

lemma precise_memory: assumes "same_arch c0 c"
  shows "precise c0 (execute_load inst c)" "precise c0 (execute_store inst c)"
    "precise c0 (execute_load_fp inst c)" "precise c0 (execute_store_fp inst c)"
  unfolding execute_load_def execute_store_def execute_load_fp_def execute_store_fp_def Let_def
  by (intro precise_rules assms precise_kind [where 'x = nat and 'y = bool] precise_same [OF sa.mem_store]; assumption)+

definition probe_keeps :: "cpu \<Rightarrow> unit res option \<times> cpu \<Rightarrow> bool" where
  "probe_keeps c0 r \<longleftrightarrow> fst r = Some (Inr ()) \<or> same_arch c0 (snd r)"

lemma probe_rules:
  "probe_keeps c0 (Some (Inr ()), c)" "same_arch c0 c \<Longrightarrow> probe_keeps c0 (None, c)"
  "same_arch c0 c \<Longrightarrow> probe_keeps c0 (Some (Inl t), c)"
  "(b \<Longrightarrow> probe_keeps c0 x) \<Longrightarrow> (\<not> b \<Longrightarrow> probe_keeps c0 y) \<Longrightarrow> probe_keeps c0 (if b then x else y)"
  "(z = None \<Longrightarrow> probe_keeps c0 x) \<Longrightarrow> (\<And>v. z = Some v \<Longrightarrow> probe_keeps c0 (g v)) \<Longrightarrow>
     probe_keeps c0 (case z of None \<Rightarrow> x | Some v \<Rightarrow> g v)"
  by (auto simp: probe_keeps_def split: option.split)

lemma probe_case:
  "same_arch c0 (snd r) \<Longrightarrow> (\<And>w c. same_arch c0 c \<Longrightarrow> probe_keeps c0 (k w c)) \<Longrightarrow> probe_keeps c0 (case r of (w, c) \<Rightarrow> k w c)"
  by (cases r) simp

lemma zb_probes_keep: assumes "same_arch c0 c"
  shows "probe_keeps c0 (execute_zb_op inst c)" "probe_keeps c0 (execute_zb_op_32 inst c)"
    "probe_keeps c0 (execute_zb_op_imm inst c)" "probe_keeps c0 (execute_zb_op_imm_32 inst c)"
  unfolding execute_zb_op_def execute_zb_op_32_def execute_zb_op_imm_def execute_zb_op_imm_32_def Let_def
  by (intro probe_rules probe_case sa.kp_read assms; assumption)+

lemma precise_probe:
  "probe_keeps c0 r \<Longrightarrow> (\<And>c. same_arch c0 c \<Longrightarrow> precise c0 (k c)) \<Longrightarrow> precise c0 (or_else r k)"
  by (auto simp: or_else_def precise_def probe_keeps_def split: prod.splits option.splits)

lemma precise_arithmetic: assumes "same_arch c0 c"
  shows "precise c0 (execute_op_imm inst c)" "precise c0 (execute_op_imm_32 inst c)"
    "precise c0 (execute_op inst c)" "precise c0 (execute_op_32 inst c)"
  unfolding execute_op_imm_def execute_op_imm_32_def execute_op_def execute_op_32_def execute_mul_div_def
    execute_mul_div_32_def Let_def
  by (intro precise_rules precise_probe probe_rules zb_probes_keep assms; assumption)+

lemma precise_amo: assumes "same_arch c0 c"
  shows "precise c0 (execute_amo inst c)"
  unfolding execute_amo_def execute_lr_def execute_sc_def Let_def
  by (intro precise_rules sa.mem_store assms; assumption)

lemma precise_put: "precise c0 (put inst d r c)"
  by (simp add: put_def precise_def Let_def split_beta)

lemma precise_fp: assumes "same_arch c0 c"
  shows "precise c0 (execute_op_fp inst c)" "precise c0 (execute_fused_madd inst c)"
  unfolding execute_op_fp_def execute_fused_madd_def Let_def
  by (intro precise_rules precise_put assms precise_kind [where 'x = bool and 'y = u64]
    precise_kind [where 'x = fmt and 'y = u64] precise_kind [where 'x = u64 and 'y = u64]; assumption)+

lemma precise_csr_write: "same_arch c0 c \<Longrightarrow> precise c0 (hart_csr_write a v c)"
  by (auto simp: hart_csr_write_def precise_def Let_def is_read_only_def min_privilege_def tvm_blocks_def split: if_splits)

lemma precise_then_done: "precise c0 r \<Longrightarrow> precise c0 (and_then r (\<lambda>u c. (Inr (f u c), g u c)))"
  by (cases r; cases "fst r") (auto simp: precise_def)

lemma precise_csr: assumes "same_arch c0 c"
  shows "precise c0 (execute_csr inst c)"
  unfolding execute_csr_def Let_def
  by (intro precise_case precise_if precise_seq [where r = "(x, y)" for x y] precise_then_done precise_csr_write precise_done
    sa.state_if sa.state_pair sa.kp_read assms; assumption)

lemma precise_returns: assumes "same_arch c0 c"
  shows "precise c0 (execute_mret inst c)" "precise c0 (execute_sret inst c)"
  unfolding execute_mret_def execute_sret_def Let_def by (intro precise_if precise_done assms)+

lemma precise_system: assumes "same_arch c0 c"
  shows "precise c0 (execute_system inst c)"
proof -
  have "fst (handle_ecall c)"
    by (simp add: handle_ecall_def Let_def split_beta)
  then show ?thesis
    unfolding execute_system_def execute_sfence_vma_def Let_def split_beta
    by (intro precise_if precise_done precise_csr precise_returns assms) auto
qed

lemma precise_execute: assumes "same_arch c0 c"
  shows "precise c0 (execute inst c)"
  unfolding execute_def Let_def
  by (intro precise_if precise_done precise_jumps precise_memory precise_arithmetic precise_amo precise_fp precise_system assms)

text \<open>C6: Exceptions are precise: an instruction that traps leaves the integer and floating-point registers, the
  program counter, the privilege level and every control register as they were before it, so the handler
  can resume it.\<close>

theorem traps_precise:
  assumes "execute inst c = (Inl t, c')"
  shows "c_regs c' = c_regs c \<and> c_fregs c' = c_fregs c \<and> c_pc c' = c_pc c \<and> c_priv c' = c_priv c \<and> c_csrs c' = c_csrs c"
  using precise_execute [of c c inst] assms by (simp add: precise_def same_arch_def)

lemma traps_precise_witness:
  "c_regs (snd (execute (decode 0) (cpu_new sample_bus))) = c_regs (cpu_new sample_bus)"
proof -
  have "execute (decode 0) (cpu_new sample_bus) = (Inl (illegal (decode 0)), cpu_new sample_bus)"
    by (simp add: execute_def decode_def Let_def)
  from traps_precise [OF this] show ?thesis
    by (simp add: \<open>execute (decode 0) (cpu_new sample_bus) = _\<close>)
qed

section \<open>Entry and return\<close>

lemma flag_tests:
  "w AND MSTATUS_MIE = 0 \<longleftrightarrow> \<not> bit w 3" "w AND MSTATUS_SIE = 0 \<longleftrightarrow> \<not> bit w 1" "w AND MSTATUS_MPIE = 0 \<longleftrightarrow> \<not> bit w 7"
  "w AND MSTATUS_SPIE = 0 \<longleftrightarrow> \<not> bit w 5" "w AND MSTATUS_SPP = 0 \<longleftrightarrow> \<not> bit w 8" "w AND MSTATUS_TSR = 0 \<longleftrightarrow> \<not> bit w 22"
  unfolding MSTATUS_MIE_def MSTATUS_SIE_def MSTATUS_MPIE_def MSTATUS_SPIE_def MSTATUS_SPP_def MSTATUS_TSR_def and_push_bit_1
  by simp_all

lemma bit_set_flag: "bit (set_flag on m w) k \<longleftrightarrow> (if bit m k then on else bit w k)"
  by (auto simp: set_flag_def bit_simps dest: bit_imp_le_length)

lemma bit_mstatus: "k < 63 \<Longrightarrow> bit (csr_mstatus s) k \<longleftrightarrow> bit (csr_raw s MSTATUS) k"
  by (simp add: csr_mstatus_def csr_read_def read_mstatus_bit)

lemma bit_set_mstatus:
  "bit MSTATUS_MASK k \<Longrightarrow> bit (csr_raw (csr_set_mstatus v s) MSTATUS) k \<longleftrightarrow> bit v k"
  by (simp add: csr_set_mstatus_def csr_write_def csr_write_mask_def Let_def bit_simps)

lemma csr_set_mstatus_frame: "a \<noteq> MSTATUS \<Longrightarrow> csr_raw (csr_set_mstatus v s) a = csr_raw s a"
  by (simp add: csr_set_mstatus_def csr_write_def csr_write_mask_def Let_def)

lemma trap_csr_writes:
  "csr_raw (csr_write MEPC v s) = (csr_raw s)(MEPC := v AND NOT 1)" "csr_raw (csr_write SEPC v s) = (csr_raw s)(SEPC := v AND NOT 1)"
  "csr_raw (csr_write MCAUSE v s) = (csr_raw s)(MCAUSE := v)" "csr_raw (csr_write SCAUSE v s) = (csr_raw s)(SCAUSE := v)"
  "csr_raw (csr_write MTVAL v s) = (csr_raw s)(MTVAL := v)" "csr_raw (csr_write STVAL v s) = (csr_raw s)(STVAL := v)"
  by (simp_all add: csr_write_def csr_write_mask_def Let_def)

lemma even_and_not_1: "\<not> bit w 0 \<Longrightarrow> w AND NOT 1 = (w :: u64)"
  by (rule bit_word_eqI) (metis bit_1_iff bit_and_iff bit_not_iff possible_bit_word)

text \<open>The trap a hart is about to enter goes to supervisor mode.\<close>

definition delegated :: "u64 \<Rightarrow> bool \<Rightarrow> cpu \<Rightarrow> bool" where
  "delegated code intr c \<longleftrightarrow>
     c_priv c \<le> PRIV_SUPERVISOR \<and>
     (if intr then delegated_interrupt (code AND NOT (push_bit 63 1)) (c_csrs c)
      else delegated_exception (code AND NOT (push_bit 63 1)) (c_csrs c))"

lemma enter_machine:
  assumes "\<not> delegated code intr c" and e: "e = enter_trap code tval epc intr c"
  shows "c_priv e = PRIV_MACHINE" "csr_raw (c_csrs e) MCAUSE = code" "csr_raw (c_csrs e) MTVAL = tval"
    "csr_raw (c_csrs e) MEPC = epc AND NOT 1" "\<not> bit (csr_raw (c_csrs e) MSTATUS) 3"
    "bit (csr_raw (c_csrs e) MSTATUS) 7 \<longleftrightarrow> bit (csr_raw (c_csrs c) MSTATUS) 3"
    "bit (csr_raw (c_csrs e) MSTATUS) 11 \<longleftrightarrow> bit (c_priv c) 0" "bit (csr_raw (c_csrs e) MSTATUS) 12 \<longleftrightarrow> bit (c_priv c) 1"
  using assms(1) unfolding e enter_trap_def Let_def delegated_def [symmetric] clear_reservation_def
  by (simp_all add: csr_set_mstatus_frame trap_csr_writes set_own_def update_mailbox_def flag_tests bit_mstatus
      bit_set_mstatus mask_bits bit_set_flag bit_simps)

lemma enter_supervisor:
  assumes "delegated code intr c" and e: "e = enter_trap code tval epc intr c"
  shows "c_priv e = PRIV_SUPERVISOR" "csr_raw (c_csrs e) SCAUSE = code" "csr_raw (c_csrs e) STVAL = tval"
    "csr_raw (c_csrs e) SEPC = epc AND NOT 1" "\<not> bit (csr_raw (c_csrs e) MSTATUS) 1"
    "bit (csr_raw (c_csrs e) MSTATUS) 5 \<longleftrightarrow> bit (csr_raw (c_csrs c) MSTATUS) 1"
    "bit (csr_raw (c_csrs e) MSTATUS) 8 \<longleftrightarrow> c_priv c = PRIV_SUPERVISOR"
  using assms(1) unfolding e enter_trap_def Let_def delegated_def [symmetric] clear_reservation_def
  by (simp_all add: csr_set_mstatus_frame trap_csr_writes set_own_def update_mailbox_def flag_tests bit_mstatus
      bit_set_mstatus mask_bits bit_set_flag bit_simps)

lemma bit_priv: "p \<le> PRIV_MACHINE \<Longrightarrow> bit (p :: u32) k \<Longrightarrow> k < 2"
  using bit_less_exp [of p k 2] by (simp add: word_le_nat_alt)

lemma return_machine:
  assumes "c_priv d = PRIV_MACHINE" "i_rd inst = 0" "i_rs1 inst = 0" "p \<le> PRIV_MACHINE"
    "bit (csr_raw (c_csrs d) MSTATUS) 11 \<longleftrightarrow> bit p 0" "bit (csr_raw (c_csrs d) MSTATUS) 12 \<longleftrightarrow> bit p 1"
  shows "\<exists>r. execute_mret inst d = (Inr (), r) \<and> c_priv r = p \<and> c_next_pc r = csr_raw (c_csrs d) MEPC \<and>
    (bit (csr_raw (c_csrs r) MSTATUS) 3 \<longleftrightarrow> bit (csr_raw (c_csrs d) MSTATUS) 7)"
proof -
  let ?w = "csr_mstatus (c_csrs d)"
  have mpp: "ucast (drop_bit 11 ((set_flag b MSTATUS_MIE ?w OR MSTATUS_MPIE) AND MSTATUS_MPP)) = p" for b
  proof (rule bit_word_eqI)
    fix k
    show "bit (ucast (drop_bit 11 ((set_flag b MSTATUS_MIE ?w OR MSTATUS_MPIE) AND MSTATUS_MPP)) :: u32) k \<longleftrightarrow> bit p k"
      using assms(5,6) bit_priv [OF assms(4), of k]
      by (cases "k = 0 \<or> k = 1")
        (auto simp del: drop_bit_and drop_bit_or simp: bit_simps bit_set_flag mask_bits bit_mstatus)
  qed
  show ?thesis
    unfolding execute_mret_def Let_def mpp
    using assms(1-3)
    by (simp add: csr_read_def csr_set_mstatus_frame bit_set_mstatus mask_bits bit_simps bit_set_flag flag_tests bit_mstatus)
qed

lemma return_supervisor:
  assumes "c_priv d = PRIV_SUPERVISOR" "i_rd inst = 0" "i_rs1 inst = 0" "\<not> bit (csr_raw (c_csrs d) MSTATUS) 22"
  shows "\<exists>r. execute_sret inst d = (Inr (), r) \<and>
    c_priv r = (if bit (csr_raw (c_csrs d) MSTATUS) 8 then PRIV_SUPERVISOR else PRIV_USER) \<and>
    c_next_pc r = csr_raw (c_csrs d) SEPC \<and>
    (bit (csr_raw (c_csrs r) MSTATUS) 1 \<longleftrightarrow> bit (csr_raw (c_csrs d) MSTATUS) 5)"
  unfolding execute_sret_def Let_def
  using assms
  by (simp add: csr_read_def csr_set_mstatus_frame bit_set_mstatus mask_bits bit_simps bit_set_flag flag_tests bit_mstatus)

text \<open>C7: A trap and the return from it are inverse: entering a trap saves the interrupted
  program counter, the cause and the value in the registers of the mode the delegation selects and
  disables that mode's interrupts; whatever the handler does to the rest of the machine, the return instruction of
  that mode resumes at the saved program counter, in the interrupted privilege level, with the interrupt
  enable as it was.\<close>

theorem trap_return:
  assumes e: "e = enter_trap code tval epc intr c" and sm: "smode = delegated code intr c"
    and c: "c_priv c \<le> PRIV_MACHINE" "\<not> bit epc 0" and inst: "i_rd inst = 0" "i_rs1 inst = 0"
    and d: "c_priv d = c_priv e" "csr_raw (c_csrs d) MSTATUS = csr_raw (c_csrs e) MSTATUS"
      "csr_raw (c_csrs d) (if smode then SEPC else MEPC) = csr_raw (c_csrs e) (if smode then SEPC else MEPC)"
    and tsr: "\<not> bit (csr_raw (c_csrs d) MSTATUS) 22"
  shows "c_priv e = (if smode then PRIV_SUPERVISOR else PRIV_MACHINE) \<and>
    csr_raw (c_csrs e) (if smode then SEPC else MEPC) = epc \<and>
    csr_raw (c_csrs e) (if smode then SCAUSE else MCAUSE) = code \<and>
    csr_raw (c_csrs e) (if smode then STVAL else MTVAL) = tval \<and>
    \<not> bit (csr_raw (c_csrs e) MSTATUS) (if smode then 1 else 3) \<and>
    (\<exists>r. (if smode then execute_sret inst d else execute_mret inst d) = (Inr (), r) \<and>
       c_next_pc r = epc \<and> c_priv r = c_priv c \<and>
       (bit (csr_raw (c_csrs r) MSTATUS) (if smode then 1 else 3) \<longleftrightarrow>
        bit (csr_raw (c_csrs c) MSTATUS) (if smode then 1 else 3)))"
proof (cases smode)
  case True
  then have "delegated code intr c"
    using sm by simp
  moreover from this have "c_priv c = PRIV_SUPERVISOR \<or> c_priv c = PRIV_USER"
    by (auto simp: delegated_def word_le_nat_alt word_unat_eq_iff)
  ultimately show ?thesis
    using True enter_supervisor [OF _ e] return_supervisor [OF _ inst tsr] d even_and_not_1 [OF c(2)] by auto
next
  case False
  then have "\<not> delegated code intr c"
    using sm by simp
  then show ?thesis
    using False enter_machine [OF _ e] return_machine [OF _ inst c(1), of d] d even_and_not_1 [OF c(2)] by auto
qed

lemma trap_return_witness:
  "\<exists>r. execute_mret (decode 0x30200073) (enter_trap 2 0 0x80000000 False (cpu_new sample_bus)) = (Inr (), r) \<and>
     c_next_pc r = 0x80000000 \<and> c_priv r = PRIV_MACHINE"
proof -
  let ?c = "cpu_new sample_bus"
  have d: "\<not> delegated 2 False ?c" and p: "c_priv ?c = PRIV_MACHINE"
    by (simp_all add: delegated_def cpu_new_def word_le_nat_alt)
  have "i_rd (decode 0x30200073) = 0" "i_rs1 (decode 0x30200073) = 0"
    by (simp_all add: decode_def Let_def)
  moreover have "\<not> bit (csr_raw (c_csrs (enter_trap 2 0 0x80000000 False ?c)) MSTATUS) 22"
    using d unfolding enter_trap_def Let_def delegated_def [symmetric] clear_reservation_def
    by (simp add: set_own_def update_mailbox_def bit_set_mstatus mask_bits bit_simps bit_set_flag bit_mstatus cpu_new_def
        csr_new_def Let_def)
  ultimately show ?thesis
    using trap_return [OF refl refl, of ?c "0x80000000" "decode 0x30200073" "enter_trap 2 0 0x80000000 False ?c" 2 0 False] d p
    by (auto simp: bit_0)
qed

section \<open>Interrupts\<close>

definition irq_order :: "interrupt list" where
  "irq_order = [MachineExternal, MachineSoftware, MachineTimer, SupervisorExternal, SupervisorSoftware, SupervisorTimer]"

text \<open>The interrupt is pending, enabled, and the mode that \<open>mideleg\<close> sends it to accepts it.\<close>

definition irq_to_s :: "interrupt \<Rightarrow> cpu \<Rightarrow> bool" where
  "irq_to_s i c \<longleftrightarrow> bit (csr_raw (c_csrs c) MIDELEG) (intr_num i)"

definition irq_open :: "interrupt \<Rightarrow> cpu \<Rightarrow> bool" where
  "irq_open i c \<longleftrightarrow>
     bit (csr_raw (c_csrs c) MIP) (intr_num i) \<and> bit (csr_raw (c_csrs c) MIE) (intr_num i) \<and>
     (if irq_to_s i c then c_priv c < PRIV_SUPERVISOR \<or> c_priv c = PRIV_SUPERVISOR \<and> bit (csr_raw (c_csrs c) MSTATUS) 1
      else c_priv c < PRIV_MACHINE \<or> bit (csr_raw (c_csrs c) MSTATUS) 3)"

text \<open>Interrupts for machine mode come before those for supervisor mode, both in the architecture's order.\<close>

definition ref_interrupt :: "cpu \<Rightarrow> interrupt option" where
  "ref_interrupt c =
     (case find (\<lambda>i. irq_open i c \<and> \<not> irq_to_s i c) irq_order of
        Some i \<Rightarrow> Some i
      | None \<Rightarrow> find (\<lambda>i. irq_open i c \<and> irq_to_s i c) irq_order)"

lemma mip_tests:
  "w AND MIP_MEIP = 0 \<longleftrightarrow> \<not> bit w 11" "w AND MIP_MSIP = 0 \<longleftrightarrow> \<not> bit w 3" "w AND MIP_MTIP = 0 \<longleftrightarrow> \<not> bit w 7"
  "w AND MIP_SEIP = 0 \<longleftrightarrow> \<not> bit w 9" "w AND MIP_SSIP = 0 \<longleftrightarrow> \<not> bit w 1" "w AND MIP_STIP = 0 \<longleftrightarrow> \<not> bit w 5"
  unfolding MIP_MEIP_def MIP_MSIP_def MIP_MTIP_def MIP_SEIP_def MIP_SSIP_def MIP_STIP_def and_push_bit_1
  by simp_all

definition first_irq :: "u64 \<Rightarrow> interrupt option" where
  "first_irq w = find (\<lambda>i. bit w (intr_num i)) irq_order"

lemma first_irq_none:
  assumes "w AND NOT INTERRUPT_MASK = 0"
  shows "first_irq w = None \<longleftrightarrow> w = 0"
proof
  assume none: "first_irq w = None"
  have "\<not> bit w k" for k
  proof -
    have "bit (w AND NOT INTERRUPT_MASK) k = False"
      using assms by simp
    then have "bit w k \<Longrightarrow> k \<in> {1, 3, 5, 7, 9, 11}"
      by (auto simp: bit_simps mask_bits dest: bit_imp_le_length)
    then show ?thesis
      using none by (auto simp: first_irq_def irq_order_def split: if_splits)
  qed
  then show "w = 0"
    by (auto intro: bit_word_eqI)
qed (simp add: first_irq_def irq_order_def)

lemma pending_masked: "csr_inv s \<Longrightarrow> (pending_enabled s AND w) AND NOT INTERRUPT_MASK = 0"
proof -
  assume "csr_inv s"
  then have "csr_raw s MIP AND NOT INTERRUPT_MASK = 0"
    using csr_invD [of s MIP] by (simp add: csr_legal_def)
  then show ?thesis
    by (metis (no_types, opaque_lifting) pending_enabled_def and.assoc and.commute and_zero_eq)
qed

text \<open>C8: The interrupt a hart takes next is the one the architecture names: among the pending and
  enabled interrupts those for machine mode come first if machine mode accepts them, then those delegated to supervisor
  mode if that accepts them, each group in the order external, software, timer; there is none exactly when no
  mode accepts any.\<close>

theorem next_interrupt_ref:
  assumes "csr_inv (c_csrs c)"
  shows "next_interrupt c = ref_interrupt c"
proof -
  let ?p = "pending_enabled (c_csrs c)" and ?d = "csr_raw (c_csrs c) MIDELEG"
  define m where "m = (c_priv c < PRIV_MACHINE \<or> mstatus_mie (c_csrs c))"
  define sv where "sv = (c_priv c < PRIV_SUPERVISOR \<or> c_priv c = PRIV_SUPERVISOR \<and> mstatus_sie (c_csrs c))"
  note masked = pending_masked [OF assms]
  have n: "next_interrupt c = first_irq (if m \<and> ?p AND NOT ?d \<noteq> 0 then ?p AND NOT ?d else if sv \<and> ?p AND ?d \<noteq> 0 then ?p AND ?d else 0)"
    unfolding next_interrupt_def Let_def first_irq_def irq_order_def csr_read_def m_def [symmetric] sv_def [symmetric]
    by (auto simp: mip_tests)
  have num: "intr_num i < 64" for i
    by (cases i) simp_all
  have "irq_open i c \<and> \<not> irq_to_s i c \<longleftrightarrow> m \<and> bit (?p AND NOT ?d) (intr_num i)"
    "irq_open i c \<and> irq_to_s i c \<longleftrightarrow> sv \<and> bit (?p AND ?d) (intr_num i)" for i
    using num [of i]
    by (auto simp: irq_open_def irq_to_s_def m_def sv_def mstatus_mie_def mstatus_sie_def flag_tests bit_mstatus
        pending_enabled_def bit_simps)
  then have "find (\<lambda>i. irq_open i c \<and> \<not> irq_to_s i c) irq_order = (if m then first_irq (?p AND NOT ?d) else None)"
    "find (\<lambda>i. irq_open i c \<and> irq_to_s i c) irq_order = (if sv then first_irq (?p AND ?d) else None)"
    by (simp_all add: first_irq_def irq_order_def)
  then show ?thesis
    using first_irq_none [OF masked, of "NOT ?d"] first_irq_none [OF masked, of ?d]
    by (auto simp: n ref_interrupt_def first_irq_def [of 0] irq_order_def split: option.split)
qed

lemma next_interrupt_ref_witness:
  "next_interrupt (cpu_new sample_bus\<lparr>c_csrs := csr_write MIE 0xaaa (raise_interrupt MIP_STIP csr_new), c_priv := PRIV_USER\<rparr>) =
     Some SupervisorTimer"
proof -
  let ?s = "csr_write MIE 0xaaa (raise_interrupt MIP_STIP csr_new)"
  have "MIP_STIP AND NOT INTERRUPT_MASK = 0"
    by (rule bit_word_eqI) (auto simp: bit_simps mask_bits)
  then have "csr_inv ?s"
    using csr_inv_write csr_inv_ops(7) [OF csr_inv_new] by blast
  then show ?thesis
    using next_interrupt_ref [of "cpu_new sample_bus\<lparr>c_csrs := ?s, c_priv := PRIV_USER\<rparr>"]
    by (simp add: ref_interrupt_def irq_order_def irq_open_def irq_to_s_def csr_write_def csr_write_mask_def raise_interrupt_def
        csr_new_def Let_def bit_simps mask_bits)
qed

end
