(* ===== verification/Hart_Code.thy ===== *)
theory Hart_Code
  imports Hart_Trap
begin

text \<open>
  The decoded-instruction cache stays coherent with memory: what a hit returns is what the memory
  holds. Code pages are marked in \<open>Dram\<close> when an instruction is cached, and a write to a marked page
  moves the epoch that the next step compares with the one of the cache.
\<close>

section \<open>Translating a page twice\<close>

lemma permitted_A: "permitted (e OR PTE_A) Instruction p csrs = permitted e Instruction p csrs"
  by (simp add: permitted_def pte_tests bit_or_iff PTE_A_def)

lemma paged_slot:
  assumes "translate_paged csrs va Instruction p s = (Inr pa, (m, b))"
  shows "te_tag (mm_tlb m (tlb_index va)) = tlb_key csrs va" "permitted (te_perms (mm_tlb m (tlb_index va))) Instruction p csrs"
    "pa = push_bit 12 (te_ppn (mm_tlb m (tlb_index va))) OR (va AND 0xfff)"
    "drop_bit 38 va = 0 \<or> drop_bit 38 va = 0x3ffffff"
  using assms permitted_A
  by (auto simp: translate_paged_def translate_miss_def Let_def split_beta simp del: push_bit_or split: if_splits sum.splits)

text \<open>After a successful translation of an instruction address its page translates the same way again,
  without touching memory.\<close>

lemma translate_again:
  assumes "translate csrs va Instruction p s = (Inr pa, (m, b))" and page: "drop_bit 12 va' = drop_bit 12 va"
  shows "\<exists>m'. translate csrs va' Instruction p (m, b2) = (Inr (push_bit 12 (drop_bit 12 pa) OR (va' AND 0xfff)), (m', b2))"
proof (cases "p = PRIV_MACHINE \<or> satp_mode csrs = SATP_MODE_BARE")
  case True
  have "push_bit 12 (drop_bit 12 va') OR (va' AND 0xfff) = va'"
    by (rule bit_word_eqI) (auto simp: bit_simps mask_bits)
  then show ?thesis
    using True assms by (auto simp: translate_def)
next
  case False
  then have t: "translate_paged csrs va Instruction p s = (Inr pa, (m, b))"
    using assms(1) by (simp add: translate_def)
  let ?e = "mm_tlb m (tlb_index va)"
  have "drop_bit 38 va' = drop_bit 38 va"
    using arg_cong [OF page, of "drop_bit 26"] by simp
  moreover have "tlb_index va' = tlb_index va" "tlb_key csrs va' = tlb_key csrs va"
    using page by (simp_all add: tlb_index_def tlb_key_def)
  moreover have "push_bit 12 (drop_bit 12 pa) = push_bit 12 (te_ppn ?e)"
    unfolding paged_slot(3) [OF t] by (rule bit_word_eqI) (auto simp: bit_simps mask_bits)
  ultimately show ?thesis
    using False paged_slot [OF t] by (auto simp: translate_def translate_paged_def Let_def)
qed

section \<open>Backed entries\<close>

definition inst_at :: "dram \<Rightarrow> nat \<Rightarrow> decoded_inst" where
  "inst_at d off =
     (let low = ucast (le_read (d_mem d) off 2) in
      if is_32bit_instruction low then decode16 low (ucast (le_read (d_mem d) (off + 2) 2)) else decode16 low 0)"

text \<open>
  The instruction of a cache entry is the one in memory at some offset, inside a page that is marked as code; an entry
  of machine mode, which does not translate, is the one at its own address.
\<close>

definition entry_backed :: "dram \<Rightarrow> decode_entry \<Rightarrow> bool" where
  "entry_backed d e \<longleftrightarrow>
     (\<exists>off. off + unat (i_length (de_inst e)) \<le> d_len d \<and> off mod 4096 + unat (i_length (de_inst e)) \<le> 4096 \<and>
        page_marked d (off div 4096) \<and> inst_at d off = de_inst e \<and>
        (de_priv e = ucast PRIV_MACHINE \<longrightarrow> de_pc e = DRAM_BASE + of_nat off))"

lemma inst_length: "i_length (inst_at d off) = (if is_32bit_instruction (ucast (le_read (d_mem d) off 2)) then 4 else 2)"
  by (simp add: inst_at_def decode16_def Let_def)

lemma inst_at_cong:
  assumes "\<And>i. off \<le> i \<Longrightarrow> i < off + unat (i_length (inst_at d off)) \<Longrightarrow> d_mem d' i = d_mem d i"
  shows "inst_at d' off = inst_at d off"
proof -
  have len: "2 \<le> unat (i_length (inst_at d off))"
    by (simp add: inst_length)
  have low: "le_read (d_mem d') off 2 = le_read (d_mem d) off 2"
    by (rule le_read_cong) (use assms len in auto)
  moreover have "le_read (d_mem d') (off + 2) 2 = le_read (d_mem d) (off + 2) 2"
    if "is_32bit_instruction (ucast (le_read (d_mem d) off 2))"
    by (rule le_read_cong) (use assms that inst_length [of d off] in auto)
  ultimately show ?thesis
    by (auto simp: inst_at_def Let_def)
qed

lemma same_page: "off \<le> i \<Longrightarrow> i < off + n \<Longrightarrow> off mod 4096 + n \<le> 4096 \<Longrightarrow> i div 4096 = off div (4096 :: nat)"
proof -
  assume "off \<le> i" "i < off + n" "off mod 4096 + n \<le> 4096"
  then have "4096 * (off div 4096) \<le> i" "i < 4096 * (off div 4096) + 4096"
    using mult_div_mod_eq [of 4096 off] by linarith+
  then show ?thesis
    by (intro div_nat_eqI) simp_all
qed

lemma entry_backed_write:
  assumes inv: "dram_inv d" and w: "dram_store off n v d = Some d' \<or> dram_write_bytes a src d = Some d'"
    and quiet: "code_epoch d' = code_epoch d" and e: "entry_backed d e"
  shows "entry_backed d' e"
proof -
  obtain p where p: "p + unat (i_length (de_inst e)) \<le> d_len d" "p mod 4096 + unat (i_length (de_inst e)) \<le> 4096"
    "page_marked d (p div 4096)" "inst_at d p = de_inst e" "de_priv e = ucast PRIV_MACHINE \<longrightarrow> de_pc e = DRAM_BASE + of_nat p"
    using e unfolding entry_backed_def by blast
  have keep: "d_mem d' i = d_mem d i \<and> page_marked d' (p div 4096)" if "i div 4096 = p div 4096" for i
    using w quiet p(3) store_quiet_keeps_code [OF inv, of _ _ _ d' i] write_bytes_quiet_keeps_code [OF inv, of _ _ d' i]
    unfolding that by blast
  have "inst_at d' p = inst_at d p"
    by (rule inst_at_cong) (use keep same_page p(2,4) in auto)
  moreover have "d_len d' = d_len d"
    using w write_len by blast
  ultimately show ?thesis
    using p keep [OF refl] unfolding entry_backed_def by metis
qed

section \<open>Coherence\<close>

text \<open>
  The distance of the memory's epoch from the one the cache was synchronised with is 0, and then the cache is backed, or
  it is small: after a write to a code page no page is marked until the next instruction is cached. \<open>fetching\<close> says that
  the step has not yet cached an instruction.
\<close>

definition ram_coherent :: "bool \<Rightarrow> (nat \<Rightarrow> decode_entry) \<Rightarrow> u64 \<Rightarrow> dram \<Rightarrow> bool" where
  "ram_coherent fetching dc e d \<longleftrightarrow>
     dram_inv d \<and>
     (code_epoch d - e = 0 \<and> (\<forall>i. de_pc (dc i) \<noteq> NOT 0 \<longrightarrow> entry_backed d (dc i)) \<or>
      code_epoch d - e = 1 \<and> (fetching \<longrightarrow> \<not> d_any_marked d) \<or>
      code_epoch d - e = 2 \<and> \<not> fetching \<and> \<not> d_any_marked d)"

definition coherent :: "bool \<Rightarrow> cpu \<Rightarrow> bool" where
  "coherent fetching c \<longleftrightarrow>
     bus_inv (c_bus c) \<and> ram_coherent fetching (c_dcache c) (c_dcache_epoch c) (b_ram (c_bus c))"

lemma write_epoch:
  assumes "dram_store off n v d = Some d' \<or> dram_write_bytes a src d = Some d'"
  shows "code_epoch d' = code_epoch d \<and> d_any_marked d' = d_any_marked d \<or>
    d_any_marked d \<and> code_epoch d' = code_epoch d + 1 \<and> \<not> d_any_marked d'"
  using assms
  by (auto simp: dram_store_def dram_write_bytes_def note_write_def invalidate_code_def code_epoch_def Let_def
      split: if_splits)

lemma ram_coherent_write:
  assumes "ram_coherent f dc e d" "dram_store off n v d = Some d' \<or> dram_write_bytes a src d = Some d'"
  shows "ram_coherent f dc e d'"
proof -
  have inv: "dram_inv d"
    using assms by (simp add: ram_coherent_def)
  then have inv': "dram_inv d'"
    using assms(2) dram_inv_ops(1,2) by blast
  from write_epoch [OF assms(2)] show ?thesis
  proof (elim disjE conjE)
    assume "code_epoch d' = code_epoch d" "d_any_marked d' = d_any_marked d"
    then show ?thesis
      using assms(1) inv' entry_backed_write [OF inv assms(2)] by (auto simp: ram_coherent_def)
  next
    assume m: "d_any_marked d" "code_epoch d' = code_epoch d + 1" "\<not> d_any_marked d'"
    have "code_epoch d' - e = (code_epoch d - e) + 1"
      using m(2) by simp
    then show ?thesis
      using assms(1) inv' m(1,3) by (auto simp: ram_coherent_def)
  qed
qed

lemma ram_coherent_dma: "dma d d' \<Longrightarrow> ram_coherent f dc e d \<Longrightarrow> ram_coherent f dc e d'"
  by (induction rule: dma.induct) (auto intro: ram_coherent_write)

lemma walk_dma: "bus_inv b \<Longrightarrow> dma (b_ram b) (b_ram (snd (walk va ty l t b)))"
proof (induction l arbitrary: t b)
  case (Suc l)
  let ?b = "snd (bus_load (t + (drop_bit (PAGE_SHIFT + 9 * l) va AND 0x1ff) * 8) 8 Load b)"
  have "dma (b_ram b) (b_ram ?b)" "bus_inv ?b"
    using Suc.prems bus_dma(1) bus_inv_load by blast+
  then show ?case
    using dma_trans [OF Suc.IH [OF \<open>bus_inv ?b\<close>]] by (auto simp: Let_def split_beta split: sum.split)
qed (simp add: dma_refl)

lemma translate_dma:
  assumes "bus_inv (snd s)"
  shows "dma (b_ram (snd s)) (b_ram (snd (snd (translate csrs va ty p s))))"
proof -
  have miss: "dma (b_ram (snd s)) (b_ram (snd (snd (translate_miss csrs va ty p s))))"
    using walk_dma [OF assms] dma_trans [OF bus_dma(2) [OF walk_bus_inv [OF assms]]]
    by (auto simp: translate_miss_def Let_def split_beta split: sum.split)
  show ?thesis
    using miss bus_dma(2) [OF assms]
    by (auto simp: translate_def translate_paged_def Let_def split_beta dma_refl)
qed

lemma coherent_next:
  "\<lbrakk>coherent f c; bus_inv (c_bus c'); dma (b_ram (c_bus c)) (b_ram (c_bus c')); c_dcache c' = c_dcache c;
    c_dcache_epoch c' = c_dcache_epoch c\<rbrakk> \<Longrightarrow> coherent f c'"
  by (auto simp: coherent_def ram_coherent_dma)

lemma dcache_frame [rv_frame]:
  "c_dcache_epoch (snd (read_reg i c)) = c_dcache_epoch c" "c_dcache_epoch (write_reg i v c) = c_dcache_epoch c"
  "c_dcache_epoch (snd (alu opr a b c)) = c_dcache_epoch c"
  by (auto simp: read_reg_def write_reg_def alu_def split: option.split prod.split)

lemma coherent_access: assumes "coherent f c"
  shows "coherent f (snd (hart_translate va ty p c))" "coherent f (snd (hart_load pa n ty c))"
    "coherent f (snd (hart_store pa n v c))"
proof -
  have b: "bus_inv (c_bus c)"
    using assms by (simp add: coherent_def)
  show "coherent f (snd (hart_translate va ty p c))"
    using translate_dma [of "(c_mmu c, c_bus c)" "c_csrs c" va ty p] translate_bus_inv [of "(c_mmu c, c_bus c)" "c_csrs c" va ty p] b
    by (intro coherent_next [OF assms]) (simp_all add: hart_translate_def split_beta)
  show "coherent f (snd (hart_load pa n ty c))" "coherent f (snd (hart_store pa n v c))"
    using bus_dma [OF b] bus_inv_load [OF b] bus_inv_store [OF b]
    by (auto intro!: coherent_next [OF assms] simp: hart_load_def hart_store_def split_beta)
qed

lemma coherent_flush: "coherent f c \<Longrightarrow> coherent f (flush_decode_cache c)"
  by (auto simp: coherent_def ram_coherent_def flush_decode_cache_def)

lemma coherent_simps:
  "coherent f (write_reg i v c) = coherent f c" "coherent f (snd (read_reg i c)) = coherent f c"
  "coherent f (snd (alu opr a b c)) = coherent f c" "coherent f (update_mailbox i g c) = coherent f c"
  "coherent f (set_own g c) = coherent f c" "coherent f (set_return e v c) = coherent f c"
  "coherent f (c\<lparr>c_csrs := s\<rparr>) = coherent f c" "coherent f (c\<lparr>c_stdout := out\<rparr>) = coherent f c"
  "coherent f (c\<lparr>c_halted := h, c_sbi_shutdown := q\<rparr>) = coherent f c" "coherent f (c\<lparr>c_waiting_for_interrupt := w\<rparr>) = coherent f c"
  "coherent f (c\<lparr>c_mmu := m\<rparr>) = coherent f c" "coherent f (note_store pa n c) = coherent f c"
  "coherent f (snd (execute_mret inst c)) = coherent f c" "coherent f (snd (execute_sret inst c)) = coherent f c"
  by (simp_all add: coherent_def rv_frame update_mailbox_def set_own_def set_return_def note_store_def execute_mret_def
      execute_sret_def Let_def)

lemma coherent_ecall: assumes "coherent f c"
  shows "coherent f (snd (handle_ecall c))"
proof -
  have ipi: "coherent f (sbi_ipi fid a0 c)" and fence: "coherent f (sbi_rfence fid a0 c)" if "coherent f c" for fid a0 c
    using that
    by (auto simp: sbi_ipi_def sbi_rfence_def Let_def split_beta coherent_simps remote_fence_def coherent_flush split: option.split
        intro!: fold_inv [of "coherent f"])
  have dev: "coherent f (sbi_set_timer d c)" "coherent f (c\<lparr>c_bus := (c_bus c)\<lparr>b_uart := snd (take_input_byte (b_uart (c_bus c)))\<rparr>\<rparr>)"
    if "coherent f c" for d c
    using that clint_inv_ops(1) [of "b_clint (c_bus c)"] uart_inv_ops(6) [of "b_uart (c_bus c)"]
    by (auto simp: coherent_def sbi_set_timer_def split_beta bus_inv_def ranges_ok_def)
  show ?thesis
    unfolding handle_ecall_def
    using assms by (simp add: Let_def split_beta ipi fence dev coherent_simps sbi_base_def sbi_hsm_def set_parked_def)
qed

interpretation cc: hart_contract "coherent f" for f
  by unfold_locales (simp_all add: coherent_simps coherent_access coherent_flush coherent_ecall, simp_all add: coherent_def)

section \<open>Fetching\<close>

lemma page_offset: "unat (w AND 0xfff :: u64) = unat w mod 4096"
proof -
  have "w AND 0xfff = take_bit 12 w"
    by (simp add: take_bit_eq_mask mask_eq_exp_minus_1)
  then show ?thesis
    by (simp only: unsigned_take_bit_eq) (simp add: take_bit_eq_mod)
qed

lemma even_unat: "\<not> bit (w :: u64) 0 \<longleftrightarrow> even (unat w)"
  by (simp add: bit_0 even_of_nat_iff [symmetric, where 'a = "64 word"])

lemma even_below: "even n \<Longrightarrow> n < 4096 \<Longrightarrow> n \<le> 4094" "even n \<Longrightarrow> n \<le> 4094 \<Longrightarrow> n \<noteq> 4094 \<Longrightarrow> n \<le> (4092 :: nat)"
  by (elim evenE; simp)+

lemma even_offset: "\<not> bit (pc :: u64) 0 \<Longrightarrow> unat pc mod 4096 \<le> 4094"
proof -
  assume "\<not> bit pc 0"
  then have "even (unat pc mod 4096)"
    using even_unat [of pc] by (simp add: dvd_mod_iff)
  then show ?thesis
    by (rule even_below) simp
qed

lemma even_inside_page: "\<not> bit pc 0 \<Longrightarrow> \<not> crosses_page pc 2"
proof -
  assume "\<not> bit pc 0"
  then have off: "unat (pc AND 0xfff) \<le> 4094"
    using even_offset by (simp add: page_offset)
  then have "unat ((pc AND 0xfff) + 2) = unat (pc AND 0xfff) + 2"
    by (simp add: unat_word_ariths)
  then show ?thesis
    using off by (simp add: crosses_page_def word_less_nat_alt not_less)
qed

lemma halfword_load:
  assumes "mem_load pc 2 Instruction c = (Inr v, c')" "\<not> bit pc 0"
  obtains pa m b b' where "translate (c_csrs c) pc Instruction (c_priv c) (c_mmu c, c_bus c) = (Inr pa, (m, b))"
    "bus_load pa 2 Instruction b = (Inr v, b')" "c' = c\<lparr>c_mmu := m, c_bus := b'\<rparr>"
  using assms even_inside_page [OF assms(2)]
  by (auto simp: mem_load_def hart_translate_def hart_load_def and_then_def Let_def split: prod.splits sum.splits)

lemma in_range_len: "d_len d' = d_len d \<Longrightarrow> in_range off n d' = in_range off n d"
  by (simp add: in_range_def)

text \<open>A load at an address that is memory afterwards was a load from memory.\<close>

lemma load_was_ram:
  assumes "bus_inv b" "bus_load pa 2 Instruction b = (Inr v, b')" "DRAM_BASE \<le> pa" "2 \<le> n"
    "in_range (pa - DRAM_BASE) n (b_ram b')"
  shows "b' = b" "v = le_read (d_mem (b_ram b)) (unat (pa - DRAM_BASE)) 2"
proof -
  have "dma (b_ram b) (b_ram b')"
    using bus_dma(1) [OF assms(1), of pa 2 Instruction] assms(2) by simp
  then have "d_len (b_ram b') = d_len (b_ram b)"
    using dma_keeps by blast
  then have "ram_valid b pa 2"
    using assms(3-5) by (auto simp: ram_valid_def in_range_def)
  then show "b' = b" "v = le_read (d_mem (b_ram b)) (unat (pa - DRAM_BASE)) 2"
    using assms(2) by (auto simp: bus_ram)
qed

text \<open>An address on the page of \<open>p\<close> with the offset of \<open>va\<close>.\<close>

lemma page_join_add: "push_bit 12 (drop_bit 12 p) OR (va AND 0xfff) = push_bit 12 (drop_bit 12 p) + (va AND 0xfff :: u64)"
  by (rule disjunctive_add_eq_or [symmetric], rule bit_word_eqI) (auto simp: bit_simps mask_bits)

lemma page_join_same: "p AND 0xfff = va AND 0xfff \<Longrightarrow> push_bit 12 (drop_bit 12 p) OR (va AND 0xfff) = (p :: u64)"
  by (rule bit_word_eqI, drule arg_cong [where f = "\<lambda>w. bit w _"]) (auto simp: bit_simps mask_bits)

lemma word_inside_page:
  assumes "\<not> bit pc 0" "pc AND 0xfff \<noteq> 0xffe"
  shows "unat (pc :: u64) mod 4096 \<le> 4092"
proof -
  have "unat pc mod 4096 \<noteq> 4094"
    using assms(2) page_offset [of pc] by (auto simp: word_unat_eq_iff)
  moreover have "even (unat pc mod 4096)"
    using assms(1) even_unat [of pc] by (simp add: dvd_mod_iff)
  ultimately show "unat pc mod 4096 \<le> 4092"
    using even_offset [OF assms(1)] even_below(2) by blast
qed

lemma next_halfword:
  assumes "\<not> bit pc 0" "pc AND 0xfff \<noteq> 0xffe"
  shows "(pc + 2) AND 0xfff = (pc AND 0xfff) + 2" "drop_bit 12 (pc + 2) = drop_bit 12 (pc :: u64)"
proof -
  note o = word_inside_page [OF assms]
  have "unat pc < 2 ^ 64"
    using unsigned_less [of pc] by simp
  then have "unat pc div 4096 < 0x10000000000000"
    by (intro less_mult_imp_div_less) simp
  then have "unat pc + 2 < 0x10000000000000000"
    using o mult_div_mod_eq [of 4096 "unat pc"] by linarith
  then have u: "unat (pc + 2) = unat pc + 2"
    by (simp add: unat_word_ariths)
  have d2: "(unat pc + 2) div 4096 = unat pc div 4096"
    by (rule same_page [where n = 4]) (use o in simp_all)
  then have d: "(unat pc + 2) mod 4096 = unat pc mod 4096 + 2"
    using mult_div_mod_eq [of 4096 "unat pc + 2"] mult_div_mod_eq [of 4096 "unat pc"] by linarith
  show "(pc + 2) AND 0xfff = (pc AND 0xfff) + 2"
  proof -
    have "unat ((pc AND 0xfff) + 2) = unat pc mod 4096 + 2"
      using o by (simp add: unat_word_ariths(1) page_offset)
    then show ?thesis
      by (simp only: word_unat_eq_iff page_offset u d)
  qed
  show "drop_bit 12 (pc + 2) = drop_bit 12 pc"
    using d2 by (simp add: word_unat_eq_iff unat_drop_bit_div u)
qed

lemma page_join_drop: "drop_bit 12 (push_bit 12 (drop_bit 12 p) OR (va AND 0xfff)) = drop_bit 12 (p :: u64)"
  by (rule bit_word_eqI) (auto simp: bit_simps mask_bits dest: bit_imp_le_length)

lemma page_join_next:
  assumes "\<not> bit pc 0" "pc AND 0xfff \<noteq> 0xffe" "p AND 0xfff = pc AND 0xfff"
  shows "push_bit 12 (drop_bit 12 p) OR ((pc + 2) AND 0xfff) = p + (2 :: u64)"
  using page_join_add [of p "pc + 2"] page_join_add [of p pc] next_halfword(1) [OF assms(1,2)] page_join_same [OF assms(3)]
  by (simp add: add.assoc)

lemma upper_half:
  assumes "in_range (pa - DRAM_BASE) 4 d" "DRAM_BASE \<le> pa" "dram_inv d"
  shows "in_range (pa + 2 - DRAM_BASE) 2 d" "unat (pa + 2 - DRAM_BASE) = unat (pa - DRAM_BASE) + 2" "DRAM_BASE \<le> pa + 2"
proof -
  define q where "q = pa - DRAM_BASE"
  have eq: "pa - DRAM_BASE = q" "pa + 2 - DRAM_BASE = q + 2" "pa = q + DRAM_BASE"
    by (simp_all add: q_def)
  have len: "d_len d < 2 ^ 44"
    using assms(3) by (simp add: dram_inv_def)
  then have o: "unat q + 4 \<le> d_len d"
    using assms(1) unfolding eq by (auto simp: in_range_def word_less_nat_alt unat_of_nat_small)
  then have u: "unat (q + 2) = unat q + 2"
    using len by (simp add: unat_word_ariths(1))
  then show "unat (pa + 2 - DRAM_BASE) = unat (pa - DRAM_BASE) + 2"
    unfolding eq(1,2) .
  show "in_range (pa + 2 - DRAM_BASE) 2 d"
    using o len u unfolding eq(2) by (simp add: in_range_def word_less_nat_alt unat_of_nat_small)
  have "unat (q + (DRAM_BASE + 2)) = unat q + unat (DRAM_BASE + 2 :: u64)"
    using o len by (simp add: unat_word_ariths(1))
  then show "DRAM_BASE \<le> pa + 2"
    unfolding eq(3) by (simp add: word_le_nat_alt add.assoc)
qed

lemma fetch_cases:
  assumes "fetch_inst c = (Inr i, c1)"
  obtains (short) low where "\<not> bit (c_pc c) 0" "mem_load (c_pc c) 2 Instruction c = (Inr low, c1)"
      "\<not> is_32bit_instruction (ucast low)" "i = decode16 (ucast low) 0"
  | (long) low high c2 where "\<not> bit (c_pc c) 0" "mem_load (c_pc c) 2 Instruction c = (Inr low, c2)"
      "is_32bit_instruction (ucast low)" "mem_load (c_pc c2 + 2) 2 Instruction c2 = (Inr high, c1)"
      "i = decode16 (ucast low) (ucast high)"
  using assms
  by (auto simp: fetch_inst_def and_then_def Let_def and_one_eq odd_iff_mod_2_eq_one bit_0 split: if_splits prod.splits sum.splits)

text \<open>
  The instruction a fetch returned is the one at the physical address the cache fill finds, if that is in memory.
\<close>

lemma fetch_from_ram:
  assumes f: "fetch_inst c = (Inr i, c1)" and b: "bus_inv (c_bus c)"
    and ne: "\<not> (i_length i = 4 \<and> c_pc c AND 0xfff = 0xffe)"
    and t: "translate (c_csrs c) (c_pc c) Instruction (c_priv c) (c_mmu c1, c_bus c1) = (Inr pa, (m, bb))"
    and r: "DRAM_BASE \<le> pa" "in_range (pa - DRAM_BASE) (unat (i_length i)) (b_ram bb)"
  shows "bb = c_bus c1 \<and> inst_at (b_ram bb) (unat (pa - DRAM_BASE)) = i"
  using f
proof (cases rule: fetch_cases)
  case (short low)
  obtain pa1 m1 b1 b2 where l: "translate (c_csrs c) (c_pc c) Instruction (c_priv c) (c_mmu c, c_bus c) = (Inr pa1, (m1, b1))"
    "bus_load pa1 2 Instruction b1 = (Inr low, b2)" "c1 = c\<lparr>c_mmu := m1, c_bus := b2\<rparr>"
    using halfword_load [OF short(2,1)] .
  have b1: "bus_inv b1"
    using translate_bus_inv [of "(c_mmu c, c_bus c)" "c_csrs c" "c_pc c" Instruction "c_priv c"] b l(1) by simp
  have "pa1 AND 0xfff = c_pc c AND 0xfff"
    using translate_offset [of "c_csrs c" "c_pc c" Instruction "c_priv c" "(c_mmu c, c_bus c)" pa1] l(1) by simp
  then have pa: "pa = pa1" "bb = b2"
    using translate_again [OF l(1) refl, of b2] t l(3) page_join_same [of pa1 "c_pc c"] by auto
  have "i_length i = 2"
    using short(3,4) by (simp add: decode16_def)
  then have "b2 = b1" "low = le_read (d_mem (b_ram b1)) (unat (pa - DRAM_BASE)) 2"
    using load_was_ram [OF b1 l(2), of 2] r pa by auto
  then show ?thesis
    using short(3,4) pa l(3) by (simp add: inst_at_def Let_def)
next
  case (long low high c2)
  obtain pa1 m1 b1 b2 where l: "translate (c_csrs c) (c_pc c) Instruction (c_priv c) (c_mmu c, c_bus c) = (Inr pa1, (m1, b1))"
    "bus_load pa1 2 Instruction b1 = (Inr low, b2)" "c2 = c\<lparr>c_mmu := m1, c_bus := b2\<rparr>"
    using halfword_load [OF long(2,1)] .
  have odd: "\<not> bit (c_pc c2 + 2) 0"
    using long(1) l(3) by (simp add: bit_0)
  obtain pa2 m3 b3 b4 where h0: "translate (c_csrs c2) (c_pc c2 + 2) Instruction (c_priv c2) (c_mmu c2, c_bus c2) = (Inr pa2, (m3, b3))"
    "bus_load pa2 2 Instruction b3 = (Inr high, b4)" "c1 = c2\<lparr>c_mmu := m3, c_bus := b4\<rparr>"
    using halfword_load [OF long(4) odd] .
  then have h: "translate (c_csrs c) (c_pc c + 2) Instruction (c_priv c) (m1, b2) = (Inr pa2, (m3, b3))"
    "c_mmu c1 = m3" "c_bus c1 = b4"
    using l(3) by simp_all
  have len: "i_length i = 4"
    using long(3,5) by (simp add: decode16_def Let_def)
  then have pc: "c_pc c AND 0xfff \<noteq> 0xffe"
    using ne by simp
  note page = next_halfword(2) [OF long(1) pc]
  have off: "pa1 AND 0xfff = c_pc c AND 0xfff"
    using translate_offset [of "c_csrs c" "c_pc c" Instruction "c_priv c" "(c_mmu c, c_bus c)" pa1] l(1) by simp
  have pa2: "pa2 = pa1 + 2" "b3 = b2"
    using translate_again [OF l(1) page, of b2] h(1) page_join_next [OF long(1) pc off] by auto
  have "drop_bit 12 pa2 = drop_bit 12 pa1"
    using page_join_drop [of pa1 "c_pc c + 2"] page_join_next [OF long(1) pc off] pa2(1) by simp
  then have pa: "pa = pa1" "bb = b4"
    using translate_again [OF h(1) page [symmetric], of b4] t h(2,3) page_join_same [OF off] by auto
  have b1: "bus_inv b1"
    using translate_bus_inv [of "(c_mmu c, c_bus c)" "c_csrs c" "c_pc c" Instruction "c_priv c"] b l(1) by simp
  then have b2: "bus_inv b2"
    using bus_inv_load [of b1 pa1 2 Instruction] l(2) by simp
  have "bus_inv b4"
    using bus_inv_load [OF b2, of pa2 2 Instruction] h0(2) pa2(2) by simp
  then have "dram_inv (b_ram b4)"
    by (simp add: bus_inv_def)
  note up = upper_half [OF _ r(1) this]
  have hi: "b4 = b2" "high = le_read (d_mem (b_ram b2)) (unat (pa - DRAM_BASE) + 2) 2"
    using load_was_ram [OF b2, of pa2 high b4 2] h0(2) pa2 up r(2) len pa by auto
  have "b2 = b1" "low = le_read (d_mem (b_ram b1)) (unat (pa - DRAM_BASE)) 2"
    using load_was_ram [OF b1 l(2), of 4] r len pa hi(1) by auto
  then show ?thesis
    using long(3,5) pa h(3) hi by (simp add: inst_at_def Let_def)
qed

section \<open>Filling\<close>

lemma mark_frame [simp]:
  "d_mem (mark_code_page off d) = d_mem d" "d_len (mark_code_page off d) = d_len d"
  "code_epoch (mark_code_page off d) = code_epoch d" "inst_at (mark_code_page off d) p = inst_at d p"
  by (simp_all add: mark_code_page_def inst_at_def code_epoch_def Let_def)

lemma mark_keeps: "page_marked d q \<Longrightarrow> page_marked (mark_code_page off d) q"
  by (auto simp: page_marked_def mark_code_page_def Let_def nth_list_update)

lemma mark_marks:
  assumes "dram_inv d" "unat off < d_len d"
  shows "page_marked (mark_code_page off d) (unat off div 4096)"
proof -
  have "unat off div 4096 < length (d_code_pages d)"
    using assms by (simp add: dram_inv_def less_mult_imp_div_less div_le_mono)
  then show ?thesis
    by (auto simp: page_marked_def mark_code_page_def Let_def unat_drop_bit_div)
qed

lemma entry_backed_mark: "entry_backed d e \<Longrightarrow> entry_backed (mark_code_page off d) e"
  by (auto simp: entry_backed_def intro: mark_keeps)

lemma range_bound: "in_range off n d \<Longrightarrow> dram_inv d \<Longrightarrow> unat off < d_len d \<and> unat off + n \<le> d_len d"
  by (auto simp: in_range_def dram_inv_def word_less_nat_alt unat_of_nat_small)

lemma priv_byte: "p \<le> PRIV_MACHINE \<Longrightarrow> (ucast p :: u8) = ucast PRIV_MACHINE \<longleftrightarrow> p = (PRIV_MACHINE :: u32)"
proof
  assume p: "p \<le> PRIV_MACHINE" "(ucast p :: u8) = ucast PRIV_MACHINE"
  have "bit p k \<longleftrightarrow> bit (3 :: u32) k" for k
    using arg_cong [OF p(2), of "\<lambda>w. bit w k"] bit_priv [OF p(1), of k] by (auto simp: bit_simps mask_bits)
  then show "p = PRIV_MACHINE"
    by (rule bit_word_eqI)
qed simp

lemma new_entry_backed:
  assumes inv: "dram_inv d" and r: "in_range (pa - DRAM_BASE) (unat (i_length i)) d" "DRAM_BASE \<le> pa"
    and i: "inst_at d (unat (pa - DRAM_BASE)) = i" and off: "pa AND 0xfff = pc AND 0xfff" "\<not> bit pc 0"
    and ne: "\<not> (i_length i = 4 \<and> pc AND 0xfff = 0xffe)" and p: "p \<le> PRIV_MACHINE" "p = PRIV_MACHINE \<Longrightarrow> pa = pc"
  shows "entry_backed (mark_code_page (pa - DRAM_BASE) d) \<lparr>de_pc = pc, de_priv = ucast p, de_inst = i\<rparr>"
proof -
  let ?o = "unat (pa - DRAM_BASE)"
  note b = range_bound [OF r(1) inv]
  have "unat pa = ?o + 0x80000 * 4096"
    using r(2) by (simp add: unat_sub word_le_nat_alt)
  then have "unat pa mod 4096 = ?o mod 4096"
    by (simp only: mod_mult_self1)
  then have "?o mod 4096 = unat pc mod 4096"
    using off(1) page_offset [of pa] page_offset [of pc] by simp
  moreover have "i_length i = 2 \<or> i_length i = 4 \<and> unat pc mod 4096 \<le> 4092"
    using inst_length [of d ?o] i ne word_inside_page [OF off(2)] by auto
  ultimately have "?o mod 4096 + unat (i_length i) \<le> 4096"
    using even_offset [OF off(2)] by auto
  moreover have "pc = DRAM_BASE + of_nat ?o" if "(ucast p :: u8) = ucast PRIV_MACHINE"
    using that priv_byte [OF p(1)] p(2) by simp
  ultimately show ?thesis
    using b i mark_marks [OF inv, of "pa - DRAM_BASE"] unfolding entry_backed_def by (intro exI [of _ ?o]) simp
qed

lemma ram_coherent_fill:
  assumes "ram_coherent True dc e d" "entry_backed (mark_code_page off d) new"
  shows "ram_coherent False (dc(k := new)) e (mark_code_page off d)"
  using assms entry_backed_mark by (auto simp: ram_coherent_def dram_inv_mark)

lemma coherent_fill:
  assumes coh: "coherent True c" and f: "fetch_inst c = (Inr i, c1)" and priv: "c_priv c \<le> PRIV_MACHINE"
  shows "coherent False (cache_fill i c1)"
proof -
  have weak: "coherent True d \<Longrightarrow> coherent False d" for d
    by (auto simp: coherent_def ram_coherent_def)
  have c1: "coherent True c1" "same_arch c c1"
    using cc.fetch [OF coh] sa.fetch [of c c] f by (simp_all add: same_arch_def)
  obtain r m bb where t: "translate (c_csrs c1) (c_pc c1) Instruction (c_priv c1) (c_mmu c1, c_bus c1) = (r, (m, bb))"
    by (metis surj_pair)
  have tr: "hart_translate (c_pc c1) Instruction (c_priv c1) c1 = (r, c1\<lparr>c_mmu := m, c_bus := bb\<rparr>)"
    using t by (simp add: hart_translate_def)
  have step: "coherent True (c1\<lparr>c_mmu := m, c_bus := bb\<rparr>)"
    using cc.kp_translate [OF c1(1), of "c_pc c1" Instruction "c_priv c1"] tr by simp
  show ?thesis
  proof (cases "\<exists>pa. r = Inr pa \<and> DRAM_BASE \<le> pa \<and> in_range (pa - DRAM_BASE) (unat (i_length i)) (b_ram bb) \<and>
      \<not> (i_length i = 4 \<and> c_pc c AND 0xfff = 0xffe)")
    case False
    then show ?thesis
      using weak [OF step] weak [OF c1(1)] tr c1(2) by (auto simp: cache_fill_def Let_def same_arch_def not_le split: sum.split)
  next
    case True
    then obtain pa where pa: "r = Inr pa" "DRAM_BASE \<le> pa" "in_range (pa - DRAM_BASE) (unat (i_length i)) (b_ram bb)"
      "\<not> (i_length i = 4 \<and> c_pc c AND 0xfff = 0xffe)"
      by blast
    have t': "translate (c_csrs c) (c_pc c) Instruction (c_priv c) (c_mmu c1, c_bus c1) = (Inr pa, (m, bb))"
      using t pa(1) c1(2) by (simp add: same_arch_def)
    have inv: "bus_inv (c_bus c)" "bus_inv bb" "dram_inv (b_ram bb)"
      using coh step by (simp_all add: coherent_def bus_inv_def)
    have even: "\<not> bit (c_pc c) 0"
      using f by (cases rule: fetch_cases)
    have "entry_backed (mark_code_page (pa - DRAM_BASE) (b_ram bb)) \<lparr>de_pc = c_pc c, de_priv = ucast (c_priv c), de_inst = i\<rparr>"
    proof (rule new_entry_backed [OF inv(3) pa(3,2) _ _ even pa(4) priv])
      show "inst_at (b_ram bb) (unat (pa - DRAM_BASE)) = i"
        using fetch_from_ram [OF f inv(1) pa(4) t' pa(2,3)] by blast
      show "pa AND 0xfff = c_pc c AND 0xfff"
        using translate_offset [of "c_csrs c" "c_pc c" Instruction "c_priv c" _ pa] t' by (metis fst_conv)
      show "c_priv c = PRIV_MACHINE \<Longrightarrow> pa = c_pc c"
        using t' by (simp add: translate_def)
    qed
    from ram_coherent_fill [OF _ this] have "ram_coherent False ((c_dcache c1)(k := \<lparr>de_pc = c_pc c, de_priv = ucast (c_priv c), de_inst = i\<rparr>))
        (c_dcache_epoch c1) (mark_code_page (pa - DRAM_BASE) (b_ram bb))" for k
      using step by (simp add: coherent_def)
    moreover have "bus_inv (bb\<lparr>b_ram := mark_code_page (pa - DRAM_BASE) (b_ram bb)\<rparr>)"
      using inv(2,3) by (intro bus_inv_ram dram_inv_mark) simp_all
    ultimately show ?thesis
      using pa leD [OF pa(2)] tr c1(2) by (auto simp: cache_fill_def Let_def same_arch_def coherent_def)
  qed
qed

section \<open>Properties\<close>

lemma coherent_sync: "coherent False c \<Longrightarrow> coherent True (sync_decode_cache c) \<and> code_epoch (b_ram (c_bus c)) = c_dcache_epoch (sync_decode_cache c)"
  by (auto simp: sync_decode_cache_def Let_def coherent_def ram_coherent_def flush_decode_cache_def)

lemma coherent_cached_fetch:
  assumes "coherent False c" "c_priv c \<le> PRIV_MACHINE" "cached_fetch (sync_decode_cache c) = (r, d)"
  shows "coherent False d"
proof -
  let ?s = "sync_decode_cache c"
  have s: "coherent True ?s" "c_priv ?s \<le> PRIV_MACHINE"
    using coherent_sync [OF assms(1)] assms(2) by (simp_all add: sync_decode_cache_def Let_def flush_decode_cache_def)
  have weak: "coherent True d \<Longrightarrow> coherent False d" for d
    by (auto simp: coherent_def ram_coherent_def)
  show ?thesis
    using assms(3) weak [OF s(1)] weak [OF cc.fetch [OF s(1)]] coherent_fill [OF s(1) _ s(2)]
    by (auto simp: cached_fetch_def Let_def split: if_splits prod.splits sum.splits)
qed

lemma coherent_trap: "coherent f (enter_trap code tval epc intr c) = coherent f c"
  by (simp add: enter_trap_def Let_def clear_reservation_def coherent_simps) (simp add: coherent_def)

lemma coherent_step:
  assumes "coherent False c" "c_priv c \<le> PRIV_MACHINE"
  shows "coherent False (snd (step_core c))"
proof (cases "next_interrupt c")
  case (Some i)
  then show ?thesis
    using assms by (simp add: step_core_def take_interrupt_def coherent_trap)
next
  case None
  obtain r d where f: "cached_fetch (sync_decode_cache c) = (r, d)"
    by fastforce
  have trap: "coherent False (snd (handle_trap_or_stop t e))" if "coherent False e" for t e
    using that by (simp add: handle_trap_or_stop_def Let_def take_trap_def coherent_trap) (simp add: coherent_def)
  have retire: "coherent False (retire e)" if "coherent False e" for e
    using that by (simp add: retire_def Let_def coherent_def)
  have d: "coherent False d"
    by (rule coherent_cached_fetch [OF assms f])
  have "coherent False e" if "execute i (d\<lparr>c_next_pc := n, c_counter_written := w\<rparr>) = (q, e)" for i n w q e
    using cc.execute [of False "d\<lparr>c_next_pc := n, c_counter_written := w\<rparr>" i] d that by (simp add: coherent_def)
  then show ?thesis
    using None f d trap retire by (auto simp: step_core_def split: sum.split prod.split)
qed

text \<open>The instruction of a hit: in machine mode what a fetch from memory would return, in the translated modes one that
  memory holds.\<close>

lemma hit_backed:
  assumes "coherent False c" "\<not> bit (c_pc c) 0"
    and hit: "e = c_dcache (sync_decode_cache c) (dcache_index (c_pc c))" "de_pc e = c_pc c"
  shows "entry_backed (b_ram (c_bus c)) e"
proof -
  have "c_pc c \<noteq> NOT 0"
    using assms(2) by (auto simp: bit_0)
  then show ?thesis
    using coherent_sync [OF assms(1)] hit
    by (auto simp: coherent_def ram_coherent_def sync_decode_cache_def Let_def flush_decode_cache_def split: if_splits)
qed

lemma machine_load:
  assumes "c_priv c = PRIV_MACHINE" "\<not> bit pc 0" "ram_valid (c_bus c) pc 2"
  shows "mem_load pc 2 Instruction c = (Inr (le_read (d_mem (b_ram (c_bus c))) (unat (pc - DRAM_BASE)) 2), c)"
  using assms even_inside_page [OF assms(2)]
  by (simp add: mem_load_def hart_translate_def translate_def hart_load_def bus_ram)

lemma fetch_machine:
  assumes m: "c_priv c = PRIV_MACHINE" and even: "\<not> bit (c_pc c) 0" and inv: "dram_inv (b_ram (c_bus c))"
    and off: "c_pc c = DRAM_BASE + of_nat off" "off + unat (i_length (inst_at (b_ram (c_bus c)) off)) \<le> d_len (b_ram (c_bus c))"
  shows "fst (fetch_inst c) = Inr (inst_at (b_ram (c_bus c)) off)"
proof -
  let ?d = "b_ram (c_bus c)"
  define n where "n = unat (i_length (inst_at ?d off))"
  have n: "n = (if is_32bit_instruction (ucast (le_read (d_mem ?d) off 2)) then 4 else 2)"
    by (simp add: n_def inst_length)
  have len: "d_len ?d < 2 ^ 44"
    using inv by (simp add: dram_inv_def)
  have rel: "c_pc c - DRAM_BASE = of_nat off" "c_pc c + 2 - DRAM_BASE = of_nat (off + 2)"
    using off(1) by simp_all
  have lim: "off + n \<le> d_len ?d" "2 \<le> n"
    using off(2) n by (simp_all add: n_def)
  have u: "unat (of_nat off :: u64) = off" "unat (of_nat (off + 2) :: u64) = off + 2"
    using lim len by (intro unat_of_nat_small; simp)+
  have "unat (DRAM_BASE + of_nat k :: u64) = unat (DRAM_BASE :: u64) + k" if "k < 2 ^ 45" for k
    using that by (simp add: unat_word_ariths(1) unat_of_nat_small)
  from this [of off] this [of "off + 2"] have ge: "DRAM_BASE \<le> c_pc c" "DRAM_BASE \<le> c_pc c + 2"
    using lim len by (simp_all add: off(1) word_le_nat_alt add.commute add.left_commute)
  have v: "ram_valid (c_bus c) (c_pc c) 2" "n = 4 \<Longrightarrow> ram_valid (c_bus c) (c_pc c + 2) 2"
    using lim len ge u by (auto simp: ram_valid_def in_range_def rel word_less_nat_alt unat_of_nat_small)
  have "\<not> bit (c_pc c + 2) 0"
    using even by (simp add: bit_0)
  then show ?thesis
    using machine_load [OF m even v(1)] machine_load [OF m _ v(2)] n even rel u
    by (auto simp: fetch_inst_def Let_def inst_at_def and_one_eq odd_iff_mod_2_eq_one bit_0)
qed

lemma sync_frame: "c_priv (sync_decode_cache c) = c_priv c" "c_pc (sync_decode_cache c) = c_pc c" "c_bus (sync_decode_cache c) = c_bus c"
  by (simp_all add: sync_decode_cache_def Let_def flush_decode_cache_def)

lemma machine_hit:
  assumes coh: "coherent False c" "\<not> bit (c_pc c) 0" and m: "c_priv c = PRIV_MACHINE"
  shows "fst (cached_fetch (sync_decode_cache c)) = fst (fetch_inst (sync_decode_cache c))"
proof -
  let ?s = "sync_decode_cache c"
  define e where "e = c_dcache ?s (dcache_index (c_pc c))"
  show ?thesis
  proof (cases "de_pc e = c_pc c \<and> de_priv e = ucast (c_priv c)")
    case True
    then obtain off where off: "off + unat (i_length (de_inst e)) \<le> d_len (b_ram (c_bus c))"
      "inst_at (b_ram (c_bus c)) off = de_inst e" "c_pc c = DRAM_BASE + of_nat off"
      using hit_backed [OF coh e_def] m unfolding entry_backed_def by auto
    have "dram_inv (b_ram (c_bus c))"
      using coh(1) by (simp add: coherent_def bus_inv_def)
    then have "fst (fetch_inst ?s) = Inr (de_inst e)"
      using fetch_machine [of ?s off] off m coh(2) by (simp add: sync_frame)
    then show ?thesis
      using True by (simp add: cached_fetch_def sync_frame e_def Let_def)
  next
    case False
    then show ?thesis
      by (auto simp: cached_fetch_def sync_frame e_def Let_def split: prod.split sum.split)
  qed
qed

text \<open>C3: The cache of decoded instructions is invisible: every step keeps it coherent with memory, whatever the
  instruction, the devices and the page tables write; what a hit returns is decoded from the bytes memory holds now, and in
  machine mode a fetch through the cache returns exactly what a fetch from memory returns.\<close>

theorem decode_cache_coherent:
  assumes "coherent False c" "aligned_inv c"
  shows "coherent False (snd (step_core c)) \<and>
    (c_priv c = PRIV_MACHINE \<longrightarrow> fst (cached_fetch (sync_decode_cache c)) = fst (fetch_inst (sync_decode_cache c))) \<and>
    (let e = c_dcache (sync_decode_cache c) (dcache_index (c_pc c)) in
     de_pc e = c_pc c \<longrightarrow> (\<exists>off < d_len (b_ram (c_bus c)). inst_at (b_ram (c_bus c)) off = de_inst e))"
proof -
  have c: "c_priv c \<le> PRIV_MACHINE" "\<not> bit (c_pc c) 0"
    using assms(2) by (simp_all add: aligned_inv_def cpu_inv_def)
  have "\<exists>off < d_len d. inst_at d off = de_inst e" if b: "entry_backed d e" for d e
  proof -
    obtain off where "off + unat (i_length (de_inst e)) \<le> d_len d" "inst_at d off = de_inst e"
      using b unfolding entry_backed_def by blast
    moreover from this(2) have "0 < unat (i_length (de_inst e))"
      using inst_length [of d off] by auto
    ultimately show ?thesis
      by (intro exI [of _ off]) simp
  qed
  then show ?thesis
    using coherent_step [OF assms(1) c(1)] machine_hit [OF assms(1) c(2)] hit_backed [OF assms(1) c(2) refl]
    by (simp add: Let_def)
qed

lemma decode_cache_coherent_witness: "coherent False (snd (step_core (cpu_new sample_bus)))"
proof -
  have "coherent False (cpu_new sample_bus)"
    using sample_bus_inv
    by (auto simp: coherent_def ram_coherent_def cpu_new_def bus_inv_def code_epoch_def sample_bus_def bus_try_new_def dram_try_new_def
        dram_from_vec_def)
  then show ?thesis
    using decode_cache_coherent [OF _ cpu_new_inv [OF sample_bus_inv]] by blast
qed

end
