(* ===== verification/Bytes.thy ===== *)
theory Bytes
  imports Dram
begin

text \<open>
  Little-endian numbers in lists of bytes, and bulk writes to guest memory: the facts that the readers
  and writers of structures in files, in packets and in guest memory share.
\<close>

section \<open>Numbers\<close>

lemma le_read_list: "le_read m p n = read_le (map (\<lambda>i. m (p + i)) [0..<n])"
proof -
  have "take 8 (map (\<lambda>i. m (p + i)) [0..<n]) = map (\<lambda>i. m (p + i)) [0..<min n 8]"
    by (cases "n \<le> 8") (simp_all add: take_map take_upt)
  moreover have "enumerate 0 (map f [0..<k]) = map (\<lambda>i. (i, f i)) [0..<k]" for f :: "nat \<Rightarrow> u8" and k
    by (simp add: enumerate_eq_zip zip_map2 zip_same_conv_map o_def)
  ultimately show ?thesis
    by (simp add: le_read_def read_le_def fold_map o_def)
qed

lemma read_le_Nil [simp]: "read_le [] = 0"
  by (simp add: read_le_def)

lemma bit_read_le: "bit (read_le bs) k \<longleftrightarrow> k < 8 * min (length bs) 8 \<and> bit (bs ! (k div 8)) (k mod 8)"
  using bit_le_read [of "\<lambda>i. bs ! i" 0 "length bs" k] by (simp add: le_read_list map_nth)

lemma read_le_less: "length bs \<le> n \<Longrightarrow> n < 8 \<Longrightarrow> read_le bs < 2 ^ (8 * n)"
proof -
  assume n: "length bs \<le> n" "n < 8"
  have "take_bit (8 * n) (read_le bs) = read_le bs"
    using n by (intro bit_word_eqI) (auto simp: bit_take_bit_iff bit_read_le)
  then have "unat (read_le bs) < 2 ^ (8 * n)"
    by (metis unsigned_take_bit_eq take_bit_nat_less_exp)
  then show ?thesis
    using n by (simp add: word_less_nat_alt unat_exp)
qed

lemma unat_ucast_widen: "LENGTH('a) \<le> LENGTH('b) \<Longrightarrow> unat (ucast (x :: 'a::len word) :: 'b::len word) = unat x"
  using less_le_trans [OF unsigned_less [of x, where ?'a = nat] power_increasing [of "LENGTH('a)" "LENGTH('b)" 2]]
  by (simp add: unsigned_ucast_eq take_bit_nat_eq_self)

section \<open>Bulk writes\<close>

lemma copy_in_Nil [simp]: "copy_in p [] m = m"
  by (auto simp: copy_in_def fun_eq_iff)

lemma write_bytes_succeeds:
  assumes "dram_inv d" "DRAM_BASE \<le> a" "unat (a - DRAM_BASE) + length src \<le> d_len d"
  shows "\<exists>d'. dram_write_bytes a src d = Some d' \<and> d_mem d' = copy_in (unat (a - DRAM_BASE)) src (d_mem d) \<and>
    dram_inv d' \<and> d_len d' = d_len d \<and> dma d d'"
proof -
  have len: "unat (of_nat (d_len d) :: u64) = d_len d"
    using assms(1) by (intro unat_of_nat_small) (simp add: dram_inv_def)
  have "\<exists>d'. dram_write_bytes a src d = Some d' \<and> d_mem d' = copy_in (unat (a - DRAM_BASE)) src (d_mem d)"
  proof (cases "src = []")
    case False
    then have "in_range (a - DRAM_BASE) (length src) d"
      using assms(3) len by (cases src) (auto simp: in_range_def word_less_nat_alt)
    then show ?thesis
      using False assms(2) by (simp add: dram_write_bytes_def Let_def not_less)
  qed (use assms len in \<open>simp add: dram_write_bytes_def word_le_nat_alt not_less\<close>)
  then show ?thesis
    using dma_bytes [OF dma_refl] assms(1) dma_keeps by blast
qed

lemma copy_in_append: "copy_in (p + length xs) ys (copy_in p xs m) = copy_in p (xs @ ys) m"
  by (auto simp: copy_in_def fun_eq_iff nth_append)

end
