(* ===== verification/Virtio.thy ===== *)
theory Virtio
  imports Bus Bytes
begin

text \<open>
  The virtio transport of \<open>src/src/virtio/mod.rs\<close>: the register file, the guest-memory accessors and
  the virtqueues. The transport shares memory and the interrupt controller with the machine by
  reference: while one of its methods runs they are the fields \<open>vc_ram\<close> and \<open>vc_pl\<close> of its state.
  Whether an interrupt controller is attached is \<open>vc_plic\<close>.
\<close>

section \<open>State\<close>

abbreviation (input) QUEUE_MAX :: u32 where "QUEUE_MAX \<equiv> 256"
abbreviation (input) MAX_CHAIN :: nat where "MAX_CHAIN \<equiv> 256"

abbreviation (input) MAGIC_VALUE :: u64 where "MAGIC_VALUE \<equiv> 0x000"
abbreviation (input) VERSION :: u64 where "VERSION \<equiv> 0x004"
abbreviation (input) DEVICE_ID :: u64 where "DEVICE_ID \<equiv> 0x008"
abbreviation (input) VENDOR_ID :: u64 where "VENDOR_ID \<equiv> 0x00c"
abbreviation (input) DEVICE_FEATURES :: u64 where "DEVICE_FEATURES \<equiv> 0x010"
abbreviation (input) DEVICE_FEATURES_SEL :: u64 where "DEVICE_FEATURES_SEL \<equiv> 0x014"
abbreviation (input) DRIVER_FEATURES :: u64 where "DRIVER_FEATURES \<equiv> 0x020"
abbreviation (input) DRIVER_FEATURES_SEL :: u64 where "DRIVER_FEATURES_SEL \<equiv> 0x024"
abbreviation (input) QUEUE_SEL :: u64 where "QUEUE_SEL \<equiv> 0x030"
abbreviation (input) QUEUE_NUM_MAX :: u64 where "QUEUE_NUM_MAX \<equiv> 0x034"
abbreviation (input) QUEUE_NUM :: u64 where "QUEUE_NUM \<equiv> 0x038"
abbreviation (input) QUEUE_READY :: u64 where "QUEUE_READY \<equiv> 0x044"
abbreviation (input) QUEUE_NOTIFY :: u64 where "QUEUE_NOTIFY \<equiv> 0x050"
abbreviation (input) INTERRUPT_STATUS :: u64 where "INTERRUPT_STATUS \<equiv> 0x060"
abbreviation (input) INTERRUPT_ACK :: u64 where "INTERRUPT_ACK \<equiv> 0x064"
abbreviation (input) STATUS :: u64 where "STATUS \<equiv> 0x070"
abbreviation (input) QUEUE_DESC_LOW :: u64 where "QUEUE_DESC_LOW \<equiv> 0x080"
abbreviation (input) QUEUE_DESC_HIGH :: u64 where "QUEUE_DESC_HIGH \<equiv> 0x084"
abbreviation (input) DRIVER_DESC_LOW :: u64 where "DRIVER_DESC_LOW \<equiv> 0x090"
abbreviation (input) DRIVER_DESC_HIGH :: u64 where "DRIVER_DESC_HIGH \<equiv> 0x094"
abbreviation (input) DEVICE_DESC_LOW :: u64 where "DEVICE_DESC_LOW \<equiv> 0x0a0"
abbreviation (input) DEVICE_DESC_HIGH :: u64 where "DEVICE_DESC_HIGH \<equiv> 0x0a4"
abbreviation (input) CONFIG_GENERATION :: u64 where "CONFIG_GENERATION \<equiv> 0x0fc"
abbreviation (input) CONFIG :: u64 where "CONFIG \<equiv> 0x100"

abbreviation (input) VIRTIO_MAGIC :: u64 where "VIRTIO_MAGIC \<equiv> 0x74726976"
abbreviation (input) VIRTIO_VENDOR :: u64 where "VIRTIO_VENDOR \<equiv> 0x554d4551"

abbreviation (input) DESC_NEXT :: u16 where "DESC_NEXT \<equiv> 1"
abbreviation (input) DESC_WRITE :: u16 where "DESC_WRITE \<equiv> 2"
abbreviation (input) AVAIL_F_NO_INTERRUPT :: u16 where "AVAIL_F_NO_INTERRUPT \<equiv> 1"
abbreviation (input) FEATURES_OK :: u32 where "FEATURES_OK \<equiv> 8"
abbreviation (input) F_VERSION_1 :: u64 where "F_VERSION_1 \<equiv> 0x100000000"

record segment =
  sg_addr :: u64
  sg_len :: u32
  sg_device_writes :: bool

record queue =
  vq_num :: u32
  vq_ready :: bool
  vq_desc :: u64
  vq_avail :: u64
  vq_used :: u64
  vq_last_avail :: u16

definition queue_default :: queue where
  "queue_default = \<lparr>vq_num = 0, vq_ready = False, vq_desc = 0, vq_avail = 0, vq_used = 0, vq_last_avail = 0\<rparr>"

record vcore =
  vc_base :: u64
  vc_ram :: dram
  vc_plic :: bool
  vc_pl :: plic
  vc_irq :: u32
  vc_device_id :: u32
  vc_queues :: "queue list"
  vc_status :: u32
  vc_driver_features :: u64
  vc_device_features_sel :: u32
  vc_driver_features_sel :: u32
  vc_queue_sel :: u32
  vc_interrupt_status :: u32

definition core_new :: "u64 \<Rightarrow> dram \<Rightarrow> plic \<Rightarrow> u32 \<Rightarrow> nat \<Rightarrow> vcore" where
  "core_new base ram pl device_id num_queues =
     \<lparr>vc_base = base, vc_ram = ram, vc_plic = False, vc_pl = pl, vc_irq = 0, vc_device_id = device_id,
      vc_queues = replicate num_queues queue_default, vc_status = 0, vc_driver_features = 0,
      vc_device_features_sel = 0, vc_driver_features_sel = 0, vc_queue_sel = 0, vc_interrupt_status = 0\<rparr>"

definition queue_ready :: "nat \<Rightarrow> vcore \<Rightarrow> bool" where
  "queue_ready qi c \<longleftrightarrow> qi < length (vc_queues c) \<and> vq_ready (vc_queues c ! qi) \<and> vq_num (vc_queues c ! qi) \<noteq> 0"

section \<open>Guest memory\<close>

definition read_guest_bytes :: "u64 \<Rightarrow> nat \<Rightarrow> vcore \<Rightarrow> u8 list option" where
  "read_guest_bytes addr n c = dram_read_bytes addr n (vc_ram c)"

definition write_guest_bytes :: "u64 \<Rightarrow> u8 list \<Rightarrow> vcore \<Rightarrow> bool \<times> vcore" where
  "write_guest_bytes addr src c =
     (case dram_write_bytes addr src (vc_ram c) of
        None \<Rightarrow> (False, c)
      | Some r \<Rightarrow> (True, c\<lparr>vc_ram := r\<rparr>))"

definition read_guest :: "u64 \<Rightarrow> nat \<Rightarrow> vcore \<Rightarrow> u64" where
  "read_guest addr n c = (case dram_read_bytes addr n (vc_ram c) of Some b \<Rightarrow> read_le b | None \<Rightarrow> 0)"

definition to_le_bytes :: "nat \<Rightarrow> u64 \<Rightarrow> u8 list" where
  "to_le_bytes n v = map (\<lambda>i. ucast (drop_bit (8 * i) v)) [0..<n]"

definition write_guest :: "u64 \<Rightarrow> nat \<Rightarrow> u64 \<Rightarrow> vcore \<Rightarrow> vcore" where
  "write_guest addr n value c = snd (write_guest_bytes addr (to_le_bytes n value) c)"

definition segments_length :: "segment list \<Rightarrow> bool \<Rightarrow> u64" where
  "segments_length segs device_writes =
     sum_list (map (\<lambda>s. ucast (sg_len s)) (filter (\<lambda>s. sg_device_writes s = device_writes) segs))"

text \<open>Copies between a buffer of the host and the segments of a chain: what was copied, and how much.\<close>

fun read_from_segments :: "segment list \<Rightarrow> nat \<Rightarrow> nat \<Rightarrow> vcore \<Rightarrow> u8 list" where
  "read_from_segments [] skip len c = []"
| "read_from_segments (s # segs) skip len c =
     (if sg_device_writes s then read_from_segments segs skip len c
      else if skip \<ge> unat (sg_len s) then read_from_segments segs (skip - unat (sg_len s)) len c
      else
        (let n = min len (unat (sg_len s) - skip) in
         case read_guest_bytes (sg_addr s + of_nat skip) n c of
           None \<Rightarrow> []
         | Some b \<Rightarrow> if n = len then b else b @ read_from_segments segs 0 (len - n) c))"

fun write_to_segments :: "segment list \<Rightarrow> nat \<Rightarrow> u8 list \<Rightarrow> vcore \<Rightarrow> nat \<times> vcore" where
  "write_to_segments [] skip src c = (0, c)"
| "write_to_segments (s # segs) skip src c =
     (if \<not> sg_device_writes s then write_to_segments segs skip src c
      else if skip \<ge> unat (sg_len s) then write_to_segments segs (skip - unat (sg_len s)) src c
      else
        (let n = min (length src) (unat (sg_len s) - skip);
             (okay, c) = write_guest_bytes (sg_addr s + of_nat skip) (take n src) c
         in if \<not> okay then (0, c)
            else if n = length src then (n, c)
            else (let (done', c) = write_to_segments segs 0 (drop n src) c in (n + done', c))))"

text \<open>The configuration space is a byte array; what lies past it reads as zero.\<close>

definition config_bytes :: "u8 list \<Rightarrow> u64 \<Rightarrow> nat \<Rightarrow> u64" where
  "config_bytes config offset n =
     (if unat offset \<ge> length config \<or> n = 0 \<or> n > 8 then 0
      else read_le (take n (drop (unat offset) config)))"

section \<open>Virtqueues\<close>

fun read_chain :: "nat \<Rightarrow> u16 \<Rightarrow> queue \<Rightarrow> vcore \<Rightarrow> segment list" where
  "read_chain 0 index q c = []"
| "read_chain (Suc k) index q c =
     (if ucast index \<ge> vq_num q then []
      else
        (let d = vq_desc q + ucast index * 16;
             flags = ucast (read_guest (d + 12) 2 c) :: u16;
             s = \<lparr>sg_addr = read_guest d 8 c, sg_len = ucast (read_guest (d + 8) 4 c),
                  sg_device_writes = (flags AND DESC_WRITE \<noteq> 0)\<rparr>
         in s # (if flags AND DESC_NEXT = 0 then [] else read_chain k (ucast (read_guest (d + 14) 2 c)) q c)))"

definition pop_chain :: "nat \<Rightarrow> vcore \<Rightarrow> (u16 \<times> segment list) option \<times> vcore" where
  "pop_chain qi c =
     (if \<not> queue_ready qi c then (None, c)
      else
        (let q = vc_queues c ! qi; avail_idx = ucast (read_guest (vq_avail q + 2) 2 c) in
         if vq_last_avail q = avail_idx then (None, c)
         else
           (let slot = vq_avail q + 4 + (ucast (vq_last_avail q) mod ucast (vq_num q)) * 2;
                head = ucast (read_guest slot 2 c);
                c = c\<lparr>vc_queues := (vc_queues c)[qi := q\<lparr>vq_last_avail := vq_last_avail q + 1\<rparr>]\<rparr>
            in (Some (head, read_chain MAX_CHAIN head q c), c))))"

definition push_used :: "nat \<Rightarrow> u16 \<Rightarrow> u32 \<Rightarrow> vcore \<Rightarrow> vcore" where
  "push_used qi head written c =
     (if \<not> queue_ready qi c then c
      else
        (let q = vc_queues c ! qi;
             used_idx = ucast (read_guest (vq_used q + 2) 2 c) :: u16;
             slot = vq_used q + 4 + (ucast used_idx mod ucast (vq_num q)) * 8;
             c = write_guest slot 4 (ucast head) c;
             c = write_guest (slot + 4) 4 (ucast written) c
         in write_guest (vq_used q + 2) 2 (ucast (used_idx + 1)) c))"

definition core_raise_interrupt :: "vcore \<Rightarrow> vcore" where
  "core_raise_interrupt c =
     (let c = c\<lparr>vc_interrupt_status := vc_interrupt_status c OR 1\<rparr>
      in if vc_plic c then c\<lparr>vc_pl := set_pending (vc_irq c) True (vc_pl c)\<rparr> else c)"

definition signal_used :: "nat \<Rightarrow> vcore \<Rightarrow> vcore" where
  "signal_used qi c =
     (if \<not> queue_ready qi c then c
      else
        (let avail_flags = ucast (read_guest (vq_avail (vc_queues c ! qi)) 2 c) :: u16
         in if avail_flags AND AVAIL_F_NO_INTERRUPT \<noteq> 0 then c else core_raise_interrupt c))"

definition core_reset :: "vcore \<Rightarrow> vcore" where
  "core_reset c =
     (let c = c\<lparr>vc_status := 0, vc_driver_features := 0, vc_interrupt_status := 0,
                vc_queues := map (\<lambda>q. queue_default) (vc_queues c)\<rparr>
      in if vc_plic c then c\<lparr>vc_pl := set_pending (vc_irq c) False (vc_pl c)\<rparr> else c)"

section \<open>What the transport may change\<close>

text \<open>
  A device acts on the machine only by three steps of the transport: it writes bytes to guest memory,
  consumes an entry of an available ring and raises its interrupt. What these three keep, every operation
  of the transport keeps, and so does every device built on them.
\<close>

locale transport_contract =
  fixes P :: "vcore \<Rightarrow> bool"
  assumes wrote: "P c \<Longrightarrow> P (snd (write_guest_bytes a src c))"
    and consume: "P c \<Longrightarrow> P (c\<lparr>vc_queues := (vc_queues c)[qi := (vc_queues c ! qi)\<lparr>vq_last_avail := x\<rparr>]\<rparr>)"
    and raised: "P c \<Longrightarrow> P (core_raise_interrupt c)"
begin

lemma write_guest: "P c \<Longrightarrow> P (Virtio.write_guest a n v c)"
  by (simp add: write_guest_def wrote)

lemma write_to_segments: "P c \<Longrightarrow> P (snd (Virtio.write_to_segments segs skip src c))"
  by (induction segs arbitrary: skip src c) (simp_all add: Let_def split_beta wrote)

lemma pop_chain: "P c \<Longrightarrow> P (snd (Virtio.pop_chain qi c))"
  by (simp add: pop_chain_def Let_def consume)

lemma push_used: "P c \<Longrightarrow> P (Virtio.push_used qi head written c)"
  by (simp add: push_used_def Let_def write_guest)

lemma signal_used: "P c \<Longrightarrow> P (Virtio.signal_used qi c)"
  by (simp add: signal_used_def Let_def raised)

lemmas transport = wrote write_guest write_to_segments pop_chain push_used signal_used

end

text \<open>The device writes memory by bulk writes only, and leaves the interrupt controller in order.\<close>

definition bus_master :: "dram \<Rightarrow> u64 \<Rightarrow> vcore \<Rightarrow> bool" where
  "bus_master m b c \<longleftrightarrow> dma m (vc_ram c) \<and> plic_inv (vc_pl c) \<and> vc_base c = b"

interpretation vm: transport_contract "bus_master m b" for m b
  by unfold_locales
    (auto simp: bus_master_def write_guest_bytes_def core_raise_interrupt_def Let_def
      intro: dma_bytes plic_inv_set_pending split: option.split)

text \<open>The geometry of the queues belongs to the driver.\<close>

definition geometry :: "vcore \<Rightarrow> queue list" where
  "geometry c = map (\<lambda>q. q\<lparr>vq_last_avail := 0\<rparr>) (vc_queues c)"

lemma map_keep: "f (g (xs ! i)) = f (xs ! i) \<Longrightarrow> map f (xs[i := g (xs ! i)]) = map f xs"
  by (cases "i < length xs") (simp_all add: map_update list_update_same_conv list_update_beyond)

interpretation vg: transport_contract "\<lambda>c. geometry c = g" for g
  by unfold_locales
    (auto simp: geometry_def write_guest_bytes_def core_raise_interrupt_def Let_def map_keep
      split: option.split)

end
