(* ===== verification/Virtio_Blk.thy ===== *)
theory Virtio_Blk
  imports Virtio
begin

text \<open>
  The disk of \<open>src/src/virtio/blk.rs\<close>. A host file is its bytes and the outcomes of the operations
  still to come: an operation fails when the head of the list says so, a write then after the given
  number of bytes; with no outcome left operations succeed. Opening an image and reading one into memory
  are operating-system calls: their results are arguments.
\<close>

section \<open>The backing store\<close>

abbreviation (input) SECTOR_SIZE :: nat where "SECTOR_SIZE \<equiv> 512"
abbreviation (input) BLK_T_IN :: u32 where "BLK_T_IN \<equiv> 0"
abbreviation (input) BLK_T_OUT :: u32 where "BLK_T_OUT \<equiv> 1"
abbreviation (input) BLK_T_FLUSH :: u32 where "BLK_T_FLUSH \<equiv> 4"
abbreviation (input) BLK_T_GET_ID :: u32 where "BLK_T_GET_ID \<equiv> 8"
abbreviation (input) BLK_S_OK :: u8 where "BLK_S_OK \<equiv> 0"
abbreviation (input) BLK_S_IOERR :: u8 where "BLK_S_IOERR \<equiv> 1"
abbreviation (input) BLK_S_UNSUPP :: u8 where "BLK_S_UNSUPP \<equiv> 2"
abbreviation (input) SEG_MAX :: u32 where "SEG_MAX \<equiv> 126"
abbreviation (input) HEADER_BYTES :: nat where "HEADER_BYTES \<equiv> 16"
abbreviation (input) MAX_REQUESTS_PER_PASS :: nat where "MAX_REQUESTS_PER_PASS \<equiv> 8"
abbreviation (input) MAX_BYTES_PER_PASS :: u64 where "MAX_BYTES_PER_PASS \<equiv> 0x100000"
abbreviation (input) CHUNK :: nat where "CHUNK \<equiv> 65536"

record host_file =
  hf_bytes :: "u8 list"
  hf_outcomes :: "nat option list"

definition hf_take :: "host_file \<Rightarrow> nat option \<times> host_file" where
  "hf_take f = (case hf_outcomes f of [] \<Rightarrow> (None, f) | r # rs \<Rightarrow> (r, f\<lparr>hf_outcomes := rs\<rparr>))"

text \<open>Writing at a position beyond the end fills the gap with zeros.\<close>

definition splice :: "nat \<Rightarrow> 'a \<Rightarrow> 'a list \<Rightarrow> 'a list \<Rightarrow> 'a list" where
  "splice p z src xs = take p (xs @ replicate (p - length xs) z) @ src @ drop (p + length src) xs"

definition hf_read :: "nat \<Rightarrow> nat \<Rightarrow> host_file \<Rightarrow> u8 list option \<times> host_file" where
  "hf_read offset n f =
     (let (r, f) = hf_take f in
      (case r of
         Some k \<Rightarrow> None
       | None \<Rightarrow> if n = 0 then Some [] else if offset + n \<le> length (hf_bytes f) then Some (take n (drop offset (hf_bytes f))) else None,
       f))"

definition hf_write :: "nat \<Rightarrow> u8 list \<Rightarrow> host_file \<Rightarrow> bool \<times> host_file" where
  "hf_write offset src f =
     (let (r, f) = hf_take f; k = (case r of Some k \<Rightarrow> min k (length src) | None \<Rightarrow> length src);
          put = (\<lambda>bs. if k = 0 then bs else splice offset 0 (take k src) bs)
      in (r = None, f\<lparr>hf_bytes := put (hf_bytes f)\<rparr>))"

datatype disk =
    DMemory "u8 list"
  | DFile host_file nat bool "nat \<rightharpoonup> u8 list"

record virtio_blk =
  bk_store :: disk
  bk_backlog :: bool

definition blk_new :: virtio_blk where
  "blk_new = \<lparr>bk_store = DMemory [], bk_backlog = False\<rparr>"

definition blk_load_image :: "u8 list option \<Rightarrow> virtio_blk \<Rightarrow> bool \<times> virtio_blk" where
  "blk_load_image contents b =
     (case contents of None \<Rightarrow> (False, b) | Some v \<Rightarrow> (True, b\<lparr>bk_store := DMemory v\<rparr>))"

definition blk_open_image :: "host_file option \<Rightarrow> bool \<Rightarrow> virtio_blk \<Rightarrow> bool \<times> virtio_blk" where
  "blk_open_image file snapshot b =
     (case file of
        None \<Rightarrow> (False, b)
      | Some f \<Rightarrow> (True, b\<lparr>bk_store := DFile f (length (hf_bytes f)) snapshot Map.empty\<rparr>))"

definition blk_data :: "virtio_blk \<Rightarrow> u8 list" where
  "blk_data b = (case bk_store b of DMemory v \<Rightarrow> v | DFile f n s ov \<Rightarrow> [])"

definition blk_data_mut :: "(u8 list \<Rightarrow> u8 list) \<Rightarrow> virtio_blk \<Rightarrow> virtio_blk" where
  "blk_data_mut f b = b\<lparr>bk_store := DMemory (f (blk_data b))\<rparr>"

definition disk_size :: "disk \<Rightarrow> nat" where
  "disk_size d = (case d of DMemory v \<Rightarrow> length v | DFile f n s ov \<Rightarrow> n)"

definition blk_sectors :: "virtio_blk \<Rightarrow> nat" where
  "blk_sectors b = disk_size (bk_store b) div SECTOR_SIZE"

text \<open>The part of an overwritten sector that a request covers replaces what the file has there.\<close>

definition patch_sector :: "nat \<Rightarrow> (nat \<rightharpoonup> u8 list) \<Rightarrow> nat \<Rightarrow> u8 list \<Rightarrow> u8 list" where
  "patch_sector offset ov s dst =
     (case ov s of
        None \<Rightarrow> dst
      | Some sector \<Rightarrow>
          (let start = s * SECTOR_SIZE; fr = max start offset; til = min (start + SECTOR_SIZE) (offset + length dst)
           in take (fr - offset) dst @ take (til - fr) (drop (fr - start) sector) @ drop (til - offset) dst))"

definition disk_read :: "nat \<Rightarrow> nat \<Rightarrow> disk \<Rightarrow> u8 list option \<times> disk" where
  "disk_read offset n d =
     (case d of
        DMemory v \<Rightarrow> (if offset + n \<le> length v then Some (take n (drop offset v)) else None, d)
      | DFile f sz snapshot ov \<Rightarrow>
          (let (r, f) = hf_read offset n f in
           (case r of
              None \<Rightarrow> None
            | Some dst \<Rightarrow>
                if snapshot \<and> ov \<noteq> Map.empty \<and> dst \<noteq> []
                then Some (fold (patch_sector offset ov)
                  [offset div SECTOR_SIZE..<Suc ((offset + n - 1) div SECTOR_SIZE)] dst)
                else Some dst,
            DFile f sz snapshot ov)))"

text \<open>One sector of a write to a snapshot: what the sector held comes first, then the new bytes.\<close>

definition cow_sector :: "nat \<Rightarrow> nat \<Rightarrow> u8 list \<Rightarrow> disk \<Rightarrow> bool \<times> disk" where
  "cow_sector s within src d =
     (case d of
        DMemory v \<Rightarrow> (True, d)
      | DFile f sz snapshot ov \<Rightarrow>
          (case ov s of
             Some sector \<Rightarrow> (True, DFile f sz snapshot (ov(s \<mapsto> splice within 0 src sector)))
           | None \<Rightarrow>
               (let avail = min (sz - s * SECTOR_SIZE) SECTOR_SIZE;
                    (r, d) = (if length src \<noteq> SECTOR_SIZE then disk_read (s * SECTOR_SIZE) avail d else (Some [], d))
                in case r of
                     None \<Rightarrow> (False, d)
                   | Some seed \<Rightarrow>
                       (True,
                        case d of
                          DMemory v \<Rightarrow> d
                        | DFile f sz snapshot ov \<Rightarrow>
                            DFile f sz snapshot (ov(s \<mapsto> splice within 0 src
                              (seed @ replicate (SECTOR_SIZE - length seed) 0)))))))"

function cow_write :: "nat \<Rightarrow> u8 list \<Rightarrow> disk \<Rightarrow> bool \<times> disk" where
  "cow_write offset src d =
     (if src = [] then (True, d)
      else
        (let within = offset mod SECTOR_SIZE; n = min (SECTOR_SIZE - within) (length src);
             (okay, d) = cow_sector (offset div SECTOR_SIZE) within (take n src) d
         in if okay then cow_write (offset + n) (drop n src) d else (False, d)))"
  by pat_completeness auto
termination
  by (relation "measure (\<lambda>(offset, src, d). length src)") auto

definition disk_write :: "nat \<Rightarrow> u8 list \<Rightarrow> disk \<Rightarrow> bool \<times> disk" where
  "disk_write offset src d =
     (case d of
        DMemory v \<Rightarrow>
          if offset + length src \<le> length v then (True, DMemory (splice offset 0 src v)) else (False, d)
      | DFile f sz snapshot ov \<Rightarrow>
          if \<not> snapshot then (let (okay, f) = hf_write offset src f in (okay, DFile f sz snapshot ov))
          else cow_write offset src d)"

definition disk_flush :: "disk \<Rightarrow> bool \<times> disk" where
  "disk_flush d =
     (case d of
        DFile f sz False ov \<Rightarrow> (let (r, f) = hf_take f in (r = None, DFile f sz False ov))
      | _ \<Rightarrow> (True, d))"

section \<open>Requests\<close>

definition move_chunk :: "bool \<Rightarrow> u64 \<Rightarrow> nat \<Rightarrow> nat \<Rightarrow> disk \<times> vcore \<Rightarrow> bool \<times> disk \<times> vcore" where
  "move_chunk is_read guest_addr n offset dc =
     (let (d, c) = dc in
      if is_read then
        (case disk_read offset n d of
           (None, d) \<Rightarrow> (False, d, c)
         | (Some b, d) \<Rightarrow> (let (okay, c) = write_guest_bytes guest_addr b c in (okay, d, c)))
      else
        (case read_guest_bytes guest_addr n c of
           None \<Rightarrow> (False, d, c)
         | Some b \<Rightarrow> (let (okay, d) = disk_write offset b d in (okay, d, c))))"

function move_segment :: "bool \<Rightarrow> segment \<Rightarrow> nat \<Rightarrow> nat \<Rightarrow> disk \<times> vcore \<Rightarrow> bool \<times> disk \<times> vcore" where
  "move_segment is_read s pos offset dc =
     (if pos \<ge> unat (sg_len s) then (True, dc)
      else
        (let n = min CHUNK (unat (sg_len s) - pos);
             (okay, dc) = move_chunk is_read (sg_addr s + of_nat pos) n offset dc
         in if okay then move_segment is_read s (pos + n) (offset + n) dc else (False, dc)))"
  by pat_completeness auto
termination
  by (relation "measure (\<lambda>(is_read, s, pos, offset, dc). unat (sg_len s) - pos)") auto

fun move_segments :: "bool \<Rightarrow> segment list \<Rightarrow> nat \<Rightarrow> u32 \<Rightarrow> disk \<times> vcore \<Rightarrow> bool \<times> u32 \<times> disk \<times> vcore" where
  "move_segments is_read [] offset written dc = (True, written, dc)"
| "move_segments is_read (s # segs) offset written dc =
     (let (okay, dc) = move_segment is_read s 0 offset dc in
      if \<not> okay then (False, written, dc)
      else move_segments is_read segs (offset + unat (sg_len s)) (if is_read then written + sg_len s else written) dc)"

definition disk_id :: "u8 list" where
  "disk_id = map of_char ''riscv-emu-virtio'' @ [0, 0, 0, 0]"

definition blk_transfer :: "bool \<Rightarrow> u64 \<Rightarrow> segment list \<Rightarrow> disk \<times> vcore \<Rightarrow> u8 \<times> u32 \<times> disk \<times> vcore" where
  "blk_transfer is_read sector data dc =
     (let (d, c) = dc; total = sum_list (map (\<lambda>s. unat (sg_len s)) data);
          direction_ok = list_all (\<lambda>s. sg_device_writes s = is_read) data; sz = disk_size d
      in if \<not> direction_ok \<or> unat sector > sz div SECTOR_SIZE \<or> total > sz \<or> unat sector * SECTOR_SIZE > sz - total
         then (BLK_S_IOERR, 0, d, c)
         else if total \<noteq> 0 then
           (let (okay, written, d, c) = move_segments is_read data (unat sector * SECTOR_SIZE) 0 (d, c)
            in (if okay then BLK_S_OK else BLK_S_IOERR, written, d, c))
         else (BLK_S_OK, 0, d, c))"

definition blk_get_id :: "segment list \<Rightarrow> vcore \<Rightarrow> u8 \<times> u32 \<times> vcore" where
  "blk_get_id data c =
     (case data of
        [] \<Rightarrow> (BLK_S_IOERR, 0, c)
      | s # _ \<Rightarrow>
          if \<not> sg_device_writes s then (BLK_S_IOERR, 0, c)
          else
            (let n = min (unat (sg_len s)) (length disk_id);
                 (okay, c) = write_guest_bytes (sg_addr s) (take n disk_id) c
             in if okay then (BLK_S_OK, of_nat n, c) else (BLK_S_IOERR, 0, c)))"

definition process_request :: "nat \<Rightarrow> u16 \<Rightarrow> segment list \<Rightarrow> virtio_blk \<times> vcore \<Rightarrow> virtio_blk \<times> vcore" where
  "process_request qi head segs bc =
     (let (b, c) = bc; empty = (b, push_used qi head 0 c) in
      if length segs < 2 then empty
      else
        (let first = hd segs; final = last segs in
         if sg_device_writes first \<or> unat (sg_len first) < HEADER_BYTES \<or> \<not> sg_device_writes final \<or> sg_len final < 1
         then empty
         else
           (case read_guest_bytes (sg_addr first) HEADER_BYTES c of
              None \<Rightarrow> empty
            | Some header \<Rightarrow>
                (let kind = ucast (read_le (take 4 header)) :: u32;
                     sector = read_le (drop 8 header);
                     data = butlast (tl segs);
                     (status, written, d, c) =
                       (if kind = BLK_T_IN \<or> kind = BLK_T_OUT
                        then blk_transfer (kind = BLK_T_IN) sector data (bk_store b, c)
                        else if kind = BLK_T_FLUSH then
                          (let (okay, d) = disk_flush (bk_store b) in (if okay then BLK_S_OK else BLK_S_IOERR, 0, d, c))
                        else if kind = BLK_T_GET_ID then
                          (let (status, written, c) = blk_get_id data c in (status, written, bk_store b, c))
                        else (BLK_S_UNSUPP, 0, bk_store b, c));
                     c = snd (write_guest_bytes (sg_addr final) [status] c)
                 in (b\<lparr>bk_store := d\<rparr>, push_used qi head (written + 1) c)))))"

function blk_service_loop :: "nat \<Rightarrow> nat \<Rightarrow> u64 \<Rightarrow> virtio_blk \<times> vcore \<Rightarrow> nat \<times> virtio_blk \<times> vcore" where
  "blk_service_loop qi count bytes bc =
     (let (b, c) = bc in
      case pop_chain qi c of
        (None, c) \<Rightarrow> (count, b, c)
      | (Some (head, segs), c) \<Rightarrow>
          (let bytes = bytes + sum_list (map (\<lambda>s. ucast (sg_len s)) segs);
               (b, c) = process_request qi head segs (b, c)
           in if count + 1 \<ge> MAX_REQUESTS_PER_PASS \<or> bytes \<ge> MAX_BYTES_PER_PASS
              then (count + 1, b\<lparr>bk_backlog := True\<rparr>, c)
              else blk_service_loop qi (count + 1) bytes (b, c)))"
  by pat_completeness auto
termination
  by (relation "measure (\<lambda>(qi, count, bytes, bc). MAX_REQUESTS_PER_PASS - count)") auto

definition blk_service :: "nat \<Rightarrow> virtio_blk \<times> vcore \<Rightarrow> virtio_blk \<times> vcore" where
  "blk_service qi bc =
     (let (b, c) = bc; (count, b, c) = blk_service_loop qi 0 0 (b\<lparr>bk_backlog := False\<rparr>, c)
      in (b, if count > 0 then signal_used qi c else c))"

definition blk_config_read :: "u64 \<Rightarrow> nat \<Rightarrow> virtio_blk \<Rightarrow> u64" where
  "blk_config_read offset n b =
     config_bytes (to_le_bytes 8 (of_nat (blk_sectors b)) @ [0, 0, 0, 0] @ to_le_bytes 4 (ucast SEG_MAX) @ [0, 0, 0, 0] @
       to_le_bytes 4 (of_nat SECTOR_SIZE)) offset n"

definition blk_features :: u64 where
  "blk_features = push_bit 2 1 OR push_bit 6 1 OR push_bit 9 1"

definition blk_notify :: "nat \<Rightarrow> virtio_blk \<times> vcore \<Rightarrow> virtio_blk \<times> vcore" where
  "blk_notify qi bc = blk_service qi bc"

definition blk_poll :: "virtio_blk \<times> vcore \<Rightarrow> virtio_blk \<times> vcore" where
  "blk_poll bc = (if bk_backlog (fst bc) then blk_service 0 bc else bc)"

declare cow_write.simps [simp del] move_segment.simps [simp del] blk_service_loop.simps [simp del]

section \<open>The disk is a device of the transport\<close>

context transport_contract
begin

lemma move_chunk: "P (snd dc) \<Longrightarrow> P (snd (snd (Virtio_Blk.move_chunk is_read a n offset dc)))"
  by (cases dc) (simp add: move_chunk_def wrote split_beta split: option.split)

lemma move_segment: "P (snd dc) \<Longrightarrow> P (snd (snd (Virtio_Blk.move_segment is_read s pos offset dc)))"
proof (induction "unat (sg_len s) - pos" arbitrary: pos offset dc rule: less_induct)
  case less
  show ?case
    using less.prems move_chunk
    by (subst move_segment.simps) (simp add: Let_def split_beta less.hyps)
qed

lemma move_segments: "P (snd dc) \<Longrightarrow> P (snd (snd (snd (Virtio_Blk.move_segments is_read segs offset written dc))))"
  by (induction segs arbitrary: offset written dc) (simp_all add: Let_def split_beta move_segment)

lemma blk_transfer: "P (snd dc) \<Longrightarrow> P (snd (snd (snd (Virtio_Blk.blk_transfer is_read sector data dc))))"
  by (simp add: blk_transfer_def Let_def split_beta move_segments)

lemma blk_get_id: "P c \<Longrightarrow> P (snd (snd (Virtio_Blk.blk_get_id data c)))"
  by (simp add: blk_get_id_def Let_def split_beta wrote split: list.split)

lemma process_request: "P (snd bc) \<Longrightarrow> P (snd (Virtio_Blk.process_request qi head segs bc))"
  by (simp add: process_request_def Let_def split_beta push_used wrote blk_transfer blk_get_id
      split: option.split)

lemma blk_service_loop: "P (snd bc) \<Longrightarrow> P (snd (snd (Virtio_Blk.blk_service_loop qi count bytes bc)))"
proof (induction "MAX_REQUESTS_PER_PASS - count" arbitrary: count bytes bc rule: less_induct)
  case less
  show ?case
    using less.prems
    by (subst blk_service_loop.simps)
      (auto simp: Let_def split_beta process_request pop_chain intro!: less.hyps split: option.split)
qed

lemma blk_service: "P (snd bc) \<Longrightarrow> P (snd (Virtio_Blk.blk_service qi bc))"
  using blk_service_loop by (simp add: blk_service_def Let_def split_beta signal_used)

end

end
