(* ===== verification/Virtio_Net.thy ===== *)
theory Virtio_Net
  imports Virtio
begin

text \<open>
  The entropy source of \<open>src/src/virtio/rng.rs\<close> and the network card of \<open>src/src/virtio/net.rs\<close>. What a
  network card is connected to is any object with the methods of the trait \<open>NetBackend\<close>, an element of a
  codatatype. The loops that serve a queue until it is empty read the driver's index anew in every round, so
  the driver decides whether they end: they are partial functions, and a call that does not return is
  \<open>None\<close>.
\<close>

section \<open>Entropy\<close>

abbreviation (input) RNG_DEVICE :: u32 where "RNG_DEVICE \<equiv> 4"
abbreviation (input) FALLBACK_STATE :: u64 where "FALLBACK_STATE \<equiv> 0x9e3779b97f4a7c15"

record virtio_rng =
  rn_state :: u64

definition rng_new :: "u64 \<Rightarrow> virtio_rng" where
  "rng_new entropy = \<lparr>rn_state = (if entropy = 0 then FALLBACK_STATE else entropy)\<rparr>"

definition rng_seed :: "u64 \<Rightarrow> virtio_rng \<Rightarrow> virtio_rng" where
  "rng_seed value r = r\<lparr>rn_state := (if value = 0 then FALLBACK_STATE else value)\<rparr>"

definition next_u64 :: "virtio_rng \<Rightarrow> u64 \<times> virtio_rng" where
  "next_u64 r =
     (let s = rn_state r; s = s XOR drop_bit 12 s; s = s XOR push_bit 25 s; s = s XOR drop_bit 27 s
      in (s * 0x2545f4914f6cdd1d, r\<lparr>rn_state := s\<rparr>))"

fun rng_bytes :: "nat \<Rightarrow> virtio_rng \<Rightarrow> u8 list \<times> virtio_rng" where
  "rng_bytes n r =
     (if n = 0 then ([], r)
      else
        (let (v, r) = next_u64 r; (bs, r) = rng_bytes (n - 8) r
         in (take n (to_le_bytes 8 v) @ bs, r)))"

fun rng_fill :: "segment list \<Rightarrow> u32 \<Rightarrow> virtio_rng \<times> vcore \<Rightarrow> u32 \<times> virtio_rng \<times> vcore" where
  "rng_fill [] written (r, c) = (written, r, c)"
| "rng_fill (s # segs) written (r, c) =
     (if \<not> sg_device_writes s then rng_fill segs written (r, c)
      else
        (let (bs, r) = rng_bytes (unat (sg_len s)) r; (okay, c) = write_guest_bytes (sg_addr s) bs c
         in rng_fill segs (if okay then written + sg_len s else written) (r, c)))"

definition rng_serve :: "nat \<Rightarrow> u16 \<Rightarrow> segment list \<Rightarrow> virtio_rng \<times> vcore \<Rightarrow> virtio_rng \<times> vcore" where
  "rng_serve qi head segs rc = (let (written, r, c) = rng_fill segs 0 rc in (r, push_used qi head written c))"

text \<open>The loop common to the devices: serve chains until there is none.\<close>

partial_function (option) drain ::
  "nat \<Rightarrow> (u16 \<Rightarrow> segment list \<Rightarrow> 'd \<times> vcore \<Rightarrow> 'd \<times> vcore) \<Rightarrow> bool \<Rightarrow> 'd \<times> vcore \<Rightarrow> (bool \<times> 'd \<times> vcore) option" where
  "drain qi serve any dc =
     (case fst (pop_chain qi (snd dc)) of
        None \<Rightarrow> Some (any, fst dc, snd (pop_chain qi (snd dc)))
      | Some hs \<Rightarrow> drain qi serve True (serve (fst hs) (snd hs) (fst dc, snd (pop_chain qi (snd dc)))))"

definition rng_notify :: "nat \<Rightarrow> virtio_rng \<times> vcore \<Rightarrow> (virtio_rng \<times> vcore) option" where
  "rng_notify qi rc =
     map_option (\<lambda>(any, r, c). (r, if any then signal_used qi c else c)) (drain qi (rng_serve qi) False rc)"

section \<open>The network card\<close>

abbreviation (input) NET_DEVICE :: u32 where "NET_DEVICE \<equiv> 1"
abbreviation (input) RX_QUEUE :: nat where "RX_QUEUE \<equiv> 0"
abbreviation (input) TX_QUEUE :: nat where "TX_QUEUE \<equiv> 1"
abbreviation (input) NET_HEADER_BYTES :: nat where "NET_HEADER_BYTES \<equiv> 12"
abbreviation (input) MAX_PENDING :: nat where "MAX_PENDING \<equiv> 512"

codatatype net_backend = NetBackend
  (nb_send: "u8 list \<Rightarrow> net_backend")
  (nb_receive: "u8 list option \<times> net_backend")
  (nb_io_pending: bool)

primcorec loopback :: "u8 list list \<Rightarrow> net_backend" where
  "nb_send (loopback q) = (\<lambda>frame. loopback (q @ [frame]))"
| "nb_receive (loopback q) = (case q of [] \<Rightarrow> (None, loopback []) | f # fs \<Rightarrow> (Some f, loopback fs))"
| "nb_io_pending (loopback q) = False"

record virtio_net =
  vn_backend :: net_backend
  vn_mac :: "u8 list"
  vn_pending :: "u8 list list"
  vn_dropped :: u64

definition net_new :: "net_backend \<Rightarrow> u8 list \<Rightarrow> virtio_net" where
  "net_new backend mac = \<lparr>vn_backend = backend, vn_mac = mac, vn_pending = [], vn_dropped = 0\<rparr>"

definition net_transmit_one :: "u16 \<Rightarrow> segment list \<Rightarrow> virtio_net \<times> vcore \<Rightarrow> virtio_net \<times> vcore" where
  "net_transmit_one head segs nc =
     (let (n, c) = nc; total = unat (segments_length segs False);
          packet = read_from_segments segs 0 total c;
          n = (if total > NET_HEADER_BYTES \<and> length packet = total
               then n\<lparr>vn_backend := nb_send (vn_backend n) (drop NET_HEADER_BYTES packet)\<rparr> else n)
      in (n, push_used TX_QUEUE head 0 c))"

definition net_transmit :: "virtio_net \<times> vcore \<Rightarrow> (virtio_net \<times> vcore) option" where
  "net_transmit nc =
     map_option (\<lambda>(any, n, c). (n, if any then signal_used TX_QUEUE c else c)) (drain TX_QUEUE net_transmit_one False nc)"

text \<open>The frames the backend has produced, up to the limit; at most as many as there is room for.\<close>

fun net_collect :: "nat \<Rightarrow> virtio_net \<Rightarrow> virtio_net" where
  "net_collect 0 n = n"
| "net_collect (Suc k) n =
     (case nb_receive (vn_backend n) of
        (None, b) \<Rightarrow> n\<lparr>vn_backend := b\<rparr>
      | (Some f, b) \<Rightarrow> net_collect k (n\<lparr>vn_backend := b, vn_pending := vn_pending n @ [f]\<rparr>))"

definition net_header :: "u8 list" where
  "net_header = (replicate NET_HEADER_BYTES 0)[10 := 1]"

fun net_deliver_loop :: "u8 list list \<Rightarrow> bool \<Rightarrow> virtio_net \<times> vcore \<Rightarrow> bool \<times> virtio_net \<times> vcore" where
  "net_deliver_loop [] any (n, c) = (any, n\<lparr>vn_pending := []\<rparr>, c)"
| "net_deliver_loop (f # fs) any (n, c) =
     (case pop_chain RX_QUEUE c of
        (None, c) \<Rightarrow> (any, n\<lparr>vn_pending := f # fs\<rparr>, c)
      | (Some (head, segs), c) \<Rightarrow>
          if unat (segments_length segs True) \<ge> NET_HEADER_BYTES + length f then
            (let c = snd (write_to_segments segs 0 net_header c);
                 c = snd (write_to_segments segs NET_HEADER_BYTES f c)
             in net_deliver_loop fs True (n, push_used RX_QUEUE head (of_nat (NET_HEADER_BYTES + length f)) c))
          else net_deliver_loop fs any (n\<lparr>vn_dropped := vn_dropped n + 1\<rparr>, push_used RX_QUEUE head 0 c))"

definition net_deliver :: "virtio_net \<times> vcore \<Rightarrow> virtio_net \<times> vcore" where
  "net_deliver nc =
     (let (n, c) = nc in
      if \<not> queue_ready RX_QUEUE c then (n, c)
      else
        (let n = net_collect (MAX_PENDING - length (vn_pending n)) n;
             (any, n, c) = net_deliver_loop (vn_pending n) False (n, c)
         in (n, if any then signal_used RX_QUEUE c else c)))"

definition net_config_read :: "u64 \<Rightarrow> nat \<Rightarrow> virtio_net \<Rightarrow> u64" where
  "net_config_read offset k n = config_bytes (vn_mac n @ [1, 0]) offset k"

definition net_features :: u64 where
  "net_features = push_bit 5 1 OR push_bit 16 1"

definition net_notify :: "nat \<Rightarrow> virtio_net \<times> vcore \<Rightarrow> (virtio_net \<times> vcore) option" where
  "net_notify qi nc =
     (if qi = TX_QUEUE then net_transmit nc
      else if qi = RX_QUEUE then Some (net_deliver nc)
      else Some nc)"

definition net_poll :: "virtio_net \<times> vcore \<Rightarrow> virtio_net \<times> vcore" where
  "net_poll nc = net_deliver nc"

definition net_io_pending :: "virtio_net \<Rightarrow> bool" where
  "net_io_pending n = nb_io_pending (vn_backend n)"

section \<open>Both are devices of the transport\<close>

declare rng_bytes.simps [simp del]

lemma drain_induct:
  assumes "drain qi serve any dc = Some r" "Q dc"
    and step: "\<And>dc hs. Q dc \<Longrightarrow> fst (pop_chain qi (snd dc)) = Some hs \<Longrightarrow>
      Q (serve (fst hs) (snd hs) (fst dc, snd (pop_chain qi (snd dc))))"
    and idle: "\<And>any dc. Q dc \<Longrightarrow> fst (pop_chain qi (snd dc)) = None \<Longrightarrow> R (any, fst dc, snd (pop_chain qi (snd dc)))"
  shows "R r"
proof -
  have "qi = qi \<and> serve = serve \<and> Q dc \<longrightarrow> R r"
  proof (rule drain.raw_induct [OF _ assms(1),
        where P = "\<lambda>qi' serve' any dc y. qi' = qi \<and> serve' = serve \<and> Q dc \<longrightarrow> R y"], intro impI, elim conjE)
    fix self :: "nat \<Rightarrow> (u16 \<Rightarrow> segment list \<Rightarrow> 'a \<times> vcore \<Rightarrow> 'a \<times> vcore) \<Rightarrow> bool \<Rightarrow> 'a \<times> vcore \<Rightarrow> (bool \<times> 'a \<times> vcore) option"
      and qi' serve' any' dc' y
    assume ih: "\<And>q s a d z. self q s a d = Some z \<Longrightarrow> q = qi \<and> s = serve \<and> Q d \<longrightarrow> R z"
      and eq: "qi' = qi" "serve' = serve" and q: "Q dc'"
      and y: "(case fst (pop_chain qi' (snd dc')) of
          None \<Rightarrow> Some (any', fst dc', snd (pop_chain qi' (snd dc')))
        | Some hs \<Rightarrow> self qi' serve' True (serve' (fst hs) (snd hs) (fst dc', snd (pop_chain qi' (snd dc'))))) = Some y"
    show "R y"
    proof (cases "fst (pop_chain qi (snd dc'))")
      case None
      then show ?thesis
        using y idle [OF q] by (auto simp: eq)
    next
      case (Some hs)
      then show ?thesis
        using y step [OF q] ih by (simp add: eq)
    qed
  qed
  then show ?thesis
    using assms(2) by simp
qed

context transport_contract
begin

lemma rng_fill: "P (snd rc) \<Longrightarrow> P (snd (snd (Virtio_Net.rng_fill segs written rc)))"
proof (induction segs arbitrary: written rc)
  case (Cons s segs)
  then show ?case
    by (cases rc) (simp add: Let_def split_beta wrote)
qed auto

lemma rng_notify: "P (snd rc) \<Longrightarrow> Virtio_Net.rng_notify qi rc = Some rc' \<Longrightarrow> P (snd rc')"
  using drain_induct [of qi "rng_serve qi" False rc _ "\<lambda>rc. P (snd rc)" "\<lambda>rc. P (snd (snd rc))"]
  by (auto simp: rng_notify_def rng_serve_def Let_def split_beta rng_fill pop_chain push_used signal_used)

lemma net_transmit: "P (snd nc) \<Longrightarrow> Virtio_Net.net_transmit nc = Some nc' \<Longrightarrow> P (snd nc')"
  using drain_induct [of TX_QUEUE net_transmit_one False nc _ "\<lambda>rc. P (snd rc)" "\<lambda>rc. P (snd (snd rc))"]
  by (auto simp: net_transmit_def net_transmit_one_def Let_def split_beta pop_chain push_used signal_used)

lemma net_deliver_loop: "P (snd nc) \<Longrightarrow> P (snd (snd (Virtio_Net.net_deliver_loop fs any nc)))"
proof (induction fs arbitrary: any nc)
  case (Cons f fs)
  then show ?case
    by (cases nc) (auto simp: Let_def split_beta pop_chain push_used write_to_segments split: option.split)
qed auto

lemma net_deliver: "P (snd nc) \<Longrightarrow> P (snd (Virtio_Net.net_deliver nc))"
  by (simp add: net_deliver_def Let_def split_beta net_deliver_loop signal_used)

lemma net_notify: "P (snd nc) \<Longrightarrow> Virtio_Net.net_notify qi nc = Some nc' \<Longrightarrow> P (snd nc')"
  by (auto simp: net_notify_def intro: net_transmit net_deliver split: if_splits)

end

end
