(* ===== verification/Virtio_Mmio.thy ===== *)
theory Virtio_Mmio
  imports Virtio_Blk Virtio_Net
begin

text \<open>
  A virtio device in its memory-mapped slot, \<open>VirtioMmio\<close> of \<open>src/src/virtio/mod.rs\<close>: the register file in
  front of a disk, an entropy source or a network card. A store that rings the doorbell runs the
  device; it is \<open>None\<close> when that run does not end. For the bus a slot becomes an object with the methods
  of the trait \<open>Device\<close>; there a call that does not end is one that changes nothing.
\<close>

section \<open>The device behind the registers\<close>

datatype vdev = VBlk virtio_blk | VRng virtio_rng | VNet virtio_net

definition vdev_name :: "vdev \<Rightarrow> string" where
  "vdev_name d = (case d of VBlk _ \<Rightarrow> ''virtio-blk'' | VRng _ \<Rightarrow> ''virtio-rng'' | VNet _ \<Rightarrow> ''virtio-net'')"

definition vdev_device_id :: "vdev \<Rightarrow> u32" where
  "vdev_device_id d = (case d of VBlk _ \<Rightarrow> 2 | VRng _ \<Rightarrow> RNG_DEVICE | VNet _ \<Rightarrow> NET_DEVICE)"

definition vdev_num_queues :: "vdev \<Rightarrow> nat" where
  "vdev_num_queues d = (case d of VBlk _ \<Rightarrow> 1 | VRng _ \<Rightarrow> 1 | VNet _ \<Rightarrow> 2)"

definition vdev_features :: "vdev \<Rightarrow> u64" where
  "vdev_features d = (case d of VBlk _ \<Rightarrow> blk_features | VRng _ \<Rightarrow> 0 | VNet _ \<Rightarrow> net_features)"

definition vdev_config_read :: "u64 \<Rightarrow> nat \<Rightarrow> vdev \<Rightarrow> u64" where
  "vdev_config_read offset n d =
     (case d of VBlk b \<Rightarrow> blk_config_read offset n b | VRng _ \<Rightarrow> 0 | VNet v \<Rightarrow> net_config_read offset n v)"

definition vdev_notify :: "nat \<Rightarrow> vdev \<times> vcore \<Rightarrow> (vdev \<times> vcore) option" where
  "vdev_notify qi dc =
     (case fst dc of
        VBlk b \<Rightarrow> Some (apfst VBlk (blk_notify qi (b, snd dc)))
      | VRng r \<Rightarrow> map_option (apfst VRng) (rng_notify qi (r, snd dc))
      | VNet v \<Rightarrow> map_option (apfst VNet) (net_notify qi (v, snd dc)))"

definition vdev_poll :: "vdev \<times> vcore \<Rightarrow> vdev \<times> vcore" where
  "vdev_poll dc =
     (case fst dc of
        VBlk b \<Rightarrow> apfst VBlk (blk_poll (b, snd dc))
      | VRng _ \<Rightarrow> dc
      | VNet v \<Rightarrow> apfst VNet (net_poll (v, snd dc)))"

definition vdev_io_pending :: "vdev \<Rightarrow> bool" where
  "vdev_io_pending d = (case d of VNet v \<Rightarrow> net_io_pending v | _ \<Rightarrow> False)"

section \<open>The register file\<close>

definition virtio_new :: "u64 \<Rightarrow> dram \<Rightarrow> plic \<Rightarrow> vdev \<Rightarrow> vdev \<times> vcore" where
  "virtio_new base ram pl d = (d, core_new base ram pl (vdev_device_id d) (vdev_num_queues d))"

definition virtio_attach :: "u32 \<Rightarrow> vdev \<times> vcore \<Rightarrow> vdev \<times> vcore" where
  "virtio_attach irq dc = (fst dc, (snd dc)\<lparr>vc_plic := True, vc_irq := irq\<rparr>)"

definition selected :: "(queue \<Rightarrow> queue) \<Rightarrow> vcore \<Rightarrow> vcore" where
  "selected f c =
     (let i = unat (vc_queue_sel c) in
      if i < length (vc_queues c) then c\<lparr>vc_queues := (vc_queues c)[i := f (vc_queues c ! i)]\<rparr> else c)"

definition core_read :: "u64 \<Rightarrow> u64 \<Rightarrow> vcore \<Rightarrow> u64" where
  "core_read features offset c =
     (if offset = MAGIC_VALUE then VIRTIO_MAGIC
      else if offset = VERSION then 2
      else if offset = DEVICE_ID then ucast (vc_device_id c)
      else if offset = VENDOR_ID then VIRTIO_VENDOR
      else if offset = DEVICE_FEATURES then
        ucast (ucast (drop_bit (unat (vc_device_features_sel c * 32)) (features OR F_VERSION_1)) :: u32)
      else if offset = QUEUE_NUM_MAX then
        (if unat (vc_queue_sel c) < length (vc_queues c) then ucast QUEUE_MAX else 0)
      else if offset = QUEUE_READY then
        (if unat (vc_queue_sel c) < length (vc_queues c) then of_bool (vq_ready (vc_queues c ! unat (vc_queue_sel c))) else 0)
      else if offset = INTERRUPT_STATUS then ucast (vc_interrupt_status c)
      else if offset = STATUS then ucast (vc_status c)
      else 0)"

definition virtio_load :: "(vdev \<times> vcore) dev_load" where
  "virtio_load offset n dc =
     (let (d, c) = dc in
      (if offset \<ge> CONFIG then Inr (vdev_config_read (offset - CONFIG) n d)
       else if n \<noteq> 4 then Inl (trap_new LoadAccessFault (vc_base c + offset))
       else Inr (core_read (vdev_features d) offset c), dc))"

abbreviation (input) LO_MASK :: u64 where "LO_MASK \<equiv> 0xffffffff"

definition set_low :: "u32 \<Rightarrow> u64 \<Rightarrow> u64" where
  "set_low v w = (w AND NOT LO_MASK) OR ucast v"

definition set_high :: "u32 \<Rightarrow> u64 \<Rightarrow> u64" where
  "set_high v w = (w AND LO_MASK) OR push_bit 32 (ucast v)"

definition core_write :: "u64 \<Rightarrow> u32 \<Rightarrow> vcore \<Rightarrow> vcore" where
  "core_write offset v c =
     (if offset = DEVICE_FEATURES_SEL then c\<lparr>vc_device_features_sel := of_bool (v \<noteq> 0)\<rparr>
      else if offset = DRIVER_FEATURES_SEL then c\<lparr>vc_driver_features_sel := of_bool (v \<noteq> 0)\<rparr>
      else if offset = DRIVER_FEATURES then
        (let sh = unat (vc_driver_features_sel c * 32)
         in c\<lparr>vc_driver_features := (vc_driver_features c AND NOT (push_bit sh LO_MASK)) OR push_bit sh (ucast v)\<rparr>)
      else if offset = QUEUE_SEL then c\<lparr>vc_queue_sel := v\<rparr>
      else if offset = QUEUE_NUM then selected (\<lambda>q. q\<lparr>vq_num := min v QUEUE_MAX\<rparr>) c
      else if offset = QUEUE_READY then selected (\<lambda>q. q\<lparr>vq_ready := (v AND 1 \<noteq> 0)\<rparr>) c
      else if offset = QUEUE_DESC_LOW then selected (\<lambda>q. q\<lparr>vq_desc := set_low v (vq_desc q)\<rparr>) c
      else if offset = QUEUE_DESC_HIGH then selected (\<lambda>q. q\<lparr>vq_desc := set_high v (vq_desc q)\<rparr>) c
      else if offset = DRIVER_DESC_LOW then selected (\<lambda>q. q\<lparr>vq_avail := set_low v (vq_avail q)\<rparr>) c
      else if offset = DRIVER_DESC_HIGH then selected (\<lambda>q. q\<lparr>vq_avail := set_high v (vq_avail q)\<rparr>) c
      else if offset = DEVICE_DESC_LOW then selected (\<lambda>q. q\<lparr>vq_used := set_low v (vq_used q)\<rparr>) c
      else if offset = DEVICE_DESC_HIGH then selected (\<lambda>q. q\<lparr>vq_used := set_high v (vq_used q)\<rparr>) c
      else if offset = INTERRUPT_ACK then
        (let c = c\<lparr>vc_interrupt_status := vc_interrupt_status c AND NOT v\<rparr>
         in if vc_interrupt_status c = 0 \<and> vc_plic c then c\<lparr>vc_pl := set_pending (vc_irq c) False (vc_pl c)\<rparr> else c)
      else if offset = STATUS then
        (if v = 0 then core_reset c
         else c\<lparr>vc_status := (if v AND FEATURES_OK \<noteq> 0 then v OR FEATURES_OK else v)\<rparr>)
      else c)"

definition virtio_store :: "u64 \<Rightarrow> nat \<Rightarrow> u64 \<Rightarrow> vdev \<times> vcore \<Rightarrow> (unit res \<times> vdev \<times> vcore) option" where
  "virtio_store offset n value dc =
     (let (d, c) = dc; v = ucast value :: u32 in
      if offset \<ge> CONFIG then Some (Inr (), dc)
      else if n \<noteq> 4 then Some (Inl (trap_new StoreAMOAccessFault (vc_base c + offset)), dc)
      else if offset = QUEUE_NOTIFY then
        (if unat v < length (vc_queues c) then map_option (Pair (Inr ())) (vdev_notify (unat v) dc) else Some (Inr (), dc))
      else Some (Inr (), d, core_write offset v c))"

definition virtio_poll :: "vdev \<times> vcore \<Rightarrow> vdev \<times> vcore" where
  "virtio_poll dc = vdev_poll dc"

section \<open>A slot as a device of the bus\<close>

definition lend :: "dram \<times> plic \<Rightarrow> vcore \<Rightarrow> vcore" where
  "lend mp c = c\<lparr>vc_ram := fst mp, vc_pl := snd mp\<rparr>"

definition returned :: "vcore \<Rightarrow> dram \<times> plic" where
  "returned c = (vc_ram c, vc_pl c)"

primcorec virtio_device :: "vdev \<times> vcore \<Rightarrow> ext_device" where
  "xd_base (virtio_device dc) = vc_base (snd dc)"
| "xd_size (virtio_device dc) = 0x1000"
| "xd_name (virtio_device dc) = vdev_name (fst dc)"
| "xd_load (virtio_device dc) = (\<lambda>off n mp.
     (fst (virtio_load off n (apsnd (lend mp) dc)), returned (snd (snd (virtio_load off n (apsnd (lend mp) dc)))),
      virtio_device (snd (virtio_load off n (apsnd (lend mp) dc)))))"
| "xd_store (virtio_device dc) = (\<lambda>off n v mp.
     (case virtio_store off n v (apsnd (lend mp) dc) of
        None \<Rightarrow> (Inr (), mp, virtio_device dc)
      | Some r \<Rightarrow> (fst r, returned (snd (snd r)), virtio_device (snd r))))"
| "xd_poll (virtio_device dc) = (\<lambda>mp.
     (returned (snd (virtio_poll (apsnd (lend mp) dc))), virtio_device (virtio_poll (apsnd (lend mp) dc))))"
| "xd_io_pending (virtio_device dc) = vdev_io_pending (fst dc)"

section \<open>The contract of the bus\<close>

lemma selected_frame [simp]: "vc_ram (selected f c) = vc_ram c" "vc_pl (selected f c) = vc_pl c"
  "vc_base (selected f c) = vc_base c"
  by (simp_all add: selected_def Let_def)

lemma core_write_master: "bus_master m b c \<Longrightarrow> bus_master m b (core_write offset v c)"
  by (simp add: core_write_def core_reset_def bus_master_def Let_def plic_inv_set_pending)

lemma vdev_notify_master:
  assumes "bus_master m b (snd dc)" "vdev_notify qi dc = Some dc'"
  shows "bus_master m b (snd dc')"
proof (cases "fst dc")
  case (VBlk x)
  then show ?thesis
    using assms vm.blk_service [of m b "(x, snd dc)" qi] by (auto simp: vdev_notify_def blk_notify_def)
next
  case (VRng x)
  then show ?thesis
    using assms vm.rng_notify [of m b "(x, snd dc)" qi] by (auto simp: vdev_notify_def)
next
  case (VNet x)
  then show ?thesis
    using assms vm.net_notify [of m b "(x, snd dc)" qi] by (auto simp: vdev_notify_def)
qed

lemma vdev_poll_master: "bus_master m b (snd dc) \<Longrightarrow> bus_master m b (snd (vdev_poll dc))"
  using vm.blk_service [of m b] vm.net_deliver [of m b]
  by (simp add: vdev_poll_def blk_poll_def net_poll_def split: vdev.split)

lemma virtio_store_master:
  "bus_master m b (snd dc) \<Longrightarrow> virtio_store off n v dc = Some (r, dc') \<Longrightarrow> bus_master m b (snd dc')"
  using vdev_notify_master [of m b dc "unat (ucast v :: u32)" dc']
  by (auto simp: virtio_store_def Let_def core_write_master split: if_splits prod.splits)

lemma lend_master: "plic_inv p \<Longrightarrow> bus_master m (vc_base c) (lend (m, p) c)"
  by (simp add: bus_master_def lend_def dma_refl)

lemma bus_masterD: "bus_master m b c \<Longrightarrow> dma m (fst (returned c)) \<and> plic_inv (snd (returned c)) \<and> vc_base c = b"
  by (simp add: bus_master_def returned_def)

lemma virtio_slot_load:
  assumes "plic_inv p" "xd_load (virtio_device dc) off n (m, p) = (r, (m', p'), x')"
  shows "dma m m' \<and> plic_inv p' \<and> xd_base x' = xd_base (virtio_device dc) \<and> (\<exists>dc'. x' = virtio_device dc')"
  using assms bus_masterD [OF lend_master [of p m "snd dc"]] by (auto simp: virtio_load_def split_beta simp del: split_paired_Ex)

lemma virtio_slot_store:
  assumes p: "plic_inv p" and x: "xd_store (virtio_device dc) off n v (m, p) = (r, (m', p'), x')"
  shows "dma m m' \<and> plic_inv p' \<and> xd_base x' = xd_base (virtio_device dc) \<and> (\<exists>dc'. x' = virtio_device dc')"
proof (cases "virtio_store off n v (apsnd (lend (m, p)) dc)")
  case (Some rd)
  have "bus_master m (vc_base (snd dc)) (snd (snd rd))"
    using virtio_store_master [of m "vc_base (snd dc)" "apsnd (lend (m, p)) dc" off n v "fst rd" "snd rd"] lend_master [OF p] Some
    by simp
  then show ?thesis
    using x Some bus_masterD [of m _ "snd (snd rd)"] by (auto simp del: split_paired_Ex)
qed (use p x dma_refl in \<open>auto simp del: split_paired_Ex\<close>)

lemma virtio_slot_poll:
  assumes p: "plic_inv p" and "xd_poll (virtio_device dc) (m, p) = ((m', p'), x')"
  shows "dma m m' \<and> plic_inv p' \<and> xd_base x' = xd_base (virtio_device dc) \<and> (\<exists>dc'. x' = virtio_device dc')"
  using assms(2) bus_masterD [OF vdev_poll_master [of m "vc_base (snd dc)" "apsnd (lend (m, p)) dc"]] lend_master [OF p]
  by (auto simp: virtio_poll_def simp del: split_paired_Ex)

lemma virtio_ext_ok: "ext_ok (virtio_device dc)"
proof (coinduction arbitrary: dc)
  case ext_ok
  show ?case
    by (rule exI [of _ "virtio_device dc"], intro conjI allI impI refl)
      ((drule (1) virtio_slot_load virtio_slot_store virtio_slot_poll, blast)+)
qed

lemma vdev_notify_geometry: "vdev_notify qi dc = Some dc' \<Longrightarrow> geometry (snd dc') = geometry (snd dc)"
proof (cases "fst dc")
  case (VBlk x)
  then show "vdev_notify qi dc = Some dc' \<Longrightarrow> ?thesis"
    using vg.blk_service [of "(x, snd dc)"] by (auto simp: vdev_notify_def blk_notify_def)
next
  case (VRng x)
  then show "vdev_notify qi dc = Some dc' \<Longrightarrow> ?thesis"
    using vg.rng_notify [of "(x, snd dc)" "geometry (snd dc)" qi] by (auto simp: vdev_notify_def)
next
  case (VNet x)
  then show "vdev_notify qi dc = Some dc' \<Longrightarrow> ?thesis"
    using vg.net_notify [of "(x, snd dc)" "geometry (snd dc)" qi] by (auto simp: vdev_notify_def)
qed


definition sample_rng :: "vdev \<times> vcore" where
  "sample_rng = virtio_attach 4 (virtio_new VIRTIO_RNG_BASE (b_ram sample_bus) (b_plic sample_bus) (VRng (rng_new 1)))"


end
