(* ===== verification/Virtio_Ring.thy ===== *)
theory Virtio_Ring
  imports Virtio_Mmio
begin

text \<open>
  The rings of a virtqueue in guest memory. Memory is seen byte by byte; a ring is served completely when
  the driver keeps the index it publishes with apart from the ring the device writes, and forever when
  both rings are the same.
\<close>

section \<open>Guest memory, byte by byte\<close>

definition guest_byte :: "vcore \<Rightarrow> u64 \<Rightarrow> u8" where
  "guest_byte c x = d_mem (vc_ram c) (unat (x - DRAM_BASE))"

definition guest_ok :: "u64 \<Rightarrow> nat \<Rightarrow> vcore \<Rightarrow> bool" where
  "guest_ok a n c \<longleftrightarrow> DRAM_BASE \<le> a \<and> in_range (a - DRAM_BASE) n (vc_ram c)"

lemma read_le_to_le_bytes: "n \<le> 8 \<Longrightarrow> read_le (to_le_bytes n v) = take_bit (8 * n) v"
proof -
  assume n: "n \<le> 8"
  have "map (\<lambda>i. le_write 0 n v (\<lambda>_. 0) (0 + i)) [0..<n] = to_le_bytes n v"
    using n by (auto simp: to_le_bytes_def le_write_apply)
  then show ?thesis
    using le_read_write [of 0 n v "\<lambda>_. 0"] n by (simp add: le_read_list min_def)
qed

lemma in_range_offset: "in_range (a - DRAM_BASE) n d \<Longrightarrow> dram_inv d \<Longrightarrow> i < n \<Longrightarrow>
    unat (a + of_nat i - DRAM_BASE) = unat (a - DRAM_BASE) + i"
proof -
  assume "in_range (a - DRAM_BASE) n d" "dram_inv d" "i < n"
  then have le: "unat (a - DRAM_BASE) + i < 2 ^ 44"
    by (auto simp: in_range_def dram_inv_def word_less_nat_alt unat_of_nat_small)
  have eq: "a + of_nat i - DRAM_BASE = of_nat (unat (a - DRAM_BASE) + i)"
    by simp
  show ?thesis
    unfolding eq using le by (intro unat_of_nat_small) simp
qed

lemma read_guest_bytes_eq:
  assumes "dram_inv (vc_ram c)"
  shows "read_guest a n c =
    (if 0 < n \<and> guest_ok a n c then read_le (map (\<lambda>i. guest_byte c (a + of_nat i)) [0..<n]) else 0)"
proof -
  have "d_mem (vc_ram c) (unat (a - DRAM_BASE) + i) = guest_byte c (a + of_nat i)"
    if "guest_ok a n c" "i < n" for i
    using in_range_offset [of a n "vc_ram c" i] assms that by (simp add: guest_byte_def guest_ok_def)
  then show ?thesis
    by (auto simp: read_guest_def dram_read_bytes_def guest_ok_def Let_def not_less
        intro!: arg_cong [where f = read_le])
qed

lemma guest_ok_write [simp]: "guest_ok x m (snd (write_guest_bytes a src c)) = guest_ok x m c"
  by (auto simp: write_guest_bytes_def guest_ok_def in_range_def dest: write_len split: option.split)

lemma write_guest_frame [simp]:
  "vc_queues (snd (write_guest_bytes a src c)) = vc_queues c" "vc_pl (snd (write_guest_bytes a src c)) = vc_pl c"
  by (simp_all add: write_guest_bytes_def split: option.split)

lemma dram_inv_write: "dram_inv (vc_ram c) \<Longrightarrow> dram_inv (vc_ram (snd (write_guest_bytes a src c)))"
  by (auto simp: write_guest_bytes_def intro: dram_inv_ops(2) split: option.split)

lemma guest_byte_write:
  assumes "dram_inv (vc_ram c)" "src \<noteq> []"
  shows "guest_byte (snd (write_guest_bytes a src c)) x =
    (if guest_ok a (length src) c \<and> unat (x - a) < length src then src ! unat (x - a) else guest_byte c x)"
proof (cases "guest_ok a (length src) c")
  case True
  let ?p = "unat (a - DRAM_BASE)" and ?i = "unat (x - DRAM_BASE)"
  have r: "DRAM_BASE \<le> a" "in_range (a - DRAM_BASE) (length src) (vc_ram c)"
    using True by (auto simp: guest_ok_def)
  have lim: "?p + length src < 2 ^ 64"
    using r assms(1) by (auto simp: in_range_def dram_inv_def word_less_nat_alt unat_of_nat_small)
  have "x - a = (x - DRAM_BASE) - (a - DRAM_BASE)"
    by simp
  then have "unat (x - a) = (if ?p \<le> ?i then ?i - ?p else 2 ^ 64 + ?i - ?p)"
    by (simp only: unat_sub_if') simp
  then have "unat (x - a) < length src \<longleftrightarrow> ?p \<le> ?i \<and> ?i < ?p + length src"
    "?p \<le> ?i \<Longrightarrow> unat (x - a) = ?i - ?p"
    using lim by auto
  then show ?thesis
    using True r assms(2)
    by (auto simp: write_guest_bytes_def dram_write_bytes_def guest_byte_def copy_in_def Let_def not_le)
next
  case False
  then show ?thesis
    using assms(2)
    by (auto simp: write_guest_bytes_def dram_write_bytes_def guest_byte_def guest_ok_def Let_def not_le)
qed

lemma write_guest_ops [simp]:
  "vc_queues (write_guest a n v c) = vc_queues c" "guest_ok x m (write_guest a n v c) = guest_ok x m c"
  "dram_inv (vc_ram c) \<Longrightarrow> dram_inv (vc_ram (write_guest a n v c))"
  by (simp_all add: write_guest_def dram_inv_write)

lemma guest_byte_write_guest:
  assumes "dram_inv (vc_ram c)" "0 < n"
  shows "guest_byte (write_guest a n v c) x =
    (if guest_ok a n c \<and> unat (x - a) < n then ucast (drop_bit (8 * unat (x - a)) v) else guest_byte c x)"
  using assms guest_byte_write [OF assms(1), of "to_le_bytes n v" a x] by (simp add: write_guest_def to_le_bytes_def)

text \<open>Reading back what was written, and reading elsewhere.\<close>

definition apart :: "u64 \<Rightarrow> nat \<Rightarrow> u64 \<Rightarrow> nat \<Rightarrow> bool" where
  "apart x m a n \<longleftrightarrow> n \<le> unat (x - a) \<and> m \<le> unat (a - x)"

lemma apart_bytes: "apart x m a n \<Longrightarrow> i < m \<Longrightarrow> n \<le> unat (x + of_nat i - a)"
proof -
  assume ap: "apart x m a n" and i: "i < m"
  define d where "d = x - a"
  have "a - x = 0 - d"
    by (simp add: d_def)
  then have m: "m \<le> unat (0 - d)" and n: "n \<le> unat d"
    using ap by (auto simp: apart_def d_def)
  have "i < 2 ^ 64"
    using less_trans [OF less_le_trans [OF i m] unsigned_less] by simp
  then have oi: "unat (of_nat i :: u64) = i"
    by (intro unat_of_nat_small) simp
  have "unat d + i < 2 ^ 64"
    using m i unsigned_less [of d, where ?'a = nat] unat_sub_if' [of 0 d] by (auto split: if_splits)
  then have "unat (d + of_nat i) = unat d + i"
    using oi by (simp add: unat_word_ariths(1))
  moreover have eq: "x + of_nat i - a = d + of_nat i"
    by (simp add: d_def)
  ultimately show ?thesis
    unfolding eq using n by simp
qed

lemma read_write_same:
  "dram_inv (vc_ram c) \<Longrightarrow> guest_ok a n c \<Longrightarrow> 0 < n \<Longrightarrow> n \<le> 8 \<Longrightarrow> read_guest a n (write_guest a n v c) = take_bit (8 * n) v"
proof -
  assume *: "dram_inv (vc_ram c)" "guest_ok a n c" "0 < n" "n \<le> 8"
  have "map (\<lambda>i. guest_byte (write_guest a n v c) (a + of_nat i)) [0..<n] = to_le_bytes n v"
    using * by (auto simp: guest_byte_write_guest to_le_bytes_def unat_of_nat_small)
  then show ?thesis
    using * by (simp add: read_guest_bytes_eq read_le_to_le_bytes)
qed

lemma read_write_apart:
  assumes "dram_inv (vc_ram c)" "apart x m a n" "0 < n"
  shows "read_guest x m (write_guest a n v c) = read_guest x m c"
proof -
  have "guest_byte (write_guest a n v c) (x + of_nat i) = guest_byte c (x + of_nat i)" if "i < m" for i
    using apart_bytes [OF assms(2) that] assms by (simp add: guest_byte_write_guest)
  then have "map (\<lambda>i. guest_byte (write_guest a n v c) (x + of_nat i)) [0..<m] = map (\<lambda>i. guest_byte c (x + of_nat i)) [0..<m]"
    by simp
  then show ?thesis
    using assms by (simp only: read_guest_bytes_eq write_guest_ops)
qed

section \<open>The rings of a queue\<close>

definition avail_idx :: "nat \<Rightarrow> vcore \<Rightarrow> u16" where
  "avail_idx qi c = ucast (read_guest (vq_avail (vc_queues c ! qi) + 2) 2 c)"

definition used_idx :: "nat \<Rightarrow> vcore \<Rightarrow> u16" where
  "used_idx qi c = ucast (read_guest (vq_used (vc_queues c ! qi) + 2) 2 c)"

definition last_avail :: "nat \<Rightarrow> vcore \<Rightarrow> u16" where
  "last_avail qi c = vq_last_avail (vc_queues c ! qi)"

text \<open>The queue is set up: it is ready and the index the device publishes with lies in memory.\<close>

definition ring_ready :: "nat \<Rightarrow> vcore \<Rightarrow> bool" where
  "ring_ready qi c \<longleftrightarrow> dram_inv (vc_ram c) \<and> queue_ready qi c \<and> guest_ok (vq_used (vc_queues c ! qi) + 2) 2 c"

text \<open>The index the driver publishes with lies outside of the ring the device writes.\<close>

definition rings_apart :: "nat \<Rightarrow> vcore \<Rightarrow> bool" where
  "rings_apart qi c \<longleftrightarrow>
     (let q = vc_queues c ! qi in apart (vq_avail q + 2) 2 (vq_used q + 2) (2 + 8 * unat (vq_num q)))"

lemma pop_chain_effect:
  "fst (pop_chain qi c) = None \<Longrightarrow> snd (pop_chain qi c) = c"
  "queue_ready qi c \<Longrightarrow> fst (pop_chain qi c) = None \<longleftrightarrow> last_avail qi c = avail_idx qi c"
  "fst (pop_chain qi c) = Some hs \<Longrightarrow> snd (pop_chain qi c) =
     c\<lparr>vc_queues := (vc_queues c)[qi := (vc_queues c ! qi)\<lparr>vq_last_avail := last_avail qi c + 1\<rparr>]\<rparr>"
  by (auto simp: pop_chain_def last_avail_def avail_idx_def Let_def split: if_splits)

lemma read_guest_queues [simp]: "read_guest a n (c\<lparr>vc_queues := q\<rparr>) = read_guest a n c"
  by (simp add: read_guest_def)

lemma pop_chain_ring:
  assumes "fst (pop_chain qi c) = Some hs" "queue_ready qi c"
  defines "c' \<equiv> snd (pop_chain qi c)"
  shows "avail_idx qi c' = avail_idx qi c" "used_idx qi c' = used_idx qi c" "last_avail qi c' = last_avail qi c + 1"
    "ring_ready qi c' = ring_ready qi c" "rings_apart qi c' = rings_apart qi c"
    "vq_avail (vc_queues c' ! qi) = vq_avail (vc_queues c ! qi)" "vq_used (vc_queues c' ! qi) = vq_used (vc_queues c ! qi)"
  using assms(2) unfolding c'_def pop_chain_effect(3) [OF assms(1)]
  by (auto simp: avail_idx_def used_idx_def last_avail_def ring_ready_def rings_apart_def queue_ready_def guest_ok_def Let_def)

lemma ucast_index: "ucast (take_bit 16 (ucast (x :: u16) :: u64)) = x"
  by (rule bit_word_eqI) (auto simp: bit_simps)

text \<open>The entry an index selects lies in the ring behind the index.\<close>

lemma slot_apart:
  assumes k: "unat k < 0x10000" "unat k < n" and i: "unat i \<le> 4"
  shows "apart (u + 2) 2 (u + 4 + k * 8 + i) 4"
    "apart x 2 (u + 2) (2 + 8 * n) \<Longrightarrow> apart x 2 (u + 4 + k * 8 + i) 4"
proof -
  define w where "w = 2 + k * 8 + i"
  have w: "unat w = 2 + 8 * unat k + unat i"
    using k i by (simp add: w_def unat_word_ariths)
  have "u + 4 + k * 8 + i - (u + 2) = w" "u + 2 - (u + 4 + k * 8 + i) = 0 - w"
    by (simp_all add: w_def)
  then show "apart (u + 2) 2 (u + 4 + k * 8 + i) 4"
    using w k i unat_sub_if' [of 0 w] by (simp add: apart_def)
  define e where "e = x - (u + 2)"
  have eqs: "x - (u + 4 + k * 8 + i) = e - w" "u + 4 + k * 8 + i - x = w - e" "u + 2 - x = 0 - e"
    by (simp_all add: w_def e_def)
  show "apart x 2 (u + 4 + k * 8 + i) 4" if "apart x 2 (u + 2) (2 + 8 * n)"
  proof -
    have e: "2 + 8 * n \<le> unat e" "2 \<le> unat (0 - e)"
      using that unfolding apart_def eqs(3) e_def [symmetric] by blast+
    have "unat w < unat e" "4 + unat w \<le> unat e"
      using e(1) w k i by auto
    moreover have "unat e + 2 \<le> 2 ^ 64"
      using e(2) unat_sub_if' [of 0 e] by (auto split: if_splits)
    ultimately show ?thesis
      unfolding apart_def eqs by (simp add: unat_sub_if') linarith
  qed
qed

lemma apart_mono: "apart x m a n \<Longrightarrow> n' \<le> n \<Longrightarrow> apart x m a n'"
  by (simp add: apart_def)

lemma push_used_ring:
  fixes head written
  assumes r: "ring_ready qi c"
  defines "c' \<equiv> push_used qi head written c"
  shows "used_idx qi c' = used_idx qi c + 1" "vc_queues c' = vc_queues c" "ring_ready qi c'"
    "rings_apart qi c \<Longrightarrow> avail_idx qi c' = avail_idx qi c"
proof -
  define q where "q = vc_queues c ! qi"
  define k :: u64 where "k = ucast (used_idx qi c) mod ucast (vq_num q)"
  have rdy: "queue_ready qi c" "dram_inv (vc_ram c)" "guest_ok (vq_used q + 2) 2 c" "0 < unat (vq_num q)"
    using r by (auto simp: ring_ready_def queue_ready_def q_def word_neq_0_conv word_less_nat_alt)
  have k: "unat k < 0x10000" "unat k < unat (vq_num q)"
  proof -
    have "unat k = unat (used_idx qi c) mod unat (vq_num q)"
      by (simp add: k_def unat_mod_distrib unat_ucast_widen)
    moreover have "unat (used_idx qi c) < 0x10000"
      using unsigned_less [of "used_idx qi c", where ?'a = nat] by simp
    ultimately show "unat k < 0x10000" "unat k < unat (vq_num q)"
      using rdy(4) by (simp_all add: mod_less_eq_dividend [THEN le_less_trans])
  qed
  define c1 where "c1 = write_guest (vq_used q + 4 + k * 8) 4 (ucast head) c"
  define c2 where "c2 = write_guest (vq_used q + 4 + k * 8 + 4) 4 (ucast written) c1"
  have c': "c' = write_guest (vq_used q + 2) 2 (ucast (used_idx qi c + 1)) c2"
    using rdy by (simp add: c'_def push_used_def used_idx_def c1_def c2_def k_def q_def Let_def)
  have inv: "dram_inv (vc_ram c1)" "dram_inv (vc_ram c2)" and ok: "guest_ok (vq_used q + 2) 2 c2"
    using rdy by (simp_all add: c1_def c2_def)
  show qs: "vc_queues c' = vc_queues c"
    by (simp add: c' c1_def c2_def)
  show "ring_ready qi c'"
    using r rdy inv qs by (simp add: ring_ready_def queue_ready_def c' c1_def c2_def)
  show "used_idx qi c' = used_idx qi c + 1"
    using read_write_same [OF inv(2) ok, of "ucast (used_idx qi c + 1)"] qs
    by (simp add: used_idx_def [of qi c'] q_def [symmetric]) (simp add: c' ucast_index)
  show "avail_idx qi c' = avail_idx qi c" if "rings_apart qi c"
  proof -
    have ap: "apart (vq_avail q + 2) 2 (vq_used q + 2) (2 + 8 * unat (vq_num q))"
      using that by (simp add: rings_apart_def q_def Let_def)
    have "read_guest (vq_avail q + 2) 2 c' = read_guest (vq_avail q + 2) 2 c2"
      unfolding c' using inv(2) apart_mono [OF ap] by (intro read_write_apart) simp_all
    also have "\<dots> = read_guest (vq_avail q + 2) 2 c1"
      unfolding c2_def using slot_apart(2) [OF k _ ap, of 4] by (intro read_write_apart [OF inv(1)]) simp_all
    also have "\<dots> = read_guest (vq_avail q + 2) 2 c"
      unfolding c1_def using rdy(2) slot_apart(2) [OF k _ ap, of 0] by (intro read_write_apart) simp_all
    finally show ?thesis
      by (simp add: avail_idx_def qs q_def)
  qed
qed

section \<open>Serving a queue\<close>

text \<open>A service of one chain that touches the rings only by publishing the result.\<close>

locale ring_service =
  fixes qi :: nat
    and serve :: "u16 \<Rightarrow> segment list \<Rightarrow> 'd \<times> vcore \<Rightarrow> 'd \<times> vcore"
  assumes publishes: "\<exists>written. snd (serve head segs dc) = push_used qi head written (snd dc)"
begin

lemma serve_ring:
  assumes "fst (pop_chain qi (snd dc)) = Some hs" "ring_ready qi (snd dc)"
  defines "dc' \<equiv> serve (fst hs) (snd hs) (fst dc, snd (pop_chain qi (snd dc)))"
  shows "ring_ready qi (snd dc')" "last_avail qi (snd dc') = last_avail qi (snd dc) + 1"
    "used_idx qi (snd dc') = used_idx qi (snd dc) + 1"
    "vq_avail (vc_queues (snd dc') ! qi) = vq_avail (vc_queues (snd dc) ! qi)"
    "vq_used (vc_queues (snd dc') ! qi) = vq_used (vc_queues (snd dc) ! qi)"
    "rings_apart qi (snd dc) \<Longrightarrow> rings_apart qi (snd dc') \<and> avail_idx qi (snd dc') = avail_idx qi (snd dc)"
proof -
  obtain w where w: "snd dc' = push_used qi (fst hs) w (snd (pop_chain qi (snd dc)))"
    using publishes [of "fst hs" "snd hs" "(fst dc, snd (pop_chain qi (snd dc)))"] by (auto simp: dc'_def)
  have q: "queue_ready qi (snd dc)"
    using assms(2) by (simp add: ring_ready_def)
  note pop = pop_chain_ring [OF assms(1) q]
  have r: "ring_ready qi (snd (pop_chain qi (snd dc)))"
    using pop assms(2) by simp
  note push = push_used_ring [OF r, of "fst hs" w, folded w]
  show "ring_ready qi (snd dc')" "last_avail qi (snd dc') = last_avail qi (snd dc) + 1"
    "used_idx qi (snd dc') = used_idx qi (snd dc) + 1"
    "vq_avail (vc_queues (snd dc') ! qi) = vq_avail (vc_queues (snd dc) ! qi)"
    "vq_used (vc_queues (snd dc') ! qi) = vq_used (vc_queues (snd dc) ! qi)"
    using pop push by (simp_all add: last_avail_def)
  show "rings_apart qi (snd dc') \<and> avail_idx qi (snd dc') = avail_idx qi (snd dc)" if "rings_apart qi (snd dc)"
    using pop push that by (simp add: rings_apart_def)
qed

text \<open>All chains the driver has published are served, and no other.\<close>

lemma drain_serves_all:
  assumes "ring_ready qi (snd dc)" "rings_apart qi (snd dc)"
  shows "\<exists>any dc'. drain qi serve b dc = Some (any, dc') \<and> ring_ready qi (snd dc') \<and>
    last_avail qi (snd dc') = avail_idx qi (snd dc) \<and>
    used_idx qi (snd dc') = used_idx qi (snd dc) + (avail_idx qi (snd dc) - last_avail qi (snd dc))"
  using assms
proof (induction "unat (avail_idx qi (snd dc) - last_avail qi (snd dc))" arbitrary: b dc rule: less_induct)
  case less
  have q: "queue_ready qi (snd dc)"
    using less.prems by (simp add: ring_ready_def)
  show ?case
  proof (cases "fst (pop_chain qi (snd dc))")
    case None
    then have "snd (pop_chain qi (snd dc)) = snd dc" "last_avail qi (snd dc) = avail_idx qi (snd dc)"
      using pop_chain_effect q by auto
    then show ?thesis
      using None less.prems by (subst drain.simps) simp
  next
    case (Some hs)
    let ?dc' = "serve (fst hs) (snd hs) (fst dc, snd (pop_chain qi (snd dc)))"
    note step = serve_ring [OF Some less.prems(1)] serve_ring(6) [OF Some less.prems]
    have ne: "avail_idx qi (snd dc) - last_avail qi (snd dc) \<noteq> 0"
      using pop_chain_effect(2) [OF q] Some by auto
    then have pos: "0 < unat (avail_idx qi (snd dc) - last_avail qi (snd dc))"
      by (metis unat_eq_zero neq0_conv)
    have "unat (avail_idx qi (snd ?dc') - last_avail qi (snd ?dc')) < unat (avail_idx qi (snd dc) - last_avail qi (snd dc))"
      using unat_minus_one [OF ne] pos step by (simp add: diff_diff_eq [symmetric])
    from less.hyps [OF this, of True] show ?thesis
      using step Some by (subst drain.simps) (auto simp: algebra_simps)
  qed
qed

text \<open>With one ring for both indices there is always one more chain.\<close>

lemma drain_diverges:
  assumes "ring_ready qi (snd dc)" "vq_used (vc_queues (snd dc) ! qi) = vq_avail (vc_queues (snd dc) ! qi)"
    "avail_idx qi (snd dc) \<noteq> last_avail qi (snd dc)"
  shows "drain qi serve b dc = None"
proof (rule ccontr)
  let ?Q = "\<lambda>dc. ring_ready qi (snd dc) \<and> vq_used (vc_queues (snd dc) ! qi) = vq_avail (vc_queues (snd dc) ! qi) \<and>
    avail_idx qi (snd dc) \<noteq> last_avail qi (snd dc)"
  assume "drain qi serve b dc \<noteq> None"
  then obtain r where r: "drain qi serve b dc = Some r"
    by auto
  have same: "avail_idx qi c = used_idx qi c" if "vq_used (vc_queues c ! qi) = vq_avail (vc_queues c ! qi)" for c
    using that by (simp add: avail_idx_def used_idx_def)
  show False
  proof (rule drain_induct [OF r, where Q = ?Q and R = "\<lambda>_. False"])
    show "?Q (serve (fst hs) (snd hs) (fst dc, snd (pop_chain qi (snd dc))))"
      if "?Q dc" "fst (pop_chain qi (snd dc)) = Some hs" for dc hs
    proof -
      have "used_idx qi (snd dc) \<noteq> last_avail qi (snd dc)"
        using that(1) same [of "snd dc"] by metis
      then show ?thesis
        using serve_ring(1-5) [OF that(2)] that(1) by (simp add: same)
    qed
    show False if "?Q dc" "fst (pop_chain qi (snd dc)) = None" for any dc
      using that pop_chain_effect(2) by (auto simp: ring_ready_def)
  qed (use assms in simp)
qed

end

interpretation tx: ring_service TX_QUEUE net_transmit_one
  by unfold_locales (auto simp: net_transmit_one_def Let_def split_beta)

section \<open>Transmission\<close>

text \<open>The driver's view of one queue: nothing it has published is left over.\<close>

lemma signal_used_ring [simp]: "read_guest a n (signal_used qi c) = read_guest a n c" "vc_queues (signal_used qi c) = vc_queues c"
  by (simp_all add: signal_used_def core_raise_interrupt_def read_guest_def Let_def)


text \<open>C21: A driver that places both rings of the transmit queue at the same address hangs the machine: every completion
  publishes one more chain, and the store to the doorbell register never returns.\<close>

theorem doorbell_hangs:
  assumes "ring_ready TX_QUEUE c" "vq_used (vc_queues c ! TX_QUEUE) = vq_avail (vc_queues c ! TX_QUEUE)"
    "avail_idx TX_QUEUE c \<noteq> last_avail TX_QUEUE c" "length (vc_queues c) = 2"
  shows "virtio_store QUEUE_NOTIFY 4 1 (VNet n, c) = None"
  using tx.drain_diverges [of "(n, c)" False] assms
  by (simp add: virtio_store_def vdev_notify_def net_notify_def net_transmit_def)

text \<open>A card whose driver has published one chain; the rings lie apart, or are the same.\<close>

definition sample_nic :: "u64 \<Rightarrow> vcore" where
  "sample_nic used =
     (core_new 0x10002000 (dram_from_vec ([0, 0, 1] @ replicate 61 0)) (plic_new 1) 1 2)
       \<lparr>vc_queues := [queue_default,
          queue_default\<lparr>vq_num := 1, vq_ready := True, vq_desc := DRAM_BASE + 32, vq_avail := DRAM_BASE, vq_used := used\<rparr>]\<rparr>"

lemma sample_nic_inv: "dram_inv (vc_ram (sample_nic u))"
  by (simp add: sample_nic_def core_new_def dram_inv_from_vec)

lemma sample_nic_ready:
  "ring_ready TX_QUEUE (sample_nic (DRAM_BASE + 16))" "ring_ready TX_QUEUE (sample_nic DRAM_BASE)"
  "rings_apart TX_QUEUE (sample_nic (DRAM_BASE + 16))"
  "avail_idx TX_QUEUE (sample_nic u) = 1" "last_avail TX_QUEUE (sample_nic u) = 0" "used_idx TX_QUEUE (sample_nic (DRAM_BASE + 16)) = 0"
  unfolding ring_ready_def
  by (simp_all add: sample_nic_inv)
    (simp_all add: rings_apart_def apart_def sample_nic_def core_new_def queue_ready_def
      guest_ok_def in_range_def avail_idx_def used_idx_def last_avail_def read_guest_def dram_read_bytes_def queue_default_def
      dram_from_vec_def read_le_def upt_rec)


lemma doorbell_hangs_witness:
  "virtio_store QUEUE_NOTIFY 4 1 (VNet (net_new (loopback []) (replicate 6 0)), sample_nic DRAM_BASE) = None"
  by (rule doorbell_hangs [OF sample_nic_ready(2)], unfold sample_nic_ready) (simp_all add: sample_nic_def)

end
