(* ===== verification/Virtio_Disk.thy ===== *)
theory Virtio_Disk
  imports Virtio_Ring
begin

text \<open>
  What the disk promises: it is a flat array of bytes, whatever holds it. A snapshot keeps the sectors
  written since it was opened beside the image file, and never writes the file.
\<close>

section \<open>The disk as an array\<close>

definition disk_byte :: "disk \<Rightarrow> nat \<Rightarrow> u8" where
  "disk_byte d i =
     (case d of
        DMemory v \<Rightarrow> v ! i
      | DFile f sz snapshot ov \<Rightarrow> (case ov (i div SECTOR_SIZE) of Some s \<Rightarrow> s ! (i mod SECTOR_SIZE) | None \<Rightarrow> hf_bytes f ! i))"

definition disk_inv :: "disk \<Rightarrow> bool" where
  "disk_inv d \<longleftrightarrow>
     (case d of
        DMemory v \<Rightarrow> True
      | DFile f sz snapshot ov \<Rightarrow>
          sz = length (hf_bytes f) \<and> (\<forall>s sec. ov s = Some sec \<longrightarrow> snapshot \<and> length sec = SECTOR_SIZE))"

definition disk_image :: "disk \<Rightarrow> u8 list" where
  "disk_image d = map (disk_byte d) [0..<disk_size d]"

lemma disk_image_memory [simp]: "disk_image (DMemory v) = v"
  by (rule nth_equalityI) (simp_all add: disk_image_def disk_byte_def disk_size_def)

lemma hf_take_frame [simp]: "hf_bytes (snd (hf_take f)) = hf_bytes f"
  by (simp add: hf_take_def split: list.split)

lemma hf_read_eq:
  "hf_bytes (snd (hf_read offset n f)) = hf_bytes f"
  "fst (hf_read offset n f) = Some b \<Longrightarrow> offset + n \<le> length (hf_bytes f) \<Longrightarrow> b = take n (drop offset (hf_bytes f))"
  by (auto simp: hf_read_def Let_def split_beta split: option.splits if_splits)

lemma splice_nth:
  "i < length xs \<Longrightarrow> p + length src \<le> length xs \<Longrightarrow>
     splice p z src xs ! i = (if p \<le> i \<and> i < p + length src then src ! (i - p) else xs ! i)"
  "p + length src \<le> length xs \<Longrightarrow> length (splice p z src xs) = length xs"
  by (auto simp: splice_def nth_append)

lemma splice_Nil [simp]: "p \<le> length xs \<Longrightarrow> splice p z [] xs = xs"
  by (simp add: splice_def)

section \<open>Reading\<close>

lemma sector_of: "x div SECTOR_SIZE = s \<longleftrightarrow> s * SECTOR_SIZE \<le> x \<and> x < s * SECTOR_SIZE + SECTOR_SIZE"
  by auto

lemma sector_offset: "x div SECTOR_SIZE = s \<Longrightarrow> x mod SECTOR_SIZE = x - s * SECTOR_SIZE"
  by (auto simp: modulo_nat_def)

lemma patch_sector_nth:
  assumes n: "length dst = n" and s: "offset div SECTOR_SIZE \<le> s" "s \<le> (offset + n - 1) div SECTOR_SIZE" and "0 < n"
    and sec: "\<And>s sec. ov s = Some sec \<Longrightarrow> length sec = SECTOR_SIZE"
  shows "length (patch_sector offset ov s dst) = n"
    "i < n \<Longrightarrow> patch_sector offset ov s dst ! i =
       (if (offset + i) div SECTOR_SIZE = s \<and> ov s \<noteq> None then the (ov s) ! ((offset + i) mod SECTOR_SIZE) else dst ! i)"
proof -
  have lim: "offset < s * SECTOR_SIZE + SECTOR_SIZE" "s * SECTOR_SIZE < offset + n"
    using s \<open>0 < n\<close> by auto
  show "length (patch_sector offset ov s dst) = n"
    using lim n sec by (auto simp: patch_sector_def Let_def split: option.split)
  show "patch_sector offset ov s dst ! i =
      (if (offset + i) div SECTOR_SIZE = s \<and> ov s \<noteq> None then the (ov s) ! ((offset + i) mod SECTOR_SIZE) else dst ! i)" if i: "i < n"
  proof (cases "ov s")
    case (Some b)
    let ?st = "s * SECTOR_SIZE"
    define fr til where "fr = max ?st offset" and "til = min (?st + SECTOR_SIZE) (offset + n)"
    have l: "length b = SECTOR_SIZE"
      using Some sec by simp
    have p: "patch_sector offset ov s dst = take (fr - offset) dst @ take (til - fr) (drop (fr - ?st) b) @ drop (til - offset) dst"
      using n by (simp add: patch_sector_def Some Let_def fr_def til_def)
    have b: "offset \<le> fr" "?st \<le> fr" "fr < til" "til \<le> offset + n" "til \<le> ?st + SECTOR_SIZE"
      using lim \<open>0 < n\<close> by (auto simp: fr_def til_def)
    consider "offset + i < fr" | "fr \<le> offset + i" "offset + i < til" | "til \<le> offset + i"
      by linarith
    then show ?thesis
    proof cases
      case 1
      then have "(offset + i) div SECTOR_SIZE \<noteq> s"
        unfolding sector_of by (auto simp: fr_def)
      then show ?thesis
        using 1 b n i by (simp add: p nth_append)
    next
      case 2
      then have "(offset + i) div SECTOR_SIZE = s"
        unfolding sector_of using b by auto
      then show ?thesis
        using 2 b n i l sector_offset [of "offset + i" s] by (auto simp: p nth_append Some add.commute)
    next
      case 3
      then have "(offset + i) div SECTOR_SIZE \<noteq> s"
        unfolding sector_of using i by (auto simp: til_def)
      then show ?thesis
        using 3 b n i l by (auto simp: p nth_append)
    qed
  qed (simp add: patch_sector_def)
qed

lemma patch_sectors_nth:
  assumes "length dst = n" "0 < n" "\<And>s sec. ov s = Some sec \<Longrightarrow> length sec = SECTOR_SIZE"
    and "\<And>s. s \<in> set ss \<Longrightarrow> offset div SECTOR_SIZE \<le> s \<and> s \<le> (offset + n - 1) div SECTOR_SIZE"
  shows "length (fold (patch_sector offset ov) ss dst) = n \<and>
    (\<forall>i<n. fold (patch_sector offset ov) ss dst ! i =
      (if (offset + i) div SECTOR_SIZE \<in> set ss \<and> ov ((offset + i) div SECTOR_SIZE) \<noteq> None
       then the (ov ((offset + i) div SECTOR_SIZE)) ! ((offset + i) mod SECTOR_SIZE) else dst ! i))"
  using assms
proof (induction ss arbitrary: dst)
  case (Cons s ss)
  have "length (patch_sector offset ov s dst) = n"
    "\<And>i. i < n \<Longrightarrow> patch_sector offset ov s dst ! i =
       (if (offset + i) div SECTOR_SIZE = s \<and> ov s \<noteq> None then the (ov s) ! ((offset + i) mod SECTOR_SIZE) else dst ! i)"
    using patch_sector_nth [OF Cons.prems(1) _ _ Cons.prems(2,3), of offset s] Cons.prems(4) [of s] by auto
  then show ?case
    using Cons.IH [of "patch_sector offset ov s dst"] Cons.prems by auto
qed simp

lemma disk_read_image:
  assumes inv: "disk_inv d" and lim: "offset + n \<le> disk_size d" and b: "fst (disk_read offset n d) = Some b"
  shows "b = take n (drop offset (disk_image d))"
proof (cases d)
  case (DMemory v)
  then show ?thesis
    using assms by (auto simp: disk_read_def disk_size_def split: if_splits)
next
  case (DFile f sz snapshot ov)
  obtain dst where dst: "fst (hf_read offset n f) = Some dst"
    and b': "b = (if snapshot \<and> ov \<noteq> Map.empty \<and> dst \<noteq> []
      then fold (patch_sector offset ov) [offset div SECTOR_SIZE..<Suc ((offset + n - 1) div SECTOR_SIZE)] dst else dst)"
    using b by (auto simp: disk_read_def DFile Let_def split_beta split: option.splits if_splits)
  have ov: "\<And>s sec. ov s = Some sec \<Longrightarrow> snapshot \<and> length sec = SECTOR_SIZE" and sz: "sz = length (hf_bytes f)"
    using inv by (simp_all add: disk_inv_def DFile)
  have dst': "dst = take n (drop offset (hf_bytes f))"
    using hf_read_eq(2) [OF dst] lim sz by (simp add: disk_size_def DFile)
  have len: "length dst = n"
    using lim sz by (simp add: dst' disk_size_def DFile)
  have bs: "length b = n \<and> (\<forall>i<n. b ! i = disk_byte d (offset + i))"
  proof (cases "snapshot \<and> ov \<noteq> Map.empty \<and> dst \<noteq> []")
    case True
    then have "0 < n"
      using len by auto
    have mem: "(offset + i) div SECTOR_SIZE \<in> set [offset div SECTOR_SIZE..<Suc ((offset + n - 1) div SECTOR_SIZE)]"
      if "i < n" for i
      using that by (auto intro: div_le_mono)
    have "length b = n \<and> (\<forall>i<n. b ! i =
        (if (offset + i) div SECTOR_SIZE \<in> set [offset div SECTOR_SIZE..<Suc ((offset + n - 1) div SECTOR_SIZE)] \<and>
            ov ((offset + i) div SECTOR_SIZE) \<noteq> None
         then the (ov ((offset + i) div SECTOR_SIZE)) ! ((offset + i) mod SECTOR_SIZE) else dst ! i))"
      unfolding b' if_P [OF True] by (rule patch_sectors_nth [OF len \<open>0 < n\<close>]) (use ov in auto)
    then show ?thesis
      using mem lim sz by (auto simp: disk_byte_def DFile dst' disk_size_def split: option.split)
  next
    case False
    moreover have "ov x = None" if "\<not> snapshot" for x
      using ov that by (cases "ov x") auto
    ultimately have "ov = Map.empty \<or> n = 0"
      using len by (auto simp: fun_eq_iff)
    then show ?thesis
      using False b' len lim sz by (auto simp: disk_byte_def DFile dst' disk_size_def)
  qed
  then show ?thesis
    using lim by (intro nth_equalityI) (auto simp: disk_image_def)
qed

lemma disk_read_frame:
  "disk_size (snd (disk_read offset n d)) = disk_size d" "disk_byte (snd (disk_read offset n d)) = disk_byte d"
  "disk_inv (snd (disk_read offset n d)) = disk_inv d" "disk_image (snd (disk_read offset n d)) = disk_image d"
proof -
  show size: "disk_size (snd (disk_read offset n d)) = disk_size d"
    by (cases d) (simp_all add: disk_read_def disk_size_def Let_def split_beta)
  show byte: "disk_byte (snd (disk_read offset n d)) = disk_byte d"
    by (rule ext, cases d) (simp_all add: disk_read_def disk_byte_def Let_def split_beta hf_read_eq(1) split: option.split)
  show "disk_inv (snd (disk_read offset n d)) = disk_inv d"
    by (cases d) (simp_all add: disk_read_def disk_inv_def Let_def split_beta hf_read_eq(1))
  show "disk_image (snd (disk_read offset n d)) = disk_image d"
    by (simp add: disk_image_def size byte)
qed

section \<open>Writing\<close>

text \<open>A snapshot of an image file with the given contents.\<close>

definition snapshot_of :: "u8 list \<Rightarrow> disk \<Rightarrow> bool" where
  "snapshot_of bs d \<longleftrightarrow>
     (case d of DMemory v \<Rightarrow> False | DFile f sz snapshot ov \<Rightarrow> snapshot \<and> hf_bytes f = bs)"

lemma snapshot_of_read: "snapshot_of bs d \<Longrightarrow> snapshot_of bs (snd (disk_read offset n d))"
  by (cases d) (simp_all add: snapshot_of_def disk_read_def Let_def split_beta hf_read_eq(1))

definition patched :: "disk \<Rightarrow> nat \<Rightarrow> u8 list \<Rightarrow> disk \<Rightarrow> bool" where
  "patched d p src d' \<longleftrightarrow>
     (\<forall>i<disk_size d. disk_byte d' i = (if p \<le> i \<and> i < p + length src then src ! (i - p) else disk_byte d i))"

lemma new_sector:
  assumes inv: "disk_inv d" and d: "d = DFile f sz True ov"
    and src: "within + length src \<le> SECTOR_SIZE" "s * SECTOR_SIZE + within + length src \<le> sz"
    and sec: "length sec = SECTOR_SIZE"
      "\<And>j. j < SECTOR_SIZE \<Longrightarrow> s * SECTOR_SIZE + j < sz \<Longrightarrow>
        sec ! j = (if within \<le> j \<and> j < within + length src then src ! (j - within) else disk_byte d (s * SECTOR_SIZE + j))"
    and f': "hf_bytes f' = hf_bytes f"
  shows "disk_inv (DFile f' sz True (ov(s \<mapsto> sec)))" "patched d (s * SECTOR_SIZE + within) src (DFile f' sz True (ov(s \<mapsto> sec)))"
proof -
  show "disk_inv (DFile f' sz True (ov(s \<mapsto> sec)))"
    using inv sec f' by (simp add: disk_inv_def d)
  show "patched d (s * SECTOR_SIZE + within) src (DFile f' sz True (ov(s \<mapsto> sec)))"
    unfolding patched_def
  proof (intro allI impI)
    fix i assume i: "i < disk_size d"
    show "disk_byte (DFile f' sz True (ov(s \<mapsto> sec))) i = (if s * SECTOR_SIZE + within \<le> i \<and> i < s * SECTOR_SIZE + within + length src
       then src ! (i - (s * SECTOR_SIZE + within)) else disk_byte d i)"
    proof (cases "i div SECTOR_SIZE = s")
      case True
      then obtain j where j: "i = s * SECTOR_SIZE + j" "j < SECTOR_SIZE"
        by (intro that [of "i mod SECTOR_SIZE"]) auto
      have "disk_byte (DFile f' sz True (ov(s \<mapsto> sec))) i = sec ! j"
        using j by (simp add: disk_byte_def)
      then show ?thesis
        using sec(2) [of j] i j by (auto simp: disk_size_def d)
    next
      case False
      then show ?thesis
        using src f' unfolding sector_of by (auto simp: disk_byte_def d sector_of split: option.split)
    qed
  qed
qed

lemma patched_Nil: "disk_byte d' = disk_byte d \<Longrightarrow> patched d p [] d'"
  by (auto simp: patched_def)

lemma disk_read_shape:
  "\<exists>f'. snd (disk_read offset n (DFile f sz sn ov)) = DFile f' sz sn ov \<and> hf_bytes f' = hf_bytes f"
  by (auto simp: disk_read_def Let_def split_beta hf_read_eq(1))

text \<open>What a write to a snapshot keeps, whether it succeeds or not.\<close>

definition cow_kept :: "disk \<Rightarrow> disk \<Rightarrow> bool" where
  "cow_kept d d' \<longleftrightarrow> disk_inv d' \<and> disk_size d' = disk_size d \<and> (\<forall>bs. snapshot_of bs d \<longrightarrow> snapshot_of bs d')"

lemma cow_kept_read: "disk_inv d \<Longrightarrow> cow_kept d (snd (disk_read offset n d))"
  by (simp add: cow_kept_def disk_read_frame snapshot_of_read)

lemma cow_sector_patches:
  assumes inv: "disk_inv d" and bs: "snapshot_of bs d"
    and src: "within + length src \<le> SECTOR_SIZE" "s * SECTOR_SIZE + within + length src \<le> disk_size d"
  shows "cow_kept d (snd (cow_sector s within src d))"
    "patched d (s * SECTOR_SIZE + within) (if fst (cow_sector s within src d) then src else []) (snd (cow_sector s within src d))"
proof -
  obtain f sz ov where d: "d = DFile f sz True ov" and f: "hf_bytes f = bs"
    using bs by (auto simp: snapshot_of_def split: disk.splits)
  have sz: "sz = length bs" and ov: "\<And>s sec. ov s = Some sec \<Longrightarrow> length sec = SECTOR_SIZE"
    using inv f by (auto simp: disk_inv_def d)
  have lim: "s * SECTOR_SIZE + within + length src \<le> sz"
    using src by (simp add: disk_size_def d)
  have "cow_kept d (snd (cow_sector s within src d)) \<and>
    patched d (s * SECTOR_SIZE + within) (if fst (cow_sector s within src d) then src else []) (snd (cow_sector s within src d))"
  proof (cases "ov s")
    case (Some sec)
    then have c: "cow_sector s within src d = (True, DFile f sz True (ov(s \<mapsto> splice within 0 src sec)))"
      by (simp add: cow_sector_def d)
    have "length sec = SECTOR_SIZE"
      using ov Some by simp
    moreover have "disk_byte d (s * SECTOR_SIZE + j) = sec ! j" if "j < SECTOR_SIZE" for j
      using that Some by (simp add: disk_byte_def d)
    ultimately have "disk_inv (DFile f sz True (ov(s \<mapsto> splice within 0 src sec)))"
      "patched d (s * SECTOR_SIZE + within) src (DFile f sz True (ov(s \<mapsto> splice within 0 src sec)))"
      using src by (intro new_sector [OF inv d src(1) lim]; simp add: splice_nth)+
    then show ?thesis
      unfolding c using f by (simp add: cow_kept_def disk_size_def snapshot_of_def d)
  next
    case None
    define avail where "avail = min (sz - s * SECTOR_SIZE) SECTOR_SIZE"
    define rd where "rd = (if length src \<noteq> SECTOR_SIZE then disk_read (s * SECTOR_SIZE) avail d else (Some [], d))"
    obtain f' where f': "snd rd = DFile f' sz True ov" "hf_bytes f' = hf_bytes f"
      using disk_read_shape [of "s * SECTOR_SIZE" avail f sz True ov]
      by (cases "length src = SECTOR_SIZE") (auto simp: rd_def d)
    show ?thesis
    proof (cases "fst rd")
      case None
      then have "cow_sector s within src d = (False, snd rd)" "disk_byte (snd rd) = disk_byte d" "cow_kept d (snd rd)"
        using \<open>ov s = None\<close> cow_kept_read [OF inv] disk_read_frame(2)
        by (auto simp: cow_sector_def d rd_def avail_def Let_def split_beta split: if_splits)
      then show ?thesis
        by (simp add: patched_Nil)
    next
      case (Some seed)
      define sec where "sec = splice within 0 src (seed @ replicate (SECTOR_SIZE - length seed) 0)"
      have c: "cow_sector s within src d = (True, DFile f' sz True (ov(s \<mapsto> sec)))"
        using \<open>ov s = None\<close> Some f'
        by (auto simp: cow_sector_def d rd_def avail_def sec_def Let_def split_beta split: if_splits)
      have old: "length seed \<le> SECTOR_SIZE \<and> (\<forall>j<SECTOR_SIZE. s * SECTOR_SIZE + j < sz \<longrightarrow> length src \<noteq> SECTOR_SIZE \<longrightarrow>
          (seed @ replicate (SECTOR_SIZE - length seed) 0) ! j = disk_byte d (s * SECTOR_SIZE + j))"
      proof (cases "length src = SECTOR_SIZE")
        case False
        then have "seed = take avail (drop (s * SECTOR_SIZE) (disk_image d))"
          using Some lim by (intro disk_read_image [OF inv]) (auto simp: rd_def avail_def disk_size_def d)
        then show ?thesis
          by (auto simp: avail_def disk_image_def disk_size_def d nth_append)
      qed (use Some in \<open>simp add: rd_def\<close>)
      have "disk_inv (DFile f' sz True (ov(s \<mapsto> sec)))"
        "patched d (s * SECTOR_SIZE + within) src (DFile f' sz True (ov(s \<mapsto> sec)))"
        using src old f'(2) by (intro new_sector [OF inv d src(1) lim]; auto simp: splice_nth sec_def)+
      then show ?thesis
        unfolding c using f f'(2) by (simp add: cow_kept_def disk_size_def snapshot_of_def d)
    qed
  qed
  then show "cow_kept d (snd (cow_sector s within src d))"
    "patched d (s * SECTOR_SIZE + within) (if fst (cow_sector s within src d) then src else []) (snd (cow_sector s within src d))"
    by blast+
qed

lemma patched_append:
  "patched d p xs d' \<Longrightarrow> disk_size d' = disk_size d \<Longrightarrow> patched d' (p + length xs) ys d'' \<Longrightarrow> patched d p (xs @ ys) d''"
  by (auto simp: patched_def nth_append)

lemma cow_kept_trans: "cow_kept d d' \<Longrightarrow> cow_kept d' d'' \<Longrightarrow> cow_kept d d''"
  by (simp add: cow_kept_def)

text \<open>A failed write leaves a prefix of the bytes behind.\<close>

lemma cow_write_patches:
  assumes "disk_inv d" "snapshot_of bs d" "offset + length src \<le> disk_size d"
  shows "cow_kept d (snd (cow_write offset src d)) \<and>
    (\<exists>k\<le>length src. patched d offset (take k src) (snd (cow_write offset src d)) \<and>
       (fst (cow_write offset src d) \<longrightarrow> k = length src))"
  using assms
proof (induction "length src" arbitrary: offset src d rule: less_induct)
  case less
  show ?case
  proof (cases "src = []")
    case True
    then show ?thesis
      using less.prems by (simp add: cow_write.simps cow_kept_def patched_Nil)
  next
    case False
    define within n where "within = offset mod SECTOR_SIZE" and "n = min (SECTOR_SIZE - within) (length src)"
    define cs where "cs = cow_sector (offset div SECTOR_SIZE) within (take n src) d"
    have w: "offset div SECTOR_SIZE * SECTOR_SIZE + within = offset" "within < SECTOR_SIZE"
      by (simp_all add: within_def)
    have n: "0 < n" "n \<le> length src" "within + n \<le> SECTOR_SIZE"
      using False w(2) by (auto simp: n_def)
    have eq: "cow_write offset src d = (if fst cs then cow_write (offset + n) (drop n src) (snd cs) else (False, snd cs))"
      using False by (subst cow_write.simps) (simp add: within_def [symmetric] n_def [symmetric] cs_def [symmetric] Let_def split_beta)
    have kept: "cow_kept d (snd cs)" and pat: "patched d offset (if fst cs then take n src else []) (snd cs)"
      using cow_sector_patches [OF less.prems(1,2), of within "take n src" "offset div SECTOR_SIZE"] n w less.prems(3)
      by (simp_all add: cs_def min_absorb2)
    show ?thesis
    proof (cases "fst cs")
      case True
      have "cow_kept (snd cs) (snd (cow_write offset src d)) \<and>
        (\<exists>k\<le>length (drop n src). patched (snd cs) (offset + n) (take k (drop n src)) (snd (cow_write offset src d)) \<and>
          (fst (cow_write offset src d) \<longrightarrow> k = length (drop n src)))"
        unfolding eq if_P [OF True] using kept less.prems n by (intro less.hyps) (auto simp: cow_kept_def)
      then obtain k where k: "cow_kept (snd cs) (snd (cow_write offset src d))" "k \<le> length src - n"
        "patched (snd cs) (offset + n) (take k (drop n src)) (snd (cow_write offset src d))"
        "fst (cow_write offset src d) \<longrightarrow> k = length src - n"
        by auto
      have "patched d offset (take n src @ take k (drop n src)) (snd (cow_write offset src d))"
        using pat k(3) kept n True by (intro patched_append) (auto simp: cow_kept_def min_absorb2)
      then show ?thesis
        using cow_kept_trans [OF kept k(1)] k n by (intro conjI exI [of _ "n + k"]) (auto simp: take_add)
    next
      case False
      then show ?thesis
        using kept pat by (auto simp: eq intro!: exI [of _ 0])
    qed
  qed
qed

lemma hf_write_eq:
  assumes "offset + length src \<le> length (hf_bytes f)"
  shows "\<exists>k\<le>length src. hf_bytes (snd (hf_write offset src f)) = splice offset 0 (take k src) (hf_bytes f) \<and>
    (fst (hf_write offset src f) \<longrightarrow> k = length src)"
  using assms
  by (auto simp: hf_write_def Let_def split_beta split: option.splits
      intro: exI [of _ "min (the (fst (hf_take f))) (length src)"] exI [of _ "length src"])

lemma disk_write_patches:
  assumes inv: "disk_inv d" and lim: "offset + length src \<le> disk_size d"
  shows "cow_kept d (snd (disk_write offset src d)) \<and>
    (\<exists>k\<le>length src. patched d offset (take k src) (snd (disk_write offset src d)) \<and>
       (fst (disk_write offset src d) \<longrightarrow> k = length src))"
proof (cases d)
  case (DMemory v)
  then show ?thesis
    using lim by (intro conjI exI [of _ "length src"])
      (auto simp: disk_write_def cow_kept_def disk_inv_def disk_size_def snapshot_of_def splice_nth patched_def disk_byte_def)
next
  case (DFile f sz snapshot ov)
  show ?thesis
  proof (cases snapshot)
    case True
    then have "snapshot_of (hf_bytes f) d"
      by (simp add: snapshot_of_def DFile)
    then show ?thesis
      using cow_write_patches [OF inv _ lim] True by (simp add: disk_write_def DFile)
  next
    case False
    have sz: "sz = length (hf_bytes f)" and ov: "\<And>s. ov s = None"
      using inv False by (auto simp: disk_inv_def DFile not_None_eq [symmetric])
    obtain k where k: "k \<le> length src" "hf_bytes (snd (hf_write offset src f)) = splice offset 0 (take k src) (hf_bytes f)"
      "fst (hf_write offset src f) \<longrightarrow> k = length src"
      using hf_write_eq [of offset src f] lim sz by (auto simp: disk_size_def DFile)
    have "cow_kept d (snd (disk_write offset src d))"
      using k lim False inv by (simp add: cow_kept_def disk_write_def disk_inv_def disk_size_def snapshot_of_def DFile split_beta splice_nth)
    moreover have "patched d offset (take k src) (snd (disk_write offset src d))"
      using k lim False by (auto simp: patched_def disk_write_def disk_byte_def disk_size_def DFile split_beta splice_nth ov sz)
    moreover have "fst (disk_write offset src d) = fst (hf_write offset src f)"
      using False by (simp add: disk_write_def DFile split_beta)
    ultimately show ?thesis
      using k by auto
  qed
qed

lemma disk_flush_keeps: "disk_inv d \<Longrightarrow> cow_kept d (snd (disk_flush d)) \<and> disk_byte (snd (disk_flush d)) = disk_byte d"
proof (cases d)
  case (DFile f sz snapshot ov)
  show "disk_inv d \<Longrightarrow> ?thesis"
    by (cases snapshot)
      (auto simp: disk_flush_def cow_kept_def disk_inv_def disk_size_def snapshot_of_def disk_byte_def DFile split_beta fun_eq_iff
        split: option.split)
qed (simp add: disk_flush_def cow_kept_def)

lemma patched_image:
  assumes "patched d p src d'" "disk_size d' = disk_size d" "p + length src \<le> disk_size d"
  shows "disk_image d' = splice p 0 src (disk_image d)"
  using assms by (intro nth_equalityI) (auto simp: patched_def disk_image_def splice_nth)

section \<open>Success\<close>

text \<open>The host reports no error.\<close>

definition host_ok :: "disk \<Rightarrow> bool" where
  "host_ok d = (case d of DMemory v \<Rightarrow> True | DFile f sz snapshot ov \<Rightarrow> hf_outcomes f = [])"

lemma disk_read_succeeds:
  assumes "disk_inv d" "host_ok d" "offset + n \<le> disk_size d"
  shows "fst (disk_read offset n d) \<noteq> None" "snd (disk_read offset n d) = d"
  using assms
  by (cases d; simp add: disk_read_def host_ok_def disk_inv_def disk_size_def hf_read_def hf_take_def Let_def)+

lemma cow_sector_succeeds:
  assumes "disk_inv d" "host_ok d" "snapshot_of bs d" "s * SECTOR_SIZE \<le> disk_size d"
  shows "fst (cow_sector s within src d)" "host_ok (snd (cow_sector s within src d))"
proof -
  obtain f sz ov where d: "d = DFile f sz True ov" "hf_outcomes f = []"
    using assms(2,3) by (auto simp: snapshot_of_def host_ok_def split: disk.splits)
  let ?rd = "disk_read (s * SECTOR_SIZE) (min (sz - s * SECTOR_SIZE) SECTOR_SIZE) d"
  have r: "fst ?rd \<noteq> None" "snd ?rd = d"
    using disk_read_succeeds [OF assms(1,2)] assms(4) by (auto simp: disk_size_def d)
  then obtain seed where "?rd = (Some seed, d)"
    by (metis option.exhaust prod.collapse)
  then show "fst (cow_sector s within src d)" "host_ok (snd (cow_sector s within src d))"
    using d(2) unfolding d(1) by (auto simp: cow_sector_def host_ok_def split: option.splits)
qed

lemma cow_write_succeeds:
  assumes "disk_inv d" "host_ok d" "snapshot_of bs d" "offset + length src \<le> disk_size d"
  shows "fst (cow_write offset src d)"
  using assms
proof (induction "length src" arbitrary: offset src d rule: less_induct)
  case less
  show ?case
  proof (cases "src = []")
    case False
    define within n where "within = offset mod SECTOR_SIZE" and "n = min (SECTOR_SIZE - within) (length src)"
    define cs where "cs = cow_sector (offset div SECTOR_SIZE) within (take n src) d"
    have w: "offset div SECTOR_SIZE * SECTOR_SIZE + within = offset" "within < SECTOR_SIZE"
      by (simp_all add: within_def)
    have n: "0 < n" "n \<le> length src" "within + n \<le> SECTOR_SIZE"
      using False w(2) by (auto simp: n_def)
    have ok: "fst cs" "host_ok (snd cs)"
      using cow_sector_succeeds [OF less.prems(1-3), of "offset div SECTOR_SIZE"] less.prems(4) w(1) by (auto simp: cs_def)
    have kept: "cow_kept d (snd cs)"
      using cow_sector_patches(1) [OF less.prems(1,3), of within "take n src" "offset div SECTOR_SIZE"] n w less.prems(4)
      by (simp add: cs_def min_absorb2)
    have "cow_write offset src d = cow_write (offset + n) (drop n src) (snd cs)"
      using False ok(1) by (subst cow_write.simps) (simp add: within_def [symmetric] n_def [symmetric] cs_def [symmetric] Let_def split_beta)
    then show ?thesis
      using less.hyps [of "drop n src" "snd cs" "offset + n"] kept ok(2) n less.prems(3,4) by (simp add: cow_kept_def)
  qed (simp add: cow_write.simps)
qed

lemma disk_write_succeeds:
  assumes "disk_inv d" "host_ok d" "offset + length src \<le> disk_size d"
  shows "fst (disk_write offset src d)"
proof (cases d)
  case (DFile f sz snapshot ov)
  then show ?thesis
    using assms cow_write_succeeds [OF assms(1,2) _ assms(3), of "hf_bytes f"]
    by (auto simp: disk_write_def host_ok_def hf_write_def hf_take_def snapshot_of_def)
qed (use assms in \<open>simp add: disk_write_def disk_size_def\<close>)

text \<open>C17: In memory, in an image file or in a snapshot with its sectors kept aside, the disk is a flat array of bytes: a
  read inside of it returns the bytes, a write replaces them, or on an error of the host a prefix of them, and without an
  error of the host both succeed.\<close>

theorem disk_refines:
  assumes "disk_inv d" "offset + length src \<le> disk_size d"
  shows "(\<exists>k\<le>length src. disk_image (snd (disk_write offset src d)) = splice offset 0 (take k src) (disk_image d) \<and>
      (fst (disk_write offset src d) \<longrightarrow> k = length src)) \<and>
    (host_ok d \<longrightarrow> fst (disk_write offset src d)) \<and>
    (case fst (disk_read offset (length src) d) of None \<Rightarrow> \<not> host_ok d
       | Some b \<Rightarrow> b = take (length src) (drop offset (disk_image d))) \<and>
    disk_image (snd (disk_read offset (length src) d)) = disk_image d"
proof (intro conjI)
  show "\<exists>k\<le>length src. disk_image (snd (disk_write offset src d)) = splice offset 0 (take k src) (disk_image d) \<and>
      (fst (disk_write offset src d) \<longrightarrow> k = length src)"
    using disk_write_patches [OF assms] assms(2) by (auto simp: cow_kept_def intro!: patched_image)
qed (use assms disk_write_succeeds disk_read_succeeds(1) [OF assms(1) _ assms(2)] disk_read_image [OF assms] disk_read_frame(4) in
    \<open>auto split: option.split\<close>)

definition sample_disk :: disk where
  "sample_disk = DFile \<lparr>hf_bytes = [1, 2, 3], hf_outcomes = []\<rparr> 3 True Map.empty"

lemma sample_disk_inv: "disk_inv sample_disk" "host_ok sample_disk" "snapshot_of [1, 2, 3] sample_disk" "disk_size sample_disk = 3"
  by (simp_all add: sample_disk_def disk_inv_def host_ok_def snapshot_of_def disk_size_def)

lemma disk_refines_witness:
  "fst (disk_write 1 [7, 8] sample_disk) \<and> fst (disk_read 1 2 sample_disk) = Some [2, 3] \<and>
   disk_image (snd (disk_write 1 [7, 8] sample_disk)) = [1, 7, 8]"
proof -
  have "1 + length [7, 8 :: u8] \<le> disk_size sample_disk"
    by (simp add: sample_disk_inv)
  note r = disk_refines [OF sample_disk_inv(1) this]
  have i: "disk_image sample_disk = [1, 2, 3]"
    by (simp add: disk_image_def disk_byte_def sample_disk_def disk_size_def upt_rec)
  have w: "fst (disk_write 1 [7, 8] sample_disk)"
    using r sample_disk_inv by simp
  then have "disk_image (snd (disk_write 1 [7, 8] sample_disk)) = [1, 7, 8]"
    using r i by (auto simp: splice_def)
  then show ?thesis
    using w r i sample_disk_inv by (auto simp: numeral_2_eq_2 split: option.splits)
qed

section \<open>Requests\<close>

lemma read_guest_bytes_length: "read_guest_bytes a n c = Some b \<Longrightarrow> length b = n"
  by (auto simp: read_guest_bytes_def dram_read_bytes_def Let_def split: if_splits)

lemma cow_kept_refl: "disk_inv d \<Longrightarrow> cow_kept d d"
  by (simp add: cow_kept_def)

lemma move_chunk_kept:
  assumes "disk_inv (fst dc)" "offset + n \<le> disk_size (fst dc)"
  shows "cow_kept (fst dc) (fst (snd (move_chunk is_read a n offset dc)))"
  using assms cow_kept_read [OF assms(1), of offset n] disk_write_patches [OF assms(1)] read_guest_bytes_length
  by (auto simp: move_chunk_def split_beta cow_kept_refl split: option.split)

lemma move_segment_kept:
  assumes "disk_inv (fst dc)" "offset + (unat (sg_len s) - pos) \<le> disk_size (fst dc)"
  shows "cow_kept (fst dc) (fst (snd (move_segment is_read s pos offset dc)))"
  using assms
proof (induction "unat (sg_len s) - pos" arbitrary: pos offset dc rule: less_induct)
  case less
  define n where "n = min CHUNK (unat (sg_len s) - pos)"
  define mc where "mc = move_chunk is_read (sg_addr s + of_nat pos) n offset dc"
  show ?case
  proof (cases "unat (sg_len s) \<le> pos")
    case True
    then show ?thesis
      using less.prems by (simp add: move_segment.simps cow_kept_refl)
  next
    case False
    have eq: "move_segment is_read s pos offset dc = (if fst mc then move_segment is_read s (pos + n) (offset + n) (snd mc) else (False, snd mc))"
      using False by (subst move_segment.simps) (simp add: n_def [symmetric] mc_def [symmetric] Let_def split_beta)
    have kept: "cow_kept (fst dc) (fst (snd mc))"
      unfolding mc_def using less.prems by (intro move_chunk_kept) (auto simp: n_def)
    have "cow_kept (fst (snd mc)) (fst (snd (move_segment is_read s (pos + n) (offset + n) (snd mc))))"
      using kept less.prems False by (intro less.hyps) (auto simp: n_def cow_kept_def)
    then show ?thesis
      using kept cow_kept_trans by (auto simp: eq)
  qed
qed

lemma move_segments_kept:
  assumes "disk_inv (fst dc)" "offset + sum_list (map (\<lambda>s. unat (sg_len s)) segs) \<le> disk_size (fst dc)"
  shows "cow_kept (fst dc) (fst (snd (snd (move_segments is_read segs offset written dc))))"
  using assms
proof (induction segs arbitrary: offset written dc)
  case (Cons s segs)
  have kept: "cow_kept (fst dc) (fst (snd (move_segment is_read s 0 offset dc)))"
    using Cons.prems by (intro move_segment_kept) auto
  have "cow_kept (fst dc) (fst (snd (snd (move_segments is_read segs (offset + unat (sg_len s)) w (snd (move_segment is_read s 0 offset dc))))))" for w
    using kept Cons.prems by (intro cow_kept_trans [OF kept] Cons.IH) (auto simp: cow_kept_def)
  then show ?case
    using kept by (simp add: Let_def split_beta)
qed (simp add: cow_kept_refl)

lemma blk_transfer_kept:
  assumes "disk_inv (fst dc)"
  shows "cow_kept (fst dc) (fst (snd (snd (blk_transfer is_read sector data dc))))"
  using assms by (auto simp: blk_transfer_def Let_def split_beta cow_kept_refl intro!: move_segments_kept)

lemma process_request_kept:
  assumes "disk_inv (bk_store (fst bc))"
  shows "cow_kept (bk_store (fst bc)) (bk_store (fst (process_request qi head segs bc)))"
  using assms blk_transfer_kept [of "(bk_store (fst bc), snd bc)"] disk_flush_keeps [OF assms]
  by (simp add: process_request_def Let_def split_beta cow_kept_refl split: option.split)

lemma blk_service_loop_kept:
  assumes "disk_inv (bk_store (fst bc))"
  shows "cow_kept (bk_store (fst bc)) (bk_store (fst (snd (blk_service_loop qi count bytes bc))))"
  using assms
proof (induction "MAX_REQUESTS_PER_PASS - count" arbitrary: count bytes bc rule: less_induct)
  case less
  have kept: "cow_kept (bk_store (fst bc)) (bk_store (fst (process_request qi head segs (fst bc, c))))" for head segs c
    using process_request_kept [of "(fst bc, c)"] less.prems by simp
  have "cow_kept (bk_store (fst bc)) (bk_store (fst (snd (blk_service_loop qi (Suc count) w (process_request qi head segs (fst bc, c))))))"
    if "Suc count < MAX_REQUESTS_PER_PASS" for head segs c w
    by (rule cow_kept_trans [OF kept [of head segs c]], rule less.hyps)
      (use kept that in \<open>auto simp: cow_kept_def\<close>)
  then show ?case
    using kept less.prems by (subst blk_service_loop.simps) (auto simp: Let_def split_beta cow_kept_refl split: option.split)
qed

lemma blk_service_kept:
  assumes "disk_inv (bk_store (fst bc))"
  shows "cow_kept (bk_store (fst bc)) (bk_store (fst (blk_service qi bc)))"
  using blk_service_loop_kept [of "((fst bc)\<lparr>bk_backlog := False\<rparr>, snd bc)"] assms
  by (simp add: blk_service_def Let_def split_beta)

text \<open>The life of a slot: accesses and polls in any order, while memory changes in between.\<close>

inductive slot_run :: "vdev \<times> vcore \<Rightarrow> vdev \<times> vcore \<Rightarrow> bool" where
  start: "slot_run dc dc"
| memory: "slot_run dc (d, c) \<Longrightarrow> slot_run dc (d, lend mp c)"
| load: "slot_run dc dc' \<Longrightarrow> slot_run dc (snd (virtio_load off n dc'))"
| store: "slot_run dc dc' \<Longrightarrow> virtio_store off n v dc' = Some (r, dc'') \<Longrightarrow> slot_run dc dc''"
| poll: "slot_run dc dc' \<Longrightarrow> slot_run dc (virtio_poll dc')"

lemma slot_run_disk:
  assumes "slot_run dc dc'" "fst dc = VBlk b" "disk_inv (bk_store b)"
  shows "\<exists>b'. fst dc' = VBlk b' \<and> cow_kept (bk_store b) (bk_store b')"
  using assms
proof (induction rule: slot_run.induct)
  case (load dc dc' off n)
  then show ?case
    by (auto simp: virtio_load_def split_beta)
next
  case (store dc dc' off n v r dc'')
  then obtain b' where b': "fst dc' = VBlk b'" "cow_kept (bk_store b) (bk_store b')"
    by auto
  then have "cow_kept (bk_store b) (bk_store (fst (blk_service qi (b', snd dc'))))" for qi
    using blk_service_kept [of "(b', snd dc')"] cow_kept_trans by (auto simp: cow_kept_def)
  then show ?case
    using b' store.hyps(2) by (auto simp: virtio_store_def vdev_notify_def blk_notify_def Let_def split_beta split: if_splits)
next
  case (poll dc dc')
  then obtain b' where b': "fst dc' = VBlk b'" "cow_kept (bk_store b) (bk_store b')"
    by auto
  then have "cow_kept (bk_store b) (bk_store (fst (blk_service 0 (b', snd dc'))))"
    using blk_service_kept [of "(b', snd dc')"] cow_kept_trans by (auto simp: cow_kept_def)
  then show ?case
    using b' by (simp add: virtio_poll_def vdev_poll_def blk_poll_def)
qed (auto simp: cow_kept_refl)

text \<open>C18: Whatever a driver does with its registers, queues and memory, a disk opened as a snapshot leaves the image
  file as it was, and the disk keeps its size.\<close>

theorem snapshot_isolates:
  assumes "slot_run (VBlk b, c) (d, c')" "disk_inv (bk_store b)" "snapshot_of bs (bk_store b)"
  shows "\<exists>b'. d = VBlk b' \<and> snapshot_of bs (bk_store b') \<and> disk_inv (bk_store b') \<and> disk_size (bk_store b') = length bs"
proof -
  have "disk_size (bk_store b) = length bs"
    using assms(2,3) by (auto simp: disk_inv_def snapshot_of_def disk_size_def split: disk.splits)
  then show ?thesis
    using slot_run_disk [OF assms(1) _ assms(2)] assms(3) by (auto simp: cow_kept_def)
qed

definition sample_blk :: "vdev \<times> vcore" where
  "sample_blk = (VBlk \<lparr>bk_store = sample_disk, bk_backlog = True\<rparr>, core_new 0x10001000 sample_dram (plic_new 1) 2 1)"

lemma snapshot_isolates_witness:
  "\<exists>b'. fst (virtio_poll sample_blk) = VBlk b' \<and> snapshot_of [1, 2, 3] (bk_store b') \<and> disk_inv (bk_store b') \<and>
     disk_size (bk_store b') = length [1, 2, 3 :: u8]"
proof -
  have "slot_run sample_blk (fst (virtio_poll sample_blk), snd (virtio_poll sample_blk))"
    using slot_run.poll [OF slot_run.start] by simp
  then show ?thesis
    using snapshot_isolates sample_disk_inv unfolding sample_blk_def by fastforce
qed

section \<open>Data\<close>

definition guest_bytes :: "vcore \<Rightarrow> u64 \<Rightarrow> nat \<Rightarrow> nat \<Rightarrow> u8 list" where
  "guest_bytes c a i j = map (\<lambda>k. guest_byte c (a + of_nat k)) [i..<j]"

lemma read_guest_bytes_data:
  assumes "dram_inv (vc_ram c)" "read_guest_bytes (a + of_nat pos) n c = Some b"
  shows "b = guest_bytes c a pos (pos + n)"
proof (rule nth_equalityI)
  show "length b = length (guest_bytes c a pos (pos + n))"
    using read_guest_bytes_length [OF assms(2)] by (simp add: guest_bytes_def)
  fix i assume "i < length b"
  then have i: "i < n"
    using read_guest_bytes_length [OF assms(2)] by simp
  have "b ! i = d_mem (vc_ram c) (unat (a + of_nat pos - DRAM_BASE) + i)" "in_range (a + of_nat pos - DRAM_BASE) n (vc_ram c)"
    using assms(2) i by (auto simp: read_guest_bytes_def dram_read_bytes_def Let_def split: if_splits)
  then show "b ! i = guest_bytes c a pos (pos + n) ! i"
    using in_range_offset [of "a + of_nat pos" n "vc_ram c" i] assms(1) i
    by (simp add: guest_bytes_def guest_byte_def add.assoc)
qed

lemma move_segment_step:
  assumes "pos < unat (sg_len s)" "n = min CHUNK (unat (sg_len s) - pos)" "fst (move_segment is_read s pos offset dc)"
  shows "fst (move_chunk is_read (sg_addr s + of_nat pos) n offset dc)"
    "move_segment is_read s pos offset dc =
       move_segment is_read s (pos + n) (offset + n) (snd (move_chunk is_read (sg_addr s + of_nat pos) n offset dc))"
  using assms by (simp_all add: move_segment.simps [of is_read s pos] Let_def split_beta split: if_splits)

lemma move_segment_write:
  assumes "disk_inv (fst dc)" "dram_inv (vc_ram (snd dc))" "pos \<le> unat (sg_len s)"
    "offset + (unat (sg_len s) - pos) \<le> disk_size (fst dc)" "fst (move_segment False s pos offset dc)"
  shows "patched (fst dc) offset (guest_bytes (snd dc) (sg_addr s) pos (unat (sg_len s))) (fst (snd (move_segment False s pos offset dc)))"
  using assms
proof (induction "unat (sg_len s) - pos" arbitrary: pos offset dc rule: less_induct)
  case less
  show ?case
  proof (cases "pos = unat (sg_len s)")
    case True
    then show ?thesis
      by (simp add: move_segment.simps guest_bytes_def patched_Nil)
  next
    case False
    define n where "n = min CHUNK (unat (sg_len s) - pos)"
    define mc where "mc = move_chunk False (sg_addr s + of_nat pos) n offset dc"
    have n: "0 < n" "pos + n \<le> unat (sg_len s)"
      using False less.prems(3) by (auto simp: n_def)
    have step: "fst mc" "move_segment False s pos offset dc = move_segment False s (pos + n) (offset + n) (snd mc)"
      using move_segment_step [OF _ n_def less.prems(5)] False less.prems(3) by (simp_all add: mc_def)
    obtain b where b: "read_guest_bytes (sg_addr s + of_nat pos) n (snd dc) = Some b" "fst (disk_write offset b (fst dc))"
      "snd mc = (snd (disk_write offset b (fst dc)), snd dc)"
      using step(1) by (auto simp: mc_def move_chunk_def split_beta split: option.splits)
    have bs: "b = guest_bytes (snd dc) (sg_addr s) pos (pos + n)"
      using read_guest_bytes_data [OF less.prems(2) b(1)] .
    have len: "length b = n"
      by (simp add: bs guest_bytes_def)
    note wr = disk_write_patches [OF less.prems(1), of offset b]
    have kept: "cow_kept (fst dc) (fst (snd mc))" and pat: "patched (fst dc) offset b (fst (snd mc))"
      using wr b len n less.prems(4) by auto
    have "patched (fst (snd mc)) (offset + n) (guest_bytes (snd dc) (sg_addr s) (pos + n) (unat (sg_len s)))
        (fst (snd (move_segment False s pos offset dc)))"
      using less.hyps [of "pos + n" "snd mc" "offset + n"] kept n b(3) less.prems(2,4,5) step(2) by (simp add: cow_kept_def)
    then have "patched (fst dc) offset (b @ guest_bytes (snd dc) (sg_addr s) (pos + n) (unat (sg_len s)))
        (fst (snd (move_segment False s pos offset dc)))"
      using pat kept len by (intro patched_append) (auto simp: cow_kept_def)
    moreover have "[pos..<unat (sg_len s)] = [pos..<pos + n] @ [pos + n..<unat (sg_len s)]"
      using upt_add_eq_append [of pos "pos + n" "unat (sg_len s) - (pos + n)"] n by simp
    ultimately show ?thesis
      by (simp add: bs guest_bytes_def)
  qed
qed

text \<open>The guest memory \<open>c'\<close> is \<open>c\<close> with the given bytes at an address.\<close>

definition delivered :: "vcore \<Rightarrow> u64 \<Rightarrow> nat \<Rightarrow> (nat \<Rightarrow> u8) \<Rightarrow> vcore \<Rightarrow> bool" where
  "delivered c a n g c' \<longleftrightarrow>
     dram_inv (vc_ram c') \<and> (\<forall>x. guest_byte c' x = (if unat (x - a) < n then g (unat (x - a)) else guest_byte c x))"

lemma delivered_append:
  assumes d1: "delivered c a n g c'" and d2: "delivered c' (a + of_nat n) m h c''" and lim: "n + m < 2 ^ 64"
  shows "delivered c a (n + m) (\<lambda>i. if i < n then g i else h (i - n)) c''"
proof -
  have "guest_byte c'' x = (if unat (x - a) < n + m then if unat (x - a) < n then g (unat (x - a)) else h (unat (x - a) - n) else guest_byte c x)" for x
  proof -
    define y where "y = x - a"
    have eq: "x - (a + of_nat n) = y - of_nat n"
      by (simp add: y_def)
    have "unat (of_nat n :: u64) = n"
      using lim by (intro unat_of_nat_small) simp
    then have "unat (x - (a + of_nat n)) = (if n \<le> unat y then unat y - n else unat y + 2 ^ 64 - n)"
      unfolding eq unat_sub_if' by simp
    then show ?thesis
      using d1 d2 lim by (auto simp: delivered_def y_def [symmetric])
  qed
  then show ?thesis
    using d2 by (simp add: delivered_def)
qed

lemma write_guest_delivers:
  assumes "dram_inv (vc_ram c)" "fst (write_guest_bytes a b c)" "b \<noteq> []"
  shows "delivered c a (length b) (\<lambda>i. b ! i) (snd (write_guest_bytes a b c))"
proof -
  have "guest_ok a (length b) c"
    using assms(2,3) by (auto simp: write_guest_bytes_def dram_write_bytes_def guest_ok_def Let_def not_less split: option.splits if_splits)
  then show ?thesis
    using assms by (simp add: delivered_def dram_inv_write guest_byte_write)
qed

lemma delivered_0: "dram_inv (vc_ram c) \<Longrightarrow> delivered c a 0 g c"
  by (simp add: delivered_def)

lemma delivered_cong: "delivered c a n g c' \<Longrightarrow> (\<And>i. i < n \<Longrightarrow> g i = h i) \<Longrightarrow> delivered c a n h c'"
  by (simp add: delivered_def)

lemma move_segment_read:
  assumes "disk_inv (fst dc)" "dram_inv (vc_ram (snd dc))" "pos \<le> unat (sg_len s)"
    "offset + (unat (sg_len s) - pos) \<le> disk_size (fst dc)" "fst (move_segment True s pos offset dc)"
  shows "delivered (snd dc) (sg_addr s + of_nat pos) (unat (sg_len s) - pos) (\<lambda>i. disk_byte (fst dc) (offset + i))
      (snd (snd (move_segment True s pos offset dc)))"
  using assms
proof (induction "unat (sg_len s) - pos" arbitrary: pos offset dc rule: less_induct)
  case less
  show ?case
  proof (cases "pos = unat (sg_len s)")
    case True
    then show ?thesis
      using less.prems(2) by (simp add: move_segment.simps delivered_0)
  next
    case False
    define n where "n = min CHUNK (unat (sg_len s) - pos)"
    define a where "a = sg_addr s + of_nat pos"
    define mc where "mc = move_chunk True a n offset dc"
    have n: "0 < n" "pos + n \<le> unat (sg_len s)"
      using False less.prems(3) by (auto simp: n_def)
    have step: "fst mc" "move_segment True s pos offset dc = move_segment True s (pos + n) (offset + n) (snd mc)"
      using move_segment_step [OF _ n_def less.prems(5)] False less.prems(3) by (simp_all add: mc_def a_def)
    obtain b where b: "fst (disk_read offset n (fst dc)) = Some b" "fst (write_guest_bytes a b (snd dc))"
      "snd mc = (snd (disk_read offset n (fst dc)), snd (write_guest_bytes a b (snd dc)))"
      using step(1) by (auto simp: mc_def move_chunk_def split_beta split: option.splits)
    have bs: "b = take n (drop offset (disk_image (fst dc)))"
      using n less.prems(4) by (intro disk_read_image [OF less.prems(1) _ b(1)]) simp
    have len: "length b = n"
      using n less.prems(4) by (simp add: bs disk_image_def)
    have d1: "delivered (snd dc) a n (\<lambda>i. b ! i) (snd (snd mc))"
      using write_guest_delivers [OF less.prems(2) b(2)] b(3) len n by force
    have d2: "delivered (snd (snd mc)) (a + of_nat n) (unat (sg_len s) - (pos + n)) (\<lambda>i. disk_byte (fst dc) (offset + n + i))
        (snd (snd (move_segment True s pos offset dc)))"
      using less.hyps [of "pos + n" "snd mc" "offset + n"] d1 n b(3) less.prems(1,4,5) step(2)
      by (simp add: disk_read_frame delivered_def [of "snd dc"] a_def add.assoc)
    have "n + (unat (sg_len s) - (pos + n)) < 2 ^ 64"
      using n unsigned_less [of "sg_len s", where ?'a = nat] by simp
    from delivered_append [OF d1 d2 this] show ?thesis
      using n less.prems(4) by (auto simp: a_def [symmetric] bs disk_image_def elim!: delivered_cong)
  qed
qed

lemma blk_transfer_segment:
  assumes "fst (blk_transfer is_read sector [s] dc) = BLK_S_OK"
  shows "unat sector * SECTOR_SIZE + unat (sg_len s) \<le> disk_size (fst dc)"
    "fst (move_segment is_read s 0 (unat sector * SECTOR_SIZE) dc)"
    "snd (snd (blk_transfer is_read sector [s] dc)) = snd (move_segment is_read s 0 (unat sector * SECTOR_SIZE) dc)"
  using assms by (auto simp: blk_transfer_def Let_def split_beta move_segment.simps [of _ _ 0] split: if_splits)


definition sample_slot :: "u8 \<Rightarrow> vcore" where
  "sample_slot a = core_new 0x10001000 (dram_from_vec [a, a]) (plic_new 1) 2 1"

definition sample_segment :: "bool \<Rightarrow> segment" where
  "sample_segment w = \<lparr>sg_addr = DRAM_BASE, sg_len = 2, sg_device_writes = w\<rparr>"

lemma sample_slot_inv: "dram_inv (vc_ram (sample_slot a))"
  by (simp add: sample_slot_def core_new_def dram_inv_from_vec)

lemma sample_write: "blk_transfer False 0 [sample_segment False] (DMemory [0, 0], sample_slot 9) = (0, 0, DMemory [9, 9], sample_slot 9)"
  by (simp add: blk_transfer_def sample_segment_def disk_size_def move_segment.simps move_chunk_def read_guest_bytes_def
      dram_read_bytes_def sample_slot_def core_new_def dram_from_vec_def in_range_def disk_write_def splice_def upt_rec)

lemma sample_read: "\<exists>w e'. blk_transfer True 0 [sample_segment True] (DMemory [9, 9], sample_slot 0) = (0, w, DMemory [9, 9], e')"
  by (simp add: blk_transfer_def sample_segment_def disk_size_def move_segment.simps move_chunk_def write_guest_bytes_def
      dram_write_bytes_def sample_slot_def core_new_def dram_from_vec_def in_range_def disk_read_def)


end
