(* ===== verification/Elf.thy ===== *)
theory Elf
  imports Bus Bytes
begin

text \<open>
  The ELF64 loader, \<open>src/src/elf.rs\<close>. The file is a list of bytes, the memory it is copied to is the
  machine's. A failure is a value: the reason the loader reports, without its text, or \<open>Panicked\<close> for
  an index or a slice out of range and for an addition that overflows, which end the program. Offsets
  that the code adds without a check are natural numbers here, so that none can wrap around unnoticed.
\<close>

section \<open>Reading the file\<close>

abbreviation (input) PT_LOAD :: u64 where "PT_LOAD \<equiv> 1"
abbreviation (input) EM_RISCV :: u64 where "EM_RISCV \<equiv> 243"
abbreviation (input) ELFCLASS64 :: u8 where "ELFCLASS64 \<equiv> 2"
abbreviation (input) ELFDATA2LSB :: u8 where "ELFDATA2LSB \<equiv> 1"
abbreviation (input) SHT_SYMTAB :: u64 where "SHT_SYMTAB \<equiv> 2"
abbreviation (input) SHT_STRTAB :: u64 where "SHT_STRTAB \<equiv> 3"

datatype elf_error =
    NotElf | TruncatedHeader | NotElf64 | NotLittleEndian | NotRiscv u64 | NoProgramHeaders
  | HeaderOutOfRange | SegmentPastEnd | MemszBelowFilesz | AddressOverflow | OutsideMemory u64 u64
  | NotWritable u64 | BssOutsideMemory | NoSegments | Panicked

record loaded_image =
  li_entry :: u64
  li_tohost :: u64

definition fits :: "u8 list \<Rightarrow> u64 \<Rightarrow> u64 \<Rightarrow> bool" where
  "fits b offset len \<longleftrightarrow> len \<le> of_nat (length b) \<and> offset \<le> of_nat (length b) - len"

text \<open>A little-endian number of the file; an offset out of range is a panic.\<close>

definition rd :: "nat \<Rightarrow> u8 list \<Rightarrow> nat \<Rightarrow> elf_error + u64" where
  "rd n b off = (if off + n \<le> length b then Inr (read_le (take n (drop off b))) else Inl Panicked)"

abbreviation rd16 :: "u8 list \<Rightarrow> nat \<Rightarrow> elf_error + u64" where "rd16 \<equiv> rd 2"
abbreviation rd32 :: "u8 list \<Rightarrow> nat \<Rightarrow> elf_error + u64" where "rd32 \<equiv> rd 4"
abbreviation rd64 :: "u8 list \<Rightarrow> nat \<Rightarrow> elf_error + u64" where "rd64 \<equiv> rd 8"

definition slice :: "u8 list \<Rightarrow> nat \<Rightarrow> nat \<Rightarrow> elf_error + u8 list" where
  "slice b i j = (if i \<le> j \<and> j \<le> length b then Inr (take (j - i) (drop i b)) else Inl Panicked)"

definition is_elf :: "u8 list \<Rightarrow> bool" where
  "is_elf b \<longleftrightarrow> length b \<ge> 4 \<and> take 4 b = [0x7f, 0x45, 0x4c, 0x46]"

text \<open>Sequencing without state.\<close>

fun bind_res :: "'e + 'a \<Rightarrow> ('a \<Rightarrow> 'e + 'b) \<Rightarrow> 'e + 'b" where
  "bind_res (Inl e) f = Inl e"
| "bind_res (Inr a) f = f a"

section \<open>Symbols\<close>

lemma scan_progress:
  "\<not> (e = 0 \<or> unat s + unat e \<ge> 2 ^ 64 \<or> s + e > sz) \<Longrightarrow> unat (sz :: u64) - unat (s + e) < unat sz - unat s"
proof -
  assume *: "\<not> (e = 0 \<or> unat s + unat e \<ge> 2 ^ 64 \<or> s + e > sz)"
  then have "unat (s + e) = unat s + unat e" "0 < unat e"
    by (auto simp: unat_word_ariths(1) unat_gt_0)
  then show ?thesis
    using * by (auto simp: word_le_nat_alt not_less)
qed

text \<open>The entries of one symbol table, from position \<open>s\<close> on: the value of the wanted symbol, if it is there.\<close>

function scan_symbols :: "u8 list \<Rightarrow> u64 \<Rightarrow> u64 \<Rightarrow> u64 \<Rightarrow> u64 \<Rightarrow> u64 \<Rightarrow> u8 list \<Rightarrow> u64 \<Rightarrow> elf_error + u64 option" where
  "scan_symbols b sym_off sym_size sym_entsize str_off str_size want s =
     (if sym_entsize = 0 \<or> unat s + unat sym_entsize \<ge> 2 ^ 64 \<or> s + sym_entsize > sym_size then Inr None
      else if \<not> fits b (sym_off + s) 24 then Inr None
      else
        (case rd32 b (unat (sym_off + s)) of
           Inl e \<Rightarrow> Inl e
         | Inr name_off \<Rightarrow>
             if name_off = 0 \<or> name_off \<ge> str_size \<or> \<not> fits b str_off (name_off + 1)
             then scan_symbols b sym_off sym_size sym_entsize str_off str_size want (s + sym_entsize)
             else
               (case slice b (unat str_off + unat name_off) (length b) of
                  Inl e \<Rightarrow> Inl e
                | Inr tail \<Rightarrow>
                    if takeWhile (\<lambda>c. c \<noteq> 0) tail = want
                    then bind_res (rd64 b (unat (sym_off + s) + 8)) (\<lambda>v. Inr (Some v))
                    else scan_symbols b sym_off sym_size sym_entsize str_off str_size want (s + sym_entsize))))"
  by pat_completeness auto
termination
  by (relation "measure (\<lambda>(b, sym_off, sym_size, sym_entsize, str_off, str_size, want, s). unat sym_size - unat s)")
    (use scan_progress in auto)

declare scan_symbols.simps [simp del]

definition scan_section :: "u8 list \<Rightarrow> u64 \<Rightarrow> u64 \<Rightarrow> u8 list \<Rightarrow> u64 \<Rightarrow> elf_error + u64 option" where
  "scan_section b shoff shentsize want sh =
     bind_res (rd32 b (unat sh + 4)) (\<lambda>ty.
       if ty \<noteq> SHT_SYMTAB then Inr None
       else
         bind_res (rd64 b (unat sh + 24)) (\<lambda>sym_off.
         bind_res (rd64 b (unat sh + 32)) (\<lambda>sym_size.
         bind_res (rd32 b (unat sh + 40)) (\<lambda>strtab_i.
         bind_res (rd64 b (unat sh + 56)) (\<lambda>sym_entsize.
           if sym_entsize = 0 then Inr None
           else
             (let str_sh = shoff + strtab_i * shentsize in
              if \<not> fits b str_sh 64 then Inr None
              else
                bind_res (rd32 b (unat str_sh + 4)) (\<lambda>str_ty.
                  if str_ty \<noteq> SHT_STRTAB then Inr None
                  else
                    bind_res (rd64 b (unat str_sh + 24)) (\<lambda>str_off.
                    bind_res (rd64 b (unat str_sh + 32)) (\<lambda>str_size.
                      scan_symbols b sym_off sym_size sym_entsize str_off str_size want 0)))))))))"

fun find_symbol_from :: "nat list \<Rightarrow> u8 list \<Rightarrow> u64 \<Rightarrow> u64 \<Rightarrow> u8 list \<Rightarrow> elf_error + u64" where
  "find_symbol_from [] b shoff shentsize want = Inr 0"
| "find_symbol_from (i # is) b shoff shentsize want =
     (let sh = shoff + of_nat i * shentsize in
      if \<not> fits b sh 64 then Inr 0
      else
        bind_res (scan_section b shoff shentsize want sh) (\<lambda>r.
          case r of Some v \<Rightarrow> Inr v | None \<Rightarrow> find_symbol_from is b shoff shentsize want))"

definition find_symbol :: "u8 list \<Rightarrow> u64 \<Rightarrow> u64 \<Rightarrow> u64 \<Rightarrow> u8 list \<Rightarrow> elf_error + u64" where
  "find_symbol b shoff shentsize shnum want =
     (if shoff = 0 \<or> shnum = 0 then Inr 0 else find_symbol_from [0..<unat shnum] b shoff shentsize want)"

section \<open>Loading\<close>

text \<open>The zeros behind the bytes of a segment, in chunks of at most a megabyte.\<close>

function zero_fill :: "nat \<Rightarrow> u64 \<Rightarrow> nat \<Rightarrow> dram \<Rightarrow> (elf_error + unit) \<times> dram" where
  "zero_fill bss start pos d =
     (if pos \<ge> bss then (Inr (), d)
      else
        (let n = min (bss - pos) (min bss 1048576) in
         if unat start + pos \<ge> 2 ^ 64 then (Inl Panicked, d)
         else
           (case dram_write_bytes (start + of_nat pos) (replicate n 0) d of
              None \<Rightarrow> (Inl BssOutsideMemory, d)
            | Some d \<Rightarrow> zero_fill bss start (pos + n) d)))"
  by pat_completeness auto
termination
  by (relation "measure (\<lambda>(bss, start, pos, d). bss - pos)") auto

declare zero_fill.simps [simp del]

record segment_header =
  ph_offset :: u64
  ph_paddr :: u64
  ph_filesz :: u64
  ph_memsz :: u64

definition load_segment :: "u8 list \<Rightarrow> segment_header \<Rightarrow> dram \<Rightarrow> (elf_error + unit) \<times> dram" where
  "load_segment b h d =
     (if \<not> fits b (ph_offset h) (ph_filesz h) then (Inl SegmentPastEnd, d)
      else if ph_memsz h < ph_filesz h then (Inl MemszBelowFilesz, d)
      else if unat (ph_paddr h) + unat (ph_memsz h) \<ge> 2 ^ 64 then (Inl AddressOverflow, d)
      else
        (let end = ph_paddr h + ph_memsz h in
         if ph_paddr h < DRAM_BASE \<or> end > DRAM_BASE + dram_size d then (Inl (OutsideMemory (ph_paddr h) end), d)
         else
           and_then (slice b (unat (ph_offset h)) (unat (ph_offset h) + unat (ph_filesz h)), d) (\<lambda>data d.
             case dram_write_bytes (ph_paddr h) data d of
               None \<Rightarrow> (Inl (NotWritable (ph_paddr h)), d)
             | Some d \<Rightarrow>
                 (let bss = ph_memsz h - ph_filesz h in
                  if bss > 0 then
                    (if unat (ph_paddr h) + unat (ph_filesz h) \<ge> 2 ^ 64 then (Inl BssOutsideMemory, d)
                     else zero_fill (unat bss) (ph_paddr h + ph_filesz h) 0 d)
                  else (Inr (), d)))))"

definition program_header :: "u8 list \<Rightarrow> nat \<Rightarrow> elf_error + segment_header" where
  "program_header b ph =
     bind_res (rd64 b (ph + 8)) (\<lambda>p_offset.
     bind_res (rd64 b (ph + 24)) (\<lambda>p_paddr.
     bind_res (rd64 b (ph + 32)) (\<lambda>p_filesz.
     bind_res (rd64 b (ph + 40)) (\<lambda>p_memsz.
       Inr \<lparr>ph_offset = p_offset, ph_paddr = p_paddr, ph_filesz = p_filesz, ph_memsz = p_memsz\<rparr>))))"

fun load_segments :: "nat list \<Rightarrow> u8 list \<Rightarrow> u64 \<Rightarrow> u64 \<Rightarrow> nat \<Rightarrow> dram \<Rightarrow> (elf_error + nat) \<times> dram" where
  "load_segments [] b e_phoff e_phentsize loaded d = (Inr loaded, d)"
| "load_segments (i # is) b e_phoff e_phentsize loaded d =
     (let ph = e_phoff + of_nat i * e_phentsize in
      if \<not> fits b ph 56 then (Inl HeaderOutOfRange, d)
      else
        and_then (rd32 b (unat ph), d) (\<lambda>ty d.
          if ty \<noteq> PT_LOAD then load_segments is b e_phoff e_phentsize loaded d
          else
            and_then (program_header b (unat ph), d) (\<lambda>h d.
            and_then (load_segment b h d) (\<lambda>_ d. load_segments is b e_phoff e_phentsize (Suc loaded) d))))"

definition tohost_name :: "u8 list" where
  "tohost_name = map of_char ''tohost''"

definition load_elf :: "u8 list \<Rightarrow> dram \<Rightarrow> (elf_error + loaded_image) \<times> dram" where
  "load_elf b d =
     (if \<not> is_elf b then (Inl NotElf, d)
      else if length b < 64 then (Inl TruncatedHeader, d)
      else if b ! 4 \<noteq> ELFCLASS64 then (Inl NotElf64, d)
      else if b ! 5 \<noteq> ELFDATA2LSB then (Inl NotLittleEndian, d)
      else
        and_then (rd16 b 18, d) (\<lambda>machine d.
          if machine \<noteq> EM_RISCV then (Inl (NotRiscv machine), d)
          else
            and_then (rd64 b 24, d) (\<lambda>e_entry d.
            and_then (rd64 b 32, d) (\<lambda>e_phoff d.
            and_then (rd64 b 40, d) (\<lambda>e_shoff d.
            and_then (rd16 b 54, d) (\<lambda>e_phentsize d.
            and_then (rd16 b 56, d) (\<lambda>e_phnum d.
            and_then (rd16 b 58, d) (\<lambda>e_shentsize d.
            and_then (rd16 b 60, d) (\<lambda>e_shnum d.
              if e_phnum = 0 then (Inl NoProgramHeaders, d)
              else
                and_then (load_segments [0..<unat e_phnum] b e_phoff e_phentsize 0 d) (\<lambda>loaded d.
                  if loaded = 0 then (Inl NoSegments, d)
                  else
                    and_then (find_symbol b e_shoff e_shentsize e_shnum tohost_name, d) (\<lambda>tohost d.
                      (Inr \<lparr>li_entry = e_entry, li_tohost = tohost\<rparr>, d))))))))))))"

section \<open>The reader never panics\<close>

text \<open>A slice of bytes is shorter than the largest signed word, as every slice of the language is.\<close>

definition is_slice :: "u8 list \<Rightarrow> bool" where
  "is_slice b \<longleftrightarrow> length b < 2 ^ 63"

definition field :: "nat \<Rightarrow> u8 list \<Rightarrow> nat \<Rightarrow> u64" where
  "field n b off = read_le (take n (drop off b))"

lemma rd_field: "off + n \<le> length b \<Longrightarrow> rd n b off = Inr (field n b off)"
  by (simp add: rd_def field_def)

lemma fits_iff: "is_slice b \<Longrightarrow> fits b offset len \<longleftrightarrow> unat offset + unat len \<le> length b"
proof -
  assume "is_slice b"
  then have "unat (of_nat (length b) :: u64) = length b"
    by (intro unat_of_nat_small) (simp add: is_slice_def)
  then show ?thesis
    by (auto simp: fits_def word_le_nat_alt unat_sub_if')
qed

lemma field_less: "n < 8 \<Longrightarrow> field n b off < 2 ^ (8 * n)"
  unfolding field_def by (rule read_le_less) auto

lemma scan_symbols_total:
  assumes "is_slice b"
  shows "\<exists>r. scan_symbols b sym_off sym_size sym_entsize str_off str_size want s = Inr r"
proof (induction "unat sym_size - unat s" arbitrary: s rule: less_induct)
  case less
  let ?stop = "sym_entsize = 0 \<or> unat s + unat sym_entsize \<ge> 2 ^ 64 \<or> s + sym_entsize > sym_size"
  show ?case
  proof (cases "?stop \<or> \<not> fits b (sym_off + s) 24")
    case True
    then show ?thesis
      by (subst scan_symbols.simps) auto
  next
    case False
    define ent where "ent = unat (sym_off + s)"
    define name where "name = field 4 b ent"
    have ent: "ent + 24 \<le> length b"
      using False assms by (simp add: fits_iff ent_def)
    have "name < 2 ^ 32"
      unfolding name_def using field_less [of 4 b ent] by simp
    then have name: "unat (name + 1) = unat name + 1"
      by (simp add: unat_word_ariths(1) word_less_nat_alt)
    obtain r where rest: "scan_symbols b sym_off sym_size sym_entsize str_off str_size want (s + sym_entsize) = Inr r"
      using less [OF scan_progress] False by blast
    have "slice b (unat str_off + unat name) (length b) = Inr (drop (unat str_off + unat name) b)" if "fits b str_off (name + 1)"
      using that assms name by (simp add: fits_iff slice_def)
    then show ?thesis
      using False ent rest
      by (subst scan_symbols.simps) (simp add: ent_def [symmetric] rd_field name_def [symmetric])
  qed
qed

lemma scan_section_total:
  assumes "is_slice b" "fits b sh 64"
  shows "\<exists>r. scan_section b shoff shentsize want sh = Inr r"
  using assms scan_symbols_total [OF assms(1)]
  by (auto simp: scan_section_def fits_iff rd_field Let_def)

lemma find_symbol_total:
  assumes "is_slice b"
  shows "\<exists>v. find_symbol b shoff shentsize shnum want = Inr v"
proof -
  have "\<exists>v. find_symbol_from is b shoff shentsize want = Inr v" for "is"
  proof (induction "is")
    case (Cons i "is")
    show ?case
      using scan_section_total [OF assms, of "shoff + of_nat i * shentsize" shoff shentsize want] Cons
      by (auto simp: Let_def split: option.split)
  qed simp
  then show ?thesis
    by (simp add: find_symbol_def)
qed

section \<open>What a segment becomes in memory\<close>

definition place :: "u8 list \<Rightarrow> segment_header \<Rightarrow> (nat \<Rightarrow> u8) \<Rightarrow> nat \<Rightarrow> u8" where
  "place b h m =
     copy_in (unat (ph_paddr h - DRAM_BASE))
       (take (unat (ph_filesz h)) (drop (unat (ph_offset h)) b) @ replicate (unat (ph_memsz h) - unat (ph_filesz h)) 0) m"

text \<open>A segment that lies in the file and in memory.\<close>

definition segment_ok :: "u8 list \<Rightarrow> dram \<Rightarrow> segment_header \<Rightarrow> bool" where
  "segment_ok b d h \<longleftrightarrow>
     unat (ph_offset h) + unat (ph_filesz h) \<le> length b \<and> ph_filesz h \<le> ph_memsz h \<and>
     DRAM_BASE \<le> ph_paddr h \<and> unat (ph_paddr h) + unat (ph_memsz h) \<le> unat DRAM_BASE + d_len d"

lemma ram_offset:
  assumes "DRAM_BASE \<le> start" "unat (start - DRAM_BASE) + k < 2 ^ 45"
  shows "unat start = unat DRAM_BASE + unat (start - DRAM_BASE)" "unat start + k < 2 ^ 64"
    "unat (start + of_nat k - DRAM_BASE) = unat (start - DRAM_BASE) + k" "DRAM_BASE \<le> start + of_nat k"
proof -
  define w where "w = start - DRAM_BASE"
  have k: "unat (of_nat k :: u64) = k"
    using assms(2) by (intro unat_of_nat_small) simp
  show s: "unat start = unat DRAM_BASE + unat (start - DRAM_BASE)"
    using assms(1) by (simp add: unat_sub_if' word_le_nat_alt)
  then show "unat start + k < 2 ^ 64"
    using assms(2) by simp
  have eq: "start + of_nat k - DRAM_BASE = w + of_nat k"
    by (simp add: w_def)
  have "unat (w + of_nat k) = unat w + k"
    using assms(2) k by (simp add: unat_word_ariths(1) w_def)
  then show "unat (start + of_nat k - DRAM_BASE) = unat (start - DRAM_BASE) + k"
    unfolding eq by (simp only: w_def [symmetric])
  show "DRAM_BASE \<le> start + of_nat k"
    using s assms(2) k by (simp add: word_le_nat_alt unat_word_ariths(1))
qed

lemma zero_fill_writes:
  assumes "dram_inv d" "DRAM_BASE \<le> start" "unat (start - DRAM_BASE) + bss \<le> d_len d" "pos \<le> bss"
  shows "\<exists>d'. zero_fill bss start pos d = (Inr (), d') \<and>
    d_mem d' = copy_in (unat (start - DRAM_BASE) + pos) (replicate (bss - pos) 0) (d_mem d) \<and> dram_inv d' \<and> d_len d' = d_len d \<and> dma d d'"
  using assms
proof (induction "bss - pos" arbitrary: pos d rule: less_induct)
  case less
  let ?p = "unat (start - DRAM_BASE)"
  show ?case
  proof (cases "pos = bss")
    case True
    then show ?thesis
      using less.prems(1) by (simp add: zero_fill.simps dma_refl)
  next
    case False
    define n where "n = min (bss - pos) (min bss 1048576)"
    have n: "0 < n" "pos + n \<le> bss"
      using False less.prems(4) by (auto simp: n_def)
    have lim: "?p + pos < 2 ^ 45"
      using less.prems(1,3) n by (simp add: dram_inv_def)
    note off = ram_offset [OF less.prems(2) lim]
    obtain d1 where d1: "dram_write_bytes (start + of_nat pos) (replicate n 0) d = Some d1"
      "d_mem d1 = copy_in (?p + pos) (replicate n 0) (d_mem d)" "dram_inv d1" "d_len d1 = d_len d" "dma d d1"
      using write_bytes_succeeds [OF less.prems(1) off(4), of "replicate n 0"] off(3) n less.prems(3) by auto
    obtain d' where d': "zero_fill bss start (pos + n) d1 = (Inr (), d')"
      "d_mem d' = copy_in (?p + (pos + n)) (replicate (bss - (pos + n)) 0) (d_mem d1)" "dram_inv d'" "d_len d' = d_len d1" "dma d1 d'"
      using less.hyps [of "pos + n" d1, OF _ d1(3) less.prems(2)] n d1(4) less.prems(3) by fastforce
    have "zero_fill bss start pos d = (Inr (), d')"
      using False less.prems(4) off(2) d1(1) d'(1)
      by (subst zero_fill.simps) (simp add: n_def [symmetric] Let_def)
    moreover have "d_mem d' = copy_in (?p + pos) (replicate n 0 @ replicate (bss - (pos + n)) 0) (d_mem d)"
      using copy_in_append [of "?p + pos" "replicate n 0" "replicate (bss - (pos + n)) 0" "d_mem d"] d'(2) d1(2)
      by (simp add: add.assoc)
    moreover have "replicate n (0 :: u8) @ replicate (bss - (pos + n)) 0 = replicate (bss - pos) 0"
      using n by (simp add: replicate_add [symmetric])
    ultimately show ?thesis
      using d' d1 dma_trans by auto
  qed
qed

lemma load_segment_places:
  assumes b: "is_slice b" and inv: "dram_inv d"
  shows "if segment_ok b d h
    then \<exists>d'. load_segment b h d = (Inr (), d') \<and> d_mem d' = place b h (d_mem d) \<and> dram_inv d' \<and> d_len d' = d_len d \<and> dma d d'
    else \<exists>e. load_segment b h d = (Inl e, d) \<and> e \<noteq> Panicked"
proof (cases "segment_ok b d h")
  case False
  have "unat (of_nat (d_len d) :: u64) = d_len d" "d_len d < 2 ^ 44"
    using inv by (simp_all add: dram_inv_def unat_of_nat_small)
  then have "unat (DRAM_BASE + dram_size d) = unat DRAM_BASE + d_len d"
    by (simp add: dram_size_def unat_word_ariths(1))
  moreover have "unat (ph_paddr h) + unat (ph_memsz h) < 2 ^ 64 \<Longrightarrow> unat (ph_paddr h + ph_memsz h) = unat (ph_paddr h) + unat (ph_memsz h)"
    by (simp add: unat_word_ariths(1))
  ultimately show ?thesis
    using False b by (auto simp: load_segment_def segment_ok_def fits_iff Let_def word_le_nat_alt word_less_nat_alt)
next
  case True
  define p fs ms where "p = unat (ph_paddr h - DRAM_BASE)" and "fs = unat (ph_filesz h)" and "ms = unat (ph_memsz h)"
  define data where "data = take fs (drop (unat (ph_offset h)) b)"
  have d: "d_len d < 2 ^ 44" "unat (of_nat (d_len d) :: u64) = d_len d"
    using inv by (simp_all add: dram_inv_def unat_of_nat_small)
  have base: "DRAM_BASE \<le> ph_paddr h" and fs: "fs \<le> ms" "length data = fs" and off: "unat (ph_offset h) + fs \<le> length b"
    using True by (auto simp: segment_ok_def data_def fs_def ms_def word_le_nat_alt)
  have "unat (ph_paddr h) = unat DRAM_BASE + p"
    using base by (simp add: p_def unat_sub_if' word_le_nat_alt)
  then have lim: "p + ms \<le> d_len d" "unat (ph_paddr h) + ms < 2 ^ 64"
    using True d(1) by (auto simp: segment_ok_def ms_def)
  have checks: "fits b (ph_offset h) (ph_filesz h)" "\<not> ph_memsz h < ph_filesz h" "\<not> ph_paddr h + ph_memsz h > DRAM_BASE + dram_size d"
    using True b lim(2) d by (auto simp: segment_ok_def fits_iff word_less_nat_alt word_le_nat_alt dram_size_def unat_word_ariths(1) ms_def)
  have bss: "unat (ph_memsz h - ph_filesz h) = ms - fs"
    using fs(1) by (simp add: ms_def fs_def unat_sub_if')
  obtain d1 where d1: "dram_write_bytes (ph_paddr h) data d = Some d1" "d_mem d1 = copy_in p data (d_mem d)"
    "dram_inv d1" "d_len d1 = d_len d" "dma d d1"
    using write_bytes_succeeds [OF inv base, of data] fs lim(1) by (auto simp: p_def)
  have "ph_paddr h + ph_filesz h = ph_paddr h + of_nat fs"
    by (simp add: fs_def)
  then have start: "DRAM_BASE \<le> ph_paddr h + ph_filesz h" "unat (ph_paddr h + ph_filesz h - DRAM_BASE) = p + fs"
    using ram_offset(3,4) [OF base, of fs] lim(1) fs(1) d(1) by (simp_all add: p_def)
  obtain d2 where d2: "zero_fill (ms - fs) (ph_paddr h + ph_filesz h) 0 d1 = (Inr (), d2)"
    "d_mem d2 = copy_in (p + fs) (replicate (ms - fs) 0) (d_mem d1)" "dram_inv d2" "d_len d2 = d_len d" "dma d1 d2"
    using zero_fill_writes [OF d1(3) start(1), of "ms - fs" 0] start(2) lim(1) fs(1) d1(4) by auto
  have "load_segment b h d = (Inr (), if ms = fs then d1 else d2)"
    using checks leD [OF base] lim fs off bss d1(1) d2(1)
    by (simp add: load_segment_def slice_def data_def fs_def [symmetric] ms_def [symmetric] Let_def word_gt_0 unat_eq_zero [symmetric])
  moreover have "d_mem (if ms = fs then d1 else d2) = place b h (d_mem d)"
    using copy_in_append [of p data "replicate (ms - fs) 0" "d_mem d"] d1(2) d2(2) fs
    by (simp add: place_def data_def fs_def [symmetric] ms_def [symmetric] p_def [symmetric])
  ultimately show ?thesis
    using True d1 d2 dma_trans by auto
qed

section \<open>What an image becomes in memory\<close>

definition phdr :: "u8 list \<Rightarrow> nat \<Rightarrow> u64" where
  "phdr b i = field 8 b 32 + of_nat i * field 2 b 54"

definition segments_of :: "u8 list \<Rightarrow> nat list \<Rightarrow> segment_header list" where
  "segments_of b is =
     map (\<lambda>i. \<lparr>ph_offset = field 8 b (unat (phdr b i) + 8), ph_paddr = field 8 b (unat (phdr b i) + 24),
        ph_filesz = field 8 b (unat (phdr b i) + 32), ph_memsz = field 8 b (unat (phdr b i) + 40)\<rparr>)
       (filter (\<lambda>i. field 4 b (unat (phdr b i)) = PT_LOAD) is)"

definition headers_fit :: "u8 list \<Rightarrow> nat list \<Rightarrow> bool" where
  "headers_fit b is \<longleftrightarrow> list_all (\<lambda>i. unat (phdr b i) + 56 \<le> length b) is"

lemma segment_ok_cong: "d_len d' = d_len d \<Longrightarrow> segment_ok b d' h = segment_ok b d h"
  by (simp add: segment_ok_def)

lemma load_segments_places:
  assumes b: "is_slice b"
  shows "dram_inv d \<Longrightarrow>
    (if headers_fit b is \<and> list_all (segment_ok b d) (segments_of b is)
     then \<exists>d'. load_segments is b (field 8 b 32) (field 2 b 54) k d = (Inr (k + length (segments_of b is)), d') \<and>
       d_mem d' = fold (place b) (segments_of b is) (d_mem d) \<and> dma d d'
     else \<exists>e d'. load_segments is b (field 8 b 32) (field 2 b 54) k d = (Inl e, d') \<and> e \<noteq> Panicked \<and> dma d d')"
proof (induction "is" arbitrary: k d)
  case Nil
  then show ?case
    by (simp add: segments_of_def headers_fit_def dma_refl)
next
  case (Cons i "is")
  define ph where "ph = unat (phdr b i)"
  define h where "h = \<lparr>ph_offset = field 8 b (ph + 8), ph_paddr = field 8 b (ph + 24),
    ph_filesz = field 8 b (ph + 32), ph_memsz = field 8 b (ph + 40)\<rparr>"
  have fit: "fits b (field 8 b 32 + of_nat i * field 2 b 54) 56 \<longleftrightarrow> ph + 56 \<le> length b"
    using b by (simp add: fits_iff ph_def phdr_def)
  have hf: "headers_fit b (i # is) \<longleftrightarrow> ph + 56 \<le> length b \<and> headers_fit b is"
    by (simp add: headers_fit_def ph_def)
  have sg: "segments_of b (i # is) = (if field 4 b ph = PT_LOAD then h # segments_of b is else segments_of b is)"
    by (simp add: segments_of_def h_def ph_def)
  have ls: "load_segments (i # is) b (field 8 b 32) (field 2 b 54) k d =
      (if field 4 b ph \<noteq> PT_LOAD then load_segments is b (field 8 b 32) (field 2 b 54) k d
       else and_then (load_segment b h d) (\<lambda>_ d. load_segments is b (field 8 b 32) (field 2 b 54) (Suc k) d))" if "ph + 56 \<le> length b"
    using that fit by (simp add: ph_def [unfolded phdr_def, symmetric] rd_field program_header_def h_def Let_def)
  show ?case
  proof (cases "ph + 56 \<le> length b \<and> field 4 b ph = PT_LOAD")
    case False
    then show ?thesis
      using Cons.IH [OF Cons.prems, of k] ls fit hf sg by (cases "ph + 56 \<le> length b") (auto simp: dma_refl)
  next
    case True
    show ?thesis
    proof (cases "segment_ok b d h")
      case False
      then show ?thesis
        using load_segment_places [OF b Cons.prems, of h] ls True hf sg dma_refl by auto
    next
      case ok: True
      then obtain d1 where d1: "load_segment b h d = (Inr (), d1)" "d_mem d1 = place b h (d_mem d)" "dram_inv d1" "d_len d1 = d_len d" "dma d d1"
        using load_segment_places [OF b Cons.prems, of h] by auto
      have "segment_ok b d1 = segment_ok b d"
        using segment_ok_cong [OF d1(4)] by blast
      then show ?thesis
        using Cons.IH [OF d1(3), of "Suc k"] True ok d1 ls hf sg dma_trans [OF _ d1(5)] by (auto split: if_splits)
    qed
  qed
qed

definition elf_segments :: "u8 list \<Rightarrow> segment_header list" where
  "elf_segments b = segments_of b [0..<unat (field 2 b 56)]"

text \<open>The image is one for this machine, and its tables and segments lie in the file and in memory.\<close>

definition loadable :: "u8 list \<Rightarrow> dram \<Rightarrow> bool" where
  "loadable b d \<longleftrightarrow>
     is_elf b \<and> 64 \<le> length b \<and> b ! 4 = ELFCLASS64 \<and> b ! 5 = ELFDATA2LSB \<and> field 2 b 18 = EM_RISCV \<and>
     headers_fit b [0..<unat (field 2 b 56)] \<and> list_all (segment_ok b d) (elf_segments b) \<and> elf_segments b \<noteq> []"

text \<open>C22: Whatever bytes the file holds, the loader does not panic, and it changes memory only by bulk writes. It
  succeeds exactly on the images whose headers and segments lie in the file and in memory; then memory holds the
  segments, each with its bytes of the file followed by zeros, and is otherwise unchanged, and the entry point is the
  one of the header.\<close>

theorem load_elf_correct:
  assumes "is_slice b" "dram_inv d"
  shows "if loadable b d
    then \<exists>tohost d'. load_elf b d = (Inr \<lparr>li_entry = field 8 b 24, li_tohost = tohost\<rparr>, d') \<and>
      find_symbol b (field 8 b 40) (field 2 b 58) (field 2 b 60) tohost_name = Inr tohost \<and>
      d_mem d' = fold (place b) (elf_segments b) (d_mem d) \<and> dma d d'
    else \<exists>e d'. load_elf b d = (Inl e, d') \<and> e \<noteq> Panicked \<and> dma d d'"
proof (cases "is_elf b \<and> 64 \<le> length b \<and> b ! 4 = ELFCLASS64 \<and> b ! 5 = ELFDATA2LSB \<and> field 2 b 18 = EM_RISCV \<and> field 2 b 56 \<noteq> 0")
  case False
  then show ?thesis
    by (auto simp: load_elf_def loadable_def elf_segments_def segments_of_def rd_field dma_refl not_less)
next
  case True
  obtain tohost where t: "find_symbol b (field 8 b 40) (field 2 b 58) (field 2 b 60) tohost_name = Inr tohost"
    using find_symbol_total [OF assms(1)] by blast
  have "load_elf b d =
      and_then (load_segments [0..<unat (field 2 b 56)] b (field 8 b 32) (field 2 b 54) 0 d) (\<lambda>loaded d.
        if loaded = 0 then (Inl NoSegments, d) else (Inr \<lparr>li_entry = field 8 b 24, li_tohost = tohost\<rparr>, d))"
    using True t by (simp add: load_elf_def rd_field not_less cong: if_cong)
  then show ?thesis
    using load_segments_places [OF assms, of "[0..<unat (field 2 b 56)]" 0] True t
    by (auto simp: loadable_def elf_segments_def split: if_splits)
qed

definition sample_elf :: "u8 list" where
  "sample_elf =
     [127, 69, 76, 70, 2, 1, 1, 0, 0, 0, 0, 0, 0, 0, 0, 0, 2, 0, 243, 0, 1, 0, 0, 0, 0, 0, 0, 128, 0, 0, 0, 0, 64,
      0, 0, 0, 0, 0, 0, 0, 0, 0, 0, 0, 0, 0, 0, 0, 0, 0, 0, 0, 64, 0, 56, 0, 1, 0, 0, 0, 0, 0, 0, 0, 1, 0, 0, 0, 0,
      0, 0, 0, 120, 0, 0, 0, 0, 0, 0, 0, 0, 0, 0, 0, 0, 0, 0, 0, 0, 0, 0, 128, 0, 0, 0, 0, 1, 0, 0, 0, 0, 0, 0, 0,
      2, 0, 0, 0, 0, 0, 0, 0, 0, 0, 0, 0, 0, 0, 0, 0, 42]"

lemma sample_elf_fields:
  "is_slice sample_elf" "field 8 sample_elf 24 = 0x80000000" "drop 120 sample_elf = [42]"
  "elf_segments sample_elf = [\<lparr>ph_offset = 120, ph_paddr = 0x80000000, ph_filesz = 1, ph_memsz = 2\<rparr>]"
  by (simp_all add: is_slice_def sample_elf_def field_def read_le_def elf_segments_def segments_of_def phdr_def)

lemma sample_elf_loadable: "loadable sample_elf (dram_from_vec [7, 7, 7])"
proof -
  have "field 2 sample_elf 18 = 243" "field 2 sample_elf 56 = 1" "phdr sample_elf 0 = 64" "length sample_elf = 121" "is_elf sample_elf"
    "sample_elf ! 4 = 2" "sample_elf ! 5 = 1"
    by (simp_all add: field_def sample_elf_def read_le_def phdr_def is_elf_def)
  then show ?thesis
    by (simp add: loadable_def sample_elf_fields headers_fit_def segment_ok_def dram_from_vec_def)
qed

lemma load_elf_correct_witness:
  "\<exists>tohost d'. load_elf sample_elf (dram_from_vec [7, 7, 7]) = (Inr \<lparr>li_entry = 0x80000000, li_tohost = tohost\<rparr>, d') \<and>
     d_mem d' 0 = 42 \<and> d_mem d' 1 = 0 \<and> d_mem d' 2 = 7"
proof -
  have "dram_inv (dram_from_vec [7, 7, 7])"
    by (simp add: dram_inv_from_vec)
  from load_elf_correct [OF sample_elf_fields(1) this]
  obtain tohost d' where "load_elf sample_elf (dram_from_vec [7, 7, 7]) = (Inr \<lparr>li_entry = 0x80000000, li_tohost = tohost\<rparr>, d')"
    "d_mem d' = fold (place sample_elf) [\<lparr>ph_offset = 120, ph_paddr = 0x80000000, ph_filesz = 1, ph_memsz = 2\<rparr>]
      (d_mem (dram_from_vec [7, 7, 7]))"
    unfolding if_P [OF sample_elf_loadable] sample_elf_fields by blast
  then show ?thesis
    by (auto simp: place_def sample_elf_fields copy_in_def dram_from_vec_def)
qed

end
