(* ===== verification/Hart_Run.thy ===== *)
theory Hart_Run
  imports Hart_Inv
begin

text \<open>
  A hart's turn: what steps, the delivery of mailbox messages and the run loop keep, and how far a turn gets. The
  locale \<open>turn_contract\<close> extends the contract of the instructions to traps, fetches and messages; it is
  interpreted for a hart that sits in its slot of a machine.
\<close>

section \<open>The contract of a turn\<close>

locale turn_contract = hart_contract +
  assumes kp_enter: "P c \<Longrightarrow> P (enter_trap cause tval epc intr c)"
    and kp_fill: "P c \<Longrightarrow> \<not> bit (i_length i) 0 \<Longrightarrow> P (cache_fill i c)"
    and kp_epoch: "P c \<Longrightarrow> P (c\<lparr>c_dcache_epoch := e\<rparr>)"
    and kp_follow: "P c \<Longrightarrow> P (c\<lparr>c_next_pc := t\<rparr>)"
    and kp_last_trap: "P c \<Longrightarrow> P (c\<lparr>c_last_trap := l\<rparr>)"
    and kp_retire: "P c \<Longrightarrow> P (retire c)"
    and kp_mailbox: "P c \<Longrightarrow> P (apply_mailbox c)"
    and kp_touched: "P c \<Longrightarrow> P (c\<lparr>c_device_touched := w\<rparr>)"
    and kp_live: "P c \<Longrightarrow> P (publish_live c)"
begin

lemma cached: "P c \<Longrightarrow> P (snd (cached_fetch c))"
  using fetch [of c] kp_fill fetch_length [of c]
  by (auto simp: cached_fetch_def Let_def split: prod.split sum.split)

lemma sync: "P c \<Longrightarrow> P (sync_decode_cache c)"
  using kp_epoch [OF kp_flush, of c] by (auto simp: sync_decode_cache_def Let_def)

lemma trap_or_stop: "P c \<Longrightarrow> P (snd (handle_trap_or_stop t c))"
  by (simp add: handle_trap_or_stop_def take_trap_def Let_def kp_last_trap kp_enter)

lemma step:
  assumes "P c"
  shows "P (snd (step_core c))"
proof -
  have f: "P (snd (cached_fetch (sync_decode_cache c)))"
    by (intro cached sync assms)
  have "P e" if "execute i (d\<lparr>c_next_pc := n, c_counter_written := w\<rparr>) = (r, e)" "P d" for i d n w r e
    using execute [OF kp_counter [OF kp_follow [OF that(2)]]] that(1) by (metis snd_conv)
  then show ?thesis
    using f assms kp_enter kp_retire trap_or_stop
    by (auto simp: step_core_def take_interrupt_def split: option.split sum.split prod.split)
qed

lemma ready: "P c \<Longrightarrow> P (snd (runnable c))"
  by (simp add: runnable_def Let_def kp_mailbox kp_waiting)

lemma core_loop: "P c \<Longrightarrow> P (snd (run_core_loop k m n c))"
proof (induction k arbitrary: n c)
  case (Suc k)
  obtain go d where d: "(if c_waiting_for_interrupt c then runnable c else (True, c)) = (go, d)"
    by fastforce
  then have "P d"
    using Suc.prems ready [of c] by (auto split: if_splits)
  then have "P (snd (step_core d))"
    by (rule step)
  then show ?case
    using \<open>P d\<close> d Suc.IH kp_touched kp_live by (auto simp: Let_def split: sum.split prod.split)
qed simp

lemma turn: "P c \<Longrightarrow> P (snd (run_core k c))"
  by (simp add: run_core_def Let_def core_loop kp_touched)

end

section \<open>A hart in its slot\<close>

text \<open>The hart with a given identifier, among a given number of harts, with the invariant of a hart.\<close>

definition slot :: "u32 \<Rightarrow> nat \<Rightarrow> cpu \<Rightarrow> bool" where
  "slot i n c \<longleftrightarrow> cpu_inv c \<and> c_hartid c = i \<and> length (c_peers c) = n"

definition place_of :: "cpu \<Rightarrow> u32 \<times> nat" where
  "place_of c = (c_hartid c, length (c_peers c))"

lemma slot_place: "slot i n c \<longleftrightarrow> cpu_inv c \<and> place_of c = (i, n)"
  by (auto simp: slot_def place_of_def)

lemma place_simps:
  "place_of (write_reg r v c) = place_of c" "place_of (snd (read_reg r c)) = place_of c"
  "place_of (snd (alu opr a b c)) = place_of c" "place_of (snd (hart_translate va ty p c)) = place_of c"
  "place_of (snd (hart_load pa n ty c)) = place_of c" "place_of (snd (hart_store pa n v c)) = place_of c"
  "place_of (note_store pa n c) = place_of c" "place_of (update_mailbox k f c) = place_of c"
  "place_of (set_own f c) = place_of c" "place_of (set_return e w c) = place_of c"
  "place_of (flush_decode_cache c) = place_of c" "place_of (remote_fence c) = place_of c"
  "place_of (set_parked z c) = place_of c" "place_of (clear_reservation c) = place_of c"
  by (simp_all add: place_of_def read_reg_def write_reg_def alu_def hart_translate_def hart_load_def hart_store_def
      note_store_def update_mailbox_def set_own_def set_return_def flush_decode_cache_def remote_fence_def
      set_parked_def clear_reservation_def Let_def split_beta split: option.split)

lemma place_fields:
  "place_of (c\<lparr>c_csrs := s\<rparr>) = place_of c" "place_of (c\<lparr>c_bus := b\<rparr>) = place_of c"
  "place_of (c\<lparr>c_stdout := out\<rparr>) = place_of c" "place_of (c\<lparr>c_halted := h, c_sbi_shutdown := q\<rparr>) = place_of c"
  "place_of (c\<lparr>c_bus := b, c_csrs := s\<rparr>) = place_of c" "place_of (c\<lparr>c_waiting_for_interrupt := w\<rparr>) = place_of c"
  by (simp_all add: place_of_def)

lemma place_ecall: "place_of (snd (handle_ecall c)) = place_of c"
proof -
  have ipi: "place_of (sbi_ipi fid a0 c') = place_of c'" and fence: "place_of (sbi_rfence fid a0 c') = place_of c'"
    for fid a0 c'
    by (auto simp: sbi_ipi_def sbi_rfence_def Let_def split_beta place_simps place_fields split: option.split
        intro!: fold_inv [of "\<lambda>d. place_of d = place_of c'"])
  show ?thesis
    unfolding handle_ecall_def
    by (simp add: Let_def split_beta ipi fence place_simps place_fields sbi_set_timer_def sbi_base_def sbi_hsm_def)
qed

lemma place_mailbox: "place_of (apply_mailbox c) = place_of c"
proof -
  have "place_of (start_at a z d) = place_of d" for a z d
    unfolding start_at_def Let_def place_simps by (simp add: place_of_def set_parked_def set_own_def update_mailbox_def)
  then show ?thesis
    by (simp add: apply_mailbox_def Let_def place_simps place_fields)
qed

lemma inv_start: "cpu_inv c \<Longrightarrow> cpu_inv (start_at a z c)"
  unfolding start_at_def Let_def
  by (intro inv_caches inv_registers)
    (simp add: cpu_inv_def set_parked_def set_own_def update_mailbox_def csr_inv_ops csr_inv_write)

lemma inv_mailbox: "cpu_inv c \<Longrightarrow> cpu_inv (apply_mailbox c)"
  unfolding apply_mailbox_def Let_def
  by (simp add: inv_start inv_caches inv_own_ipi mailbox_frame)

lemma place_fill: "place_of (cache_fill i c) = place_of c"
  using place_simps(4) [of "c_pc c" Instruction "c_priv c" c]
  by (auto simp: cache_fill_def Let_def place_of_def split: prod.split sum.split)

interpretation hs: turn_contract "slot i n" for i n
proof unfold_locales
  fix c :: cpu and e :: decoded_inst assume "slot i n c" "\<not> bit (i_length e) 0"
  then show "slot i n (cache_fill e c)"
    by (simp add: slot_place place_fill inv_fill)
next
  fix c :: cpu assume "slot i n c"
  then show "slot i n (publish_live c)"
    by (auto simp: publish_live_def slot_def cpu_inv_def bus_inv_def ranges_ok_def)
next
  fix c cause tval epc intr assume c: "slot i n c"
  have "place_of (enter_trap cause tval epc intr c) = place_of c"
    unfolding enter_trap_def Let_def by (simp add: place_simps) (simp add: place_of_def)
  with c show "slot i n (enter_trap cause tval epc intr c)"
    by (simp add: slot_place inv_enter_trap)
qed (simp_all add: slot_place hi.state_rules hi.kp_csr hi.kp_mret hi.kp_sret hi.kp_ecall place_simps place_ecall
    place_mailbox inv_mailbox,
  simp_all add: place_of_def cpu_inv_def execute_mret_def execute_sret_def retire_def Let_def csr_inv_ops, auto)

section \<open>How far a turn gets\<close>

lemma ready_awake: "runnable c = (True, d) \<Longrightarrow> \<not> c_waiting_for_interrupt d"
  by (auto simp: runnable_def Let_def split: if_splits)

lemma touched_frame:
  "c_device_touched (write_reg r v c) = c_device_touched c" "c_device_touched (set_own f c) = c_device_touched c"
  "c_device_touched (remote_fence c) = c_device_touched c" "c_device_touched (clear_reservation c) = c_device_touched c"
  "c_device_touched (set_parked z c) = c_device_touched c"
  by (simp_all add: write_reg_def set_own_def update_mailbox_def remote_fence_def flush_decode_cache_def
      clear_reservation_def set_parked_def split: option.split)

lemma ready_touched: "c_device_touched (snd (runnable c)) = c_device_touched c"
proof -
  have "c_device_touched (start_at a z d) = c_device_touched d" for a z d
    by (simp add: start_at_def Let_def touched_frame)
  then have "c_device_touched (apply_mailbox c) = c_device_touched c"
    by (simp add: apply_mailbox_def Let_def touched_frame)
  then show ?thesis
    by (simp add: runnable_def Let_def)
qed

text \<open>The number of steps is within the budget.\<close>

lemma core_loop_bound:
  "unat n + k < 2 ^ 64 \<Longrightarrow> run_core_loop k m n c = ((n', f), c') \<Longrightarrow> n \<le> n' \<and> unat n' \<le> unat n + k"
proof (induction k arbitrary: n c)
  case (Suc k)
  have s: "unat (n + 1) = unat n + 1"
    using Suc.prems(1) by (simp add: unat_word_ariths)
  then have "n \<le> n + 1"
    by (simp add: word_le_nat_alt)
  then have one: "n \<le> n + 1 \<and> unat (n + 1) \<le> unat n + Suc k"
    using s by simp
  have loop: "n \<le> n' \<and> unat n' \<le> unat n + Suc k" if "run_core_loop k m (n + 1) d = ((n', f), c')" for d
    using Suc.IH [OF _ that] Suc.prems(1) s one by (auto simp: word_le_nat_alt)
  obtain go d where "(if c_waiting_for_interrupt c then runnable c else (True, c)) = (go, d)"
    by fastforce
  moreover obtain r e where "step_core d = (r, e)"
    by fastforce
  ultimately show ?case
    using Suc.prems(2) one loop by (auto simp: Let_def split: if_splits sum.splits)
qed simp

lemma turn_bound: "run_core k c = ((n, f), c') \<Longrightarrow> n \<le> k"
  using core_loop_bound [of 0 "unat k"] unsigned_less [of k, where 'a = nat] by (auto simp: run_core_def Let_def word_le_nat_alt)

text \<open>
  A turn that did nothing was the turn of a hart that sleeps; it has not touched a device.
\<close>

lemma turn_progress:
  assumes "run_core k c = ((n, None), c')" "0 < k" "n = 0"
  shows "c_waiting_for_interrupt c" "\<not> c_device_touched c'"
proof -
  let ?c = "c\<lparr>c_device_touched := False\<rparr>"
  obtain j where j: "unat k = Suc j"
    using assms(2) by (metis not0_implies_Suc unat_gt_0 word_gt_0 less_numeral_extra(3))
  have more: "run_core_loop j m 1 d \<noteq> ((0, None), c')" for m d
    using core_loop_bound [of 1 j m d 0 None c'] j unsigned_less [of k, where 'a = nat] by auto
  obtain go d where d: "(if c_waiting_for_interrupt ?c then runnable ?c else (True, ?c)) = (go, d)"
    by fastforce
  have "\<not> go \<and> c' = d"
    using assms(1,3) j d more
    by (auto simp: run_core_def Let_def split: if_splits prod.splits sum.splits)
  then show "c_waiting_for_interrupt c" "\<not> c_device_touched c'"
    using d ready_touched [of ?c] by (auto split: if_splits)
qed

end
