(* ===== verification/Platform.thy ===== *)
theory Platform
  imports Hart_Run "HOL-Library.Stream"
begin

text \<open>
  The machine, \<open>src/src/platform.rs\<close>: harts that take turns on one bus. The harts share the bus, the
  mailboxes and the host's standard output by reference; the machine owns the one copy and lends it to the hart
  whose turn it is. The devices the machine drives are the ones attached to its bus, so \<open>wire\<close> only records that
  they are there. What the host does between two polls of the devices (keyboard input, time of day) is an element
  of the stream \<open>p_world\<close>. The debugger's hook is an element of a codatatype of objects; \<open>hook_shared\<close> is the state the hook
  shares with the debugger that installed it.
\<close>

section \<open>State\<close>

codatatype 's hook = Hook (hook_call: "cpu \<Rightarrow> bool \<times> cpu \<times> 's hook") (hook_shared: 's)

record host_tick =
  ht_chunks :: "u8 list list"
  ht_alive :: bool
  ht_ns :: u64

record 's platform =
  p_bus :: bus
  p_mail :: "mailbox list"
  p_stdout :: "u8 list"
  p_world :: "host_tick stream"
  p_harts :: "cpu list"
  p_own_clock :: clock
  p_wired :: bool
  p_uart_irq :: u32
  p_quantum :: u64
  p_before_step :: "'s hook option"
  p_hook_stopped :: bool
  p_hook_hart :: u32
  p_halted :: bool
  p_user_quit :: bool
  p_sbi_shutdown :: bool
  p_stalled :: bool
  p_fault_hart :: u32
  p_tohost_addr :: u64
  p_tohost_value :: u64
  p_retired :: u64
  p_since_host_poll :: u64

definition platform_new :: "host_tick stream \<Rightarrow> bus \<Rightarrow> u32 \<Rightarrow> 's platform" where
  "platform_new world b num_harts =
     (let n = unat (max num_harts 1) in
      \<lparr>p_bus = b, p_mail = replicate n (mailbox_new False), p_stdout = [], p_world = world,
       p_harts = map (\<lambda>i. (cpu_new b)\<lparr>c_hartid := of_nat i, c_csrs := csr_set_hartid (of_nat i) csr_new\<rparr>) [0..<n],
       p_own_clock = clock_new, p_wired = False, p_uart_irq = 0, p_quantum = 256, p_before_step = None,
       p_hook_stopped = False, p_hook_hart = 0, p_halted = False, p_user_quit = False, p_sbi_shutdown = False,
       p_stalled = False, p_fault_hart = 0, p_tohost_addr = 0, p_tohost_value = 0, p_retired = 0,
       p_since_host_poll = 0\<rparr>)"

text \<open>A hart's view of the machine, and an operation of the hart on the machine.\<close>

definition lend :: "'s platform \<Rightarrow> cpu \<Rightarrow> cpu" where
  "lend p c = c\<lparr>c_bus := p_bus p, c_peers := p_mail p, c_stdout := p_stdout p\<rparr>"

definition with_hart :: "nat \<Rightarrow> (cpu \<Rightarrow> 'a \<times> cpu) \<Rightarrow> 's platform \<Rightarrow> 'a \<times> 's platform" where
  "with_hart i f p =
     (let (r, c) = f (lend p (p_harts p ! i))
      in (r, p\<lparr>p_bus := c_bus c, p_mail := c_peers c, p_stdout := c_stdout c, p_harts := (p_harts p)[i := c]\<rparr>))"

definition with_clock :: "(clock \<Rightarrow> clock) \<Rightarrow> 's platform \<Rightarrow> 's platform" where
  "with_clock f p =
     (if p_wired p then p\<lparr>p_bus := (p_bus p)\<lparr>b_clock := f (b_clock (p_bus p))\<rparr>\<rparr>
      else p\<lparr>p_own_clock := f (p_own_clock p)\<rparr>)"

section \<open>Setting up\<close>

definition wire :: "u32 \<Rightarrow> 's platform \<Rightarrow> 's platform" where
  "wire uart_irq p =
     p\<lparr>p_harts := map (\<lambda>h. h\<lparr>c_clock := True, c_clint := True, c_uart := True\<rparr>) (p_harts p),
       p_wired := True, p_uart_irq := uart_irq\<rparr>"

definition set_idle_on_wfi :: "bool \<Rightarrow> 's platform \<Rightarrow> 's platform" where
  "set_idle_on_wfi on p = p\<lparr>p_harts := map (\<lambda>h. h\<lparr>c_idle_on_wfi := on\<rparr>) (p_harts p)\<rparr>"

definition delegate :: "cpu \<Rightarrow> cpu" where
  "delegate h =
     (let s = csr_write MEDELEG 0xffff (c_csrs h);
          s = csr_write MIDELEG 0xffff s;
          s = csr_write MIE (MIP_SEIP OR MIP_STIP OR MIP_SSIP) s;
          s = csr_write MCOUNTEREN 0xffffffff s;
          s = csr_write SCOUNTEREN 0xffffffff s
      in h\<lparr>c_sbi_enabled := True, c_csrs := s, c_trap_fatal_without_handler := False\<rparr>)"

definition enter_supervisor :: "u64 \<Rightarrow> u64 \<Rightarrow> 's platform \<Rightarrow> 's platform" where
  "enter_supervisor entry dtb_addr p =
     (let p = set_idle_on_wfi True p;
          p = p\<lparr>p_harts := map delegate (p_harts p)\<rparr>;
          boot = (p_harts p ! 0)\<lparr>c_priv := PRIV_SUPERVISOR, c_pc := entry\<rparr>;
          boot = write_reg 11 dtb_addr (write_reg 10 0 boot);
          p = p\<lparr>p_harts := (p_harts p)[0 := boot]\<rparr>
      in fold (\<lambda>i p. snd (with_hart i (\<lambda>h. ((), set_parked True h)) p)) [1..<length (p_harts p)] p)"

section \<open>Devices and stop conditions\<close>

text \<open>What the host has done since the last poll: typed chunks, a closed input, the time of day.\<close>

definition host_arrives :: "'s platform \<Rightarrow> 's platform" where
  "host_arrives p =
     (let t = shd (p_world p); b = p_bus p; u = b_uart b;
          u = (case ua_host_rx u of
                 None \<Rightarrow> u
               | Some chunks \<Rightarrow> u\<lparr>ua_host_rx := Some (chunks @ ht_chunks t), ua_host_alive := (ua_host_alive u \<and> ht_alive t)\<rparr>)
      in p\<lparr>p_world := stl (p_world p), p_bus := b\<lparr>b_uart := u, b_host_ns := ht_ns t\<rparr>\<rparr>)"

definition poll_console :: "'s platform \<Rightarrow> 's platform" where
  "poll_console p =
     (let (yield, u) = take_yield_request (b_uart (p_bus p));
          since = (if yield \<and> host_input_active u then 4096 else p_since_host_poll p)
      in if since \<ge> 4096
         then p\<lparr>p_bus := (p_bus p)\<lparr>b_uart := poll_host_input u\<rparr>, p_since_host_poll := 0\<rparr>
         else p\<lparr>p_bus := (p_bus p)\<lparr>b_uart := u\<rparr>, p_since_host_poll := since\<rparr>)"

definition update_lines :: "nat \<Rightarrow> 's platform \<Rightarrow> 's platform" where
  "update_lines i p =
     (let h = p_harts p ! i; b = p_bus p; s = clint_update (b_clock b) (b_clint b) (c_hartid h) (c_csrs h);
          (s, pl) = plic_update (c_hartid h) s (b_plic b)
      in p\<lparr>p_bus := b\<lparr>b_plic := pl\<rparr>, p_harts := (p_harts p)[i := h\<lparr>c_csrs := s\<rparr>]\<rparr>)"

definition poll_devices :: "'s platform \<Rightarrow> 's platform" where
  "poll_devices p =
     (let p = host_arrives p;
          p = (if p_wired p then poll_console p else p);
          b = bus_poll_devices (p_bus p);
          p = p\<lparr>p_bus := b\<rparr>
      in if p_wired p
         then fold update_lines [0..<length (p_harts p)]
           (p\<lparr>p_bus := b\<lparr>b_plic := set_pending (p_uart_irq p) (uart_interrupting (b_uart b)) (b_plic b)\<rparr>\<rparr>)
         else p)"

definition check_tohost :: "'s platform \<Rightarrow> 's platform" where
  "check_tohost p =
     (if p_tohost_addr p = 0 then p
      else
        (case bus_load (p_tohost_addr p) 8 Load (p_bus p) of
           (Inl t, b) \<Rightarrow> p\<lparr>p_bus := b\<rparr>
         | (Inr v, b) \<Rightarrow> if v \<noteq> 0 then p\<lparr>p_bus := b, p_tohost_value := v, p_halted := True\<rparr> else p\<lparr>p_bus := b\<rparr>))"

definition check_stop :: "'s platform \<Rightarrow> bool \<times> 's platform" where
  "check_stop p =
     (let p = p\<lparr>p_halted := (p_halted p \<or> list_ex c_halted (p_harts p)),
                p_sbi_shutdown := (p_sbi_shutdown p \<or> list_ex (\<lambda>h. c_halted h \<and> c_sbi_shutdown h) (p_harts p))\<rparr>;
          b = p_bus p;
          p = (if p_wired p \<and> (sy_poweroff (b_syscon b) \<or> sy_reboot (b_syscon b)) then p\<lparr>p_halted := True\<rparr> else p);
          p = (if p_wired p \<and> ua_exit_requested (b_uart b) then p\<lparr>p_halted := True, p_user_quit := True\<rparr> else p);
          p = check_tohost p;
          p = (if p_halted p
               then p\<lparr>p_harts := (p_harts p)[0 := (p_harts p ! 0)\<lparr>c_halted := True, c_user_quit := p_user_quit p,
                        c_sbi_shutdown := p_sbi_shutdown p, c_htif_tohost_value := p_tohost_value p\<rparr>]\<rparr>
               else p)
      in (p_halted p, p))"

abbreviation (input) HORIZON :: u64 where "HORIZON \<equiv> 0x1000000000"

definition consider_deadline :: "u64 \<Rightarrow> u64 \<Rightarrow> u64 \<Rightarrow> u64" where
  "consider_deadline now deadline best =
     (if deadline > now \<and> deadline - now \<le> HORIZON then min best deadline else best)"

definition hart_deadline :: "u64 \<Rightarrow> 's platform \<Rightarrow> cpu \<Rightarrow> u64 \<Rightarrow> u64" where
  "hart_deadline now p h best =
     (if parked (lend p h) then best
      else
        (let best = consider_deadline now (clint_mtimecmp (c_hartid h) (b_clint (p_bus p))) best
         in if sstc_enabled (c_csrs h) then consider_deadline now (csr_read STIMECMP (c_csrs h)) best else best))"

definition fast_forward_idle :: "'s platform \<Rightarrow> bool \<times> 's platform" where
  "fast_forward_idle p =
     (if \<not> p_wired p then (False, p)
      else
        (let best = fold (hart_deadline (ck_mtime (b_clock (p_bus p))) p) (p_harts p) (NOT 0)
         in if best = NOT 0 then (False, p)
            else (True, p\<lparr>p_bus := (p_bus p)\<lparr>b_clock := advance_to best (b_clock (p_bus p))\<rparr>\<rparr>)))"

section \<open>The scheduler\<close>

datatype turn = Turn u64 | HookStop | Fatal trap

text \<open>The debugger's look at a hart, then as much of the hart's quantum as it gets.\<close>

definition look :: "nat \<Rightarrow> 's platform \<Rightarrow> bool \<times> 's platform" where
  "look i p =
     (case p_before_step p of
        None \<Rightarrow> (False, p)
      | Some hk \<Rightarrow>
          (let ((stop, hk), p) = with_hart i (\<lambda>c. let (stop, c, hk) = hook_call hk c in ((stop, hk), c)) p
           in (stop, p\<lparr>p_before_step := Some hk\<rparr>)))"

text \<open>A part of the quantum: the steps done, a fatal trap, and whether the turn is over without one.\<close>

definition advance_hart :: "nat \<Rightarrow> u64 \<Rightarrow> 's platform \<Rightarrow> (u64 \<times> trap option \<times> bool) \<times> 's platform" where
  "advance_hart i budget p =
     (let ((n, r), p) = with_hart i (\<lambda>h.
            let ((n, fault), h) = run_core (if p_before_step p \<noteq> None then 1 else budget) h
            in ((n, fault, c_halted h \<or> parked h \<or> \<not> c_device_touched h), h)) p
      in ((n, r), p\<lparr>p_retired := p_retired p + n, p_since_host_poll := p_since_host_poll p + n\<rparr>))"

lemma advance_progress:
  assumes "advance_hart i budget p = ((n, None, over), p')" "\<not> over" "0 < budget"
  shows "0 < n"
proof (rule ccontr)
  let ?k = "if p_before_step p \<noteq> None then 1 else budget"
  obtain m f c where r: "run_core ?k (lend p (p_harts p ! i)) = ((m, f), c)"
    by (metis surj_pair)
  then have m: "m = n" "f = None" "c_device_touched c"
    using assms(1,2) by (auto simp: advance_hart_def with_hart_def Let_def)
  have "0 < ?k"
    using assms(3) by simp
  moreover assume "\<not> 0 < n"
  ultimately show False
    using turn_progress(2) [OF r [unfolded m(2)]] m(1,3) by (simp add: word_gt_0)
qed

function hart_quantum :: "nat \<Rightarrow> u64 \<Rightarrow> u64 \<Rightarrow> 's platform \<Rightarrow> turn \<times> 's platform" where
  "hart_quantum i budget used p =
     (if budget = 0 then (Turn used, p)
      else
        (case look i p of (stop, p) \<Rightarrow>
         if stop then (HookStop, p\<lparr>p_hook_stopped := True, p_hook_hart := c_hartid (p_harts p ! i)\<rparr>)
         else
           (case advance_hart i budget p of ((n, fault, over), p) \<Rightarrow>
            (case fault of
               Some t \<Rightarrow> (Fatal t, p\<lparr>p_fault_hart := c_hartid (p_harts p ! i)\<rparr>)
             | None \<Rightarrow>
                 if over then (Turn (used + n), p)
                 else hart_quantum i (budget - min budget n) (used + n) (poll_devices p)))))"
  by pat_completeness auto

termination
proof (relation "measure (\<lambda>(i, budget, used, p). unat budget)")
  fix i budget used p r p' stop q s n t fault over u
  assume "budget \<noteq> 0" "\<not> stop" "fault = None" "\<not> over" "(n, t) = s" "(fault, over) = t"
    and "(s, u) = advance_hart i budget q"
  then have "0 < n"
    using advance_progress [of i budget q n over u] by (auto simp: word_gt_0)
  then have "unat (budget - min budget n) < unat budget"
    using \<open>budget \<noteq> 0\<close>
    by (auto simp: min_def unat_sub word_le_nat_alt word_less_nat_alt unat_gt_0)
  then show "((i, budget - min budget n, used + n, poll_devices u), i, budget, used, p)
      \<in> measure (\<lambda>(i, budget, used, p). unat budget)"
    by simp
qed simp

declare hart_quantum.simps [simp del]

text \<open>One round: every runnable hart gets its quantum, in order. The longest of them is the round's length.\<close>

datatype round = Round bool u64 | RoundHook | RoundFatal trap

fun harts_round :: "u64 \<Rightarrow> nat list \<Rightarrow> bool \<Rightarrow> u64 \<Rightarrow> 's platform \<Rightarrow> round \<times> 's platform" where
  "harts_round max_steps [] any_ran round_max p = (Round any_ran round_max, p)"
| "harts_round max_steps (i # is) any_ran round_max p =
     (let (go, p) = with_hart i runnable p in
      if \<not> go then harts_round max_steps is any_ran round_max p
      else
        (let (u, p) = with_hart i (\<lambda>h. ((), h\<lparr>c_round_start_instret := c_instret h\<rparr>)) p;
             p = with_clock (\<lambda>ck. ck\<lparr>ck_live := 0\<rparr>) p
         in case hart_quantum i (min (p_quantum p) (max_steps - p_retired p)) 0 p of
              (HookStop, p) \<Rightarrow> (RoundHook, p)
            | (Fatal t, p) \<Rightarrow> (RoundFatal t, p)
            | (Turn used, p) \<Rightarrow>
                if p_retired p \<ge> max_steps then (Round True (max round_max used), p)
                else harts_round max_steps is True (max round_max used) p))"

text \<open>
  What happens when no hart can run. The machine waits for something outside that is still expected to answer, or
  for the keyboard, or skips to the next deadline; otherwise it counts towards a stall.
\<close>

definition idle_round :: "u32 \<Rightarrow> 's platform \<Rightarrow> u32 \<times> 's platform" where
  "idle_round consecutive p =
     (let p = p\<lparr>p_since_host_poll := p_since_host_poll p + 64\<rparr>;
          input = (p_wired p \<and> host_input_active (b_uart (p_bus p)))
      in if bus_io_pending (p_bus p) then (0, with_clock (clock_tick 2000) p)
         else if input then (0, (with_clock (clock_tick 10000) p)\<lparr>p_since_host_poll := 4096\<rparr>)
         else
           (let (skipped, p) = fast_forward_idle p in
            if skipped then (consecutive, p)
            else if p_wired p \<and> host_input_active (b_uart (p_bus p)) then (consecutive, p\<lparr>p_since_host_poll := 4096\<rparr>)
            else (consecutive + 1, p)))"

definition platform_round :: "u64 \<Rightarrow> u32 \<Rightarrow> u64 \<Rightarrow> 's platform \<Rightarrow> (unit res + u32 \<times> u64) \<times> 's platform" where
  "platform_round max_steps consecutive idle_rounds p =
     (case harts_round max_steps [0..<length (p_harts p)] False 0 p of
        (RoundHook, p) \<Rightarrow> (Inl (Inr ()), p)
      | (RoundFatal t, p) \<Rightarrow> (Inl (Inl t), p)
      | (Round any_ran round_max, p) \<Rightarrow>
          if any_ran then
            (let p = with_clock (\<lambda>ck. clock_tick round_max (ck\<lparr>ck_live := 0\<rparr>)) p;
                 (stop, p) = check_stop (poll_devices p)
             in if stop then (Inl (Inr ()), p) else (Inr (0, idle_rounds), p))
          else
            (let idle_rounds = idle_rounds + 1 in
             if idle_rounds > max_steps then (Inl (Inr ()), p)
             else
               (let (consecutive, p) = idle_round consecutive p in
                if consecutive > 4 then (Inl (Inr ()), p\<lparr>p_stalled := True\<rparr>)
                else
                  (let (stop, p) = check_stop (poll_devices p)
                   in if stop then (Inl (Inr ()), p) else (Inr (consecutive, idle_rounds), p)))))"

partial_function (option) platform_loop :: "u64 \<Rightarrow> u32 \<Rightarrow> u64 \<Rightarrow> 's platform \<Rightarrow> (unit res \<times> 's platform) option" where
  "platform_loop max_steps consecutive idle_rounds p =
     (if p_retired p < max_steps then
        (case platform_round max_steps consecutive idle_rounds p of
           (Inl r, p) \<Rightarrow> Some (r, p)
         | (Inr s, p) \<Rightarrow> platform_loop max_steps (fst s) (snd s) p)
      else Some (Inr (), p))"

definition platform_run :: "u64 \<Rightarrow> 's platform \<Rightarrow> (unit res \<times> 's platform) option" where
  "platform_run max_steps p = platform_loop max_steps 0 0 (p\<lparr>p_hook_stopped := False\<rparr>)"

definition step_hart :: "u32 \<Rightarrow> 's platform \<Rightarrow> unit res \<times> 's platform" where
  "step_hart hart p =
     (let i = unat hart in
      if i \<ge> length (p_harts p) then (Inr (), p)
      else
        (let (go, p) = with_hart i runnable p in
         if \<not> go then (Inr (), p)
         else
           (let (u, p) = with_hart i (\<lambda>h. ((), h\<lparr>c_round_start_instret := c_instret h\<rparr>)) p;
                p = with_clock (\<lambda>ck. ck\<lparr>ck_live := 0\<rparr>) p;
                ((n, fault), p) = with_hart i (run_core 1) p;
                p = p\<lparr>p_retired := p_retired p + n\<rparr>
            in case fault of
                 Some t \<Rightarrow> (Inl t, p\<lparr>p_fault_hart := hart\<rparr>)
               | None \<Rightarrow>
                   (let p = with_clock (\<lambda>ck. (clock_tick n ck)\<lparr>ck_live := 0\<rparr>) p
                    in (Inr (), snd (check_stop (poll_devices p)))))))"

definition refresh :: "'s platform \<Rightarrow> 's platform" where
  "refresh p = snd (check_stop (poll_devices p))"

end
