(* ===== verification/Machine.thy ===== *)
theory Machine
  imports Platform
begin

text \<open>
  The machine as a whole: the invariant that ties its harts to the shared bus, what every operation of the scheduler
  keeps of it, and that a run comes to an end.
\<close>

section \<open>The invariant\<close>

text \<open>
  A hook is well behaved when it leaves the hart in its slot with the hart's invariant and does not put it to sleep.
\<close>

coinductive hook_ok :: "'s hook \<Rightarrow> bool" where
  hook_okI: "(\<And>i n c stop c' hk'. hook_call hk c = (stop, c', hk') \<Longrightarrow>
      hook_ok hk' \<and> (slot i n c \<longrightarrow> slot i n c') \<and> c_waiting_for_interrupt c' = c_waiting_for_interrupt c)
    \<Longrightarrow> hook_ok hk"

inductive_cases hook_okE: "hook_ok hk"

definition machine_inv :: "'s platform \<Rightarrow> bool" where
  "machine_inv p \<longleftrightarrow>
     p_harts p \<noteq> [] \<and> length (p_harts p) < 2 ^ 32 \<and>
     (\<forall>i<length (p_harts p). slot (of_nat i) (length (p_harts p)) (lend p (p_harts p ! i))) \<and>
     (\<forall>hk. p_before_step p = Some hk \<longrightarrow> hook_ok hk)"

lemma slot_lend:
  "slot i n (lend p c) \<longleftrightarrow> csr_inv (c_csrs c) \<and> bus_inv (p_bus p) \<and> c_hartid c = i \<and> unat i < n \<and> length (p_mail p) = n \<and>
     c_priv c \<le> PRIV_MACHINE \<and> (\<forall>k. \<not> bit (i_length (de_inst (c_dcache c k))) 0)"
  by (auto simp: slot_def lend_def cpu_inv_def)

lemma machine_fields [simp]:
  "machine_inv (p\<lparr>p_world := w\<rparr>) = machine_inv p" "machine_inv (p\<lparr>p_own_clock := ck\<rparr>) = machine_inv p"
  "machine_inv (p\<lparr>p_hook_stopped := s\<rparr>) = machine_inv p" "machine_inv (p\<lparr>p_hook_hart := h\<rparr>) = machine_inv p"
  "machine_inv (p\<lparr>p_halted := s\<rparr>) = machine_inv p" "machine_inv (p\<lparr>p_user_quit := s\<rparr>) = machine_inv p"
  "machine_inv (p\<lparr>p_sbi_shutdown := s\<rparr>) = machine_inv p" "machine_inv (p\<lparr>p_stalled := s\<rparr>) = machine_inv p"
  "machine_inv (p\<lparr>p_fault_hart := h\<rparr>) = machine_inv p" "machine_inv (p\<lparr>p_tohost_value := v\<rparr>) = machine_inv p"
  "machine_inv (p\<lparr>p_retired := v\<rparr>) = machine_inv p" "machine_inv (p\<lparr>p_since_host_poll := v\<rparr>) = machine_inv p"
  "machine_inv (p\<lparr>p_wired := s\<rparr>) = machine_inv p" "machine_inv (p\<lparr>p_uart_irq := h\<rparr>) = machine_inv p"
  by (simp_all add: machine_inv_def slot_lend)

lemma machine_busD: "machine_inv p \<Longrightarrow> bus_inv (p_bus p)"
  by (auto simp: machine_inv_def slot_lend)

lemma machine_bus: "machine_inv p \<Longrightarrow> bus_inv b \<Longrightarrow> machine_inv (p\<lparr>p_bus := b\<rparr>)"
  by (simp add: machine_inv_def slot_lend)

lemma machine_hart:
  fixes p :: "'s platform"
  assumes "machine_inv p" "csr_inv (c_csrs h)" "c_hartid h = c_hartid (p_harts p ! i)" "c_priv h \<le> PRIV_MACHINE"
    and "c_dcache h = c_dcache (p_harts p ! i)"
  shows "machine_inv (p\<lparr>p_harts := (p_harts p)[i := h]\<rparr>)"
proof (cases "i < length (p_harts p)")
  case True
  then have "slot (of_nat j) (length (p_harts p)) (lend q ((p_harts p)[i := h] ! j))"
    if "j < length (p_harts p)" "p_bus q = p_bus p" "p_mail q = p_mail p" for j and q :: "'s platform"
    using assms that by (auto simp: machine_inv_def slot_lend nth_list_update)
  then show ?thesis
    using assms(1) by (simp add: machine_inv_def)
qed (use assms(1) in \<open>simp add: list_update_beyond\<close>)

lemma machine_hartD:
  assumes "machine_inv p" "i < length (p_harts p)"
  shows "csr_inv (c_csrs (p_harts p ! i))" "c_priv (p_harts p ! i) \<le> PRIV_MACHINE" "c_hartid (p_harts p ! i) = of_nat i"
  using assms by (auto simp: machine_inv_def slot_lend)

lemma machine_with_hart:
  assumes "machine_inv p" "i < length (p_harts p)"
    and "\<And>c. slot (of_nat i) (length (p_harts p)) c \<Longrightarrow> slot (of_nat i) (length (p_harts p)) (snd (f c))"
  shows "machine_inv (snd (with_hart i f p))"
proof -
  let ?n = "length (p_harts p)"
  obtain r c where f: "f (lend p (p_harts p ! i)) = (r, c)"
    by fastforce
  then have c: "slot (of_nat i) ?n c"
    using assms(3) [of "lend p (p_harts p ! i)"] assms(1,2) by (simp add: machine_inv_def)
  then have "bus_inv (c_bus c)" "length (c_peers c) = ?n"
    by (simp_all add: slot_def cpu_inv_def)
  then show ?thesis
    using assms(1,2) c f
    by (auto simp: machine_inv_def with_hart_def Let_def slot_lend nth_list_update) (auto simp: slot_def cpu_inv_def)
qed

section \<open>What the operations keep\<close>

lemma with_hart_frame [rv_frame]:
  "length (p_harts (snd (with_hart i f p))) = length (p_harts p)" "p_quantum (snd (with_hart i f p)) = p_quantum p"
  "p_retired (snd (with_hart i f p)) = p_retired p" "p_before_step (snd (with_hart i f p)) = p_before_step p"
  "p_wired (snd (with_hart i f p)) = p_wired p"
  by (simp_all add: with_hart_def split_beta)

lemma with_clock_frame [rv_frame]:
  "p_harts (with_clock f p) = p_harts p" "p_quantum (with_clock f p) = p_quantum p"
  "p_retired (with_clock f p) = p_retired p" "p_mail (with_clock f p) = p_mail p"
  by (simp_all add: with_clock_def)

lemma bus_clock: "bus_inv b \<Longrightarrow> bus_inv (b\<lparr>b_clock := ck\<rparr>)"
  by (simp add: bus_inv_def ranges_ok_def)

lemma machine_clock: "machine_inv p \<Longrightarrow> machine_inv (with_clock f p)"
  by (simp add: with_clock_def machine_bus bus_clock machine_busD)

lemma machine_arrives:
  assumes "machine_inv p"
  shows "machine_inv (host_arrives p)"
proof -
  let ?u = "b_uart (p_bus p)" and ?t = "shd (p_world p)"
  define u where "u = (case ua_host_rx ?u of None \<Rightarrow> ?u | Some chunks \<Rightarrow>
    ?u\<lparr>ua_host_rx := Some (chunks @ ht_chunks ?t), ua_host_alive := (ua_host_alive ?u \<and> ht_alive ?t)\<rparr>)"
  have b: "bus_inv (p_bus p)"
    by (rule machine_busD [OF assms])
  then have "uart_inv u"
    by (auto simp: bus_inv_def u_def uart_inv_def split: option.split)
  then have "bus_inv ((p_bus p)\<lparr>b_uart := u, b_host_ns := ht_ns ?t\<rparr>)"
    using b by (simp add: bus_inv_def ranges_ok_def)
  then have "machine_inv (p\<lparr>p_world := stl (p_world p), p_bus := (p_bus p)\<lparr>b_uart := u, b_host_ns := ht_ns ?t\<rparr>\<rparr>)"
    using machine_bus [of "p\<lparr>p_world := stl (p_world p)\<rparr>"] assms by simp
  then show ?thesis
    by (simp add: host_arrives_def Let_def u_def)
qed

lemma bus_uart: "bus_inv b \<Longrightarrow> uart_inv u \<Longrightarrow> bus_inv (b\<lparr>b_uart := u\<rparr>)"
  "bus_inv b \<Longrightarrow> plic_inv pl \<Longrightarrow> bus_inv (b\<lparr>b_plic := pl\<rparr>)"
  by (simp_all add: bus_inv_def ranges_ok_def)

lemma bus_parts: "bus_inv b \<Longrightarrow> uart_inv (b_uart b)" "bus_inv b \<Longrightarrow> plic_inv (b_plic b)"
  by (simp_all add: bus_inv_def)

lemma machine_console: "machine_inv p \<Longrightarrow> machine_inv (poll_console p)"
  by (simp add: poll_console_def Let_def split_beta machine_bus bus_uart machine_busD uart_inv_ops(4,5)
      bus_parts)

lemma drive_legal: "csr_inv s \<Longrightarrow> b AND NOT INTERRUPT_MASK = 0 \<Longrightarrow> csr_inv (drive_interrupt on b s)"
  by (simp add: drive_interrupt_def csr_inv_ops)

lemma lines_legal:
  "MIP_MTIP AND NOT INTERRUPT_MASK = 0" "MIP_MSIP AND NOT INTERRUPT_MASK = 0" "MIP_STIP AND NOT INTERRUPT_MASK = 0"
  "MIP_MEIP AND NOT INTERRUPT_MASK = 0" "MIP_SEIP AND NOT INTERRUPT_MASK = 0"
  by (simp_all add: INTERRUPT_MASK_def MIP_MTIP_def MIP_MSIP_def MIP_STIP_def MIP_MEIP_def MIP_SEIP_def MIP_SSIP_def)

lemma lines_inv:
  "csr_inv s \<Longrightarrow> csr_inv (clint_update ck cl h s)" "csr_inv s \<Longrightarrow> csr_inv (fst (plic_update h s pl))"
  "plic_inv pl \<Longrightarrow> plic_inv (snd (plic_update h s pl))"
  by (simp_all add: clint_update_def plic_update_def Let_def split_beta drive_legal lines_legal best_irq_scan(2))

lemma machine_lines: "machine_inv p \<Longrightarrow> i < length (p_harts p) \<Longrightarrow> machine_inv (update_lines i p)"
proof -
  assume p: "machine_inv p" "i < length (p_harts p)"
  let ?h = "p_harts p ! i"
  let ?s = "clint_update (b_clock (p_bus p)) (b_clint (p_bus p)) (c_hartid ?h) (c_csrs ?h)"
  obtain s pl where u: "plic_update (c_hartid ?h) ?s (b_plic (p_bus p)) = (s, pl)"
    by fastforce
  then have "csr_inv s" "plic_inv pl"
    using lines_inv(1,2) [OF machine_hartD(1) [OF p]] lines_inv(2) [of ?s "c_hartid ?h" "b_plic (p_bus p)"]
      lines_inv(3) [of "b_plic (p_bus p)" "c_hartid ?h" ?s] bus_parts [OF machine_busD [OF p(1)]]
    by simp_all
  then have "machine_inv (p\<lparr>p_bus := (p_bus p)\<lparr>b_plic := pl\<rparr>, p_harts := (p_harts p)[i := ?h\<lparr>c_csrs := s\<rparr>]\<rparr>)"
    using machine_hart [OF machine_bus [OF p(1) bus_uart(2) [OF machine_busD [OF p(1)]]], of pl "?h\<lparr>c_csrs := s\<rparr>" i]
      machine_hartD(2) [OF p] by simp
  then show ?thesis
    using u by (simp add: update_lines_def Let_def)
qed

lemma update_lines_frame [rv_frame]:
  "length (p_harts (update_lines i p)) = length (p_harts p)" "p_quantum (update_lines i p) = p_quantum p"
  "p_retired (update_lines i p) = p_retired p"
  by (simp_all add: update_lines_def Let_def split_beta)

lemma machine_all_lines:
  "machine_inv p \<Longrightarrow> set is \<subseteq> {..<length (p_harts p)} \<Longrightarrow> machine_inv (fold update_lines is p) \<and>
     length (p_harts (fold update_lines is p)) = length (p_harts p) \<and>
     p_quantum (fold update_lines is p) = p_quantum p \<and> p_retired (fold update_lines is p) = p_retired p"
  by (induction "is" arbitrary: p) (simp_all add: machine_lines rv_frame)

lemma console_frame [rv_frame]:
  "p_harts (poll_console p) = p_harts p" "p_quantum (poll_console p) = p_quantum p" "p_retired (poll_console p) = p_retired p"
  "p_harts (host_arrives p) = p_harts p" "p_quantum (host_arrives p) = p_quantum p" "p_retired (host_arrives p) = p_retired p"
  by (simp_all add: poll_console_def host_arrives_def Let_def split_beta)

lemma machine_poll:
  assumes "machine_inv p"
  shows "machine_inv (poll_devices p) \<and> length (p_harts (poll_devices p)) = length (p_harts p) \<and>
    p_quantum (poll_devices p) = p_quantum p \<and> p_retired (poll_devices p) = p_retired p"
proof -
  define q where "q = (if p_wired (host_arrives p) then poll_console (host_arrives p) else host_arrives p)"
  define r where "r = q\<lparr>p_bus := bus_poll_devices (p_bus q)\<rparr>"
  define s where "s = r\<lparr>p_bus := (p_bus r)\<lparr>b_plic := set_pending (p_uart_irq r) (uart_interrupting (b_uart (p_bus r))) (b_plic (p_bus r))\<rparr>\<rparr>"
  have "machine_inv q"
    using assms by (simp add: q_def machine_arrives machine_console)
  then have r: "machine_inv r"
    by (simp add: r_def machine_bus bus_inv_poll machine_busD)
  then have "machine_inv s"
    by (simp add: s_def machine_bus bus_uart bus_parts plic_inv_set_pending machine_busD)
  moreover have "length (p_harts s) = length (p_harts p) \<and> p_quantum s = p_quantum p \<and> p_retired s = p_retired p"
    "length (p_harts r) = length (p_harts p) \<and> p_quantum r = p_quantum p \<and> p_retired r = p_retired p"
    by (simp_all add: s_def r_def q_def rv_frame)
  moreover have "poll_devices p = (if p_wired r then fold update_lines [0..<length (p_harts s)] s else r)"
    by (simp add: poll_devices_def Let_def s_def r_def q_def)
  ultimately show ?thesis
    using r machine_all_lines [of s "[0..<length (p_harts s)]"] by (auto simp: atLeast0LessThan)
qed

definition settled :: "'s platform \<Rightarrow> 's platform \<Rightarrow> bool" where
  "settled p q \<longleftrightarrow> machine_inv q \<and> length (p_harts q) = length (p_harts p) \<and> p_quantum q = p_quantum p \<and>
     p_retired q = p_retired p"

lemma settled_poll: "machine_inv p \<Longrightarrow> settled p (poll_devices p)"
  using machine_poll [of p] by (simp add: settled_def)

lemma settled_trans: "settled p q \<Longrightarrow> settled q r \<Longrightarrow> settled p r"
  by (simp add: settled_def)

lemma settled_tohost: "machine_inv p \<Longrightarrow> settled p (check_tohost p)"
proof -
  assume p: "machine_inv p"
  obtain r b where l: "bus_load (p_tohost_addr p) 8 Load (p_bus p) = (r, b)"
    by fastforce
  then have "bus_inv b"
    using bus_inv_load [OF machine_busD [OF p], of "p_tohost_addr p" 8 Load] by simp
  then show ?thesis
    using p l by (auto simp: settled_def check_tohost_def machine_bus split: sum.split)
qed

lemma settled_stop: "machine_inv p \<Longrightarrow> settled p (snd (check_stop p))"
proof -
  assume p: "machine_inv p"
  define q where "q = p\<lparr>p_halted := (p_halted p \<or> list_ex c_halted (p_harts p)),
    p_sbi_shutdown := (p_sbi_shutdown p \<or> list_ex (\<lambda>h. c_halted h \<and> c_sbi_shutdown h) (p_harts p))\<rparr>"
  define r where "r = (if p_wired q \<and> (sy_poweroff (b_syscon (p_bus q)) \<or> sy_reboot (b_syscon (p_bus q)))
    then q\<lparr>p_halted := True\<rparr> else q)"
  define s where "s = (if p_wired r \<and> ua_exit_requested (b_uart (p_bus q)) then r\<lparr>p_halted := True, p_user_quit := True\<rparr> else r)"
  have "settled p s"
    using p by (simp add: settled_def q_def r_def s_def)
  then have t: "settled p (check_tohost s)"
    using settled_tohost settled_trans settled_def by metis
  then have "machine_inv (check_tohost s)" "0 < length (p_harts (check_tohost s))"
    by (auto simp: settled_def machine_inv_def)
  then have "machine_inv ((check_tohost s)\<lparr>p_harts := (p_harts (check_tohost s))[0 := (p_harts (check_tohost s) ! 0)\<lparr>
      c_halted := True, c_user_quit := a, c_sbi_shutdown := b, c_htif_tohost_value := v\<rparr>]\<rparr>)" for a b v
    by (intro machine_hart) (simp_all add: machine_hartD)
  then show ?thesis
    using t unfolding check_stop_def Let_def q_def [symmetric] r_def [symmetric] s_def [symmetric]
    by (simp add: settled_def)
qed

lemma settled_skip: "machine_inv p \<Longrightarrow> settled p (snd (fast_forward_idle p))"
  by (simp add: settled_def fast_forward_idle_def Let_def machine_bus bus_clock machine_busD)

lemma settled_clock: "machine_inv p \<Longrightarrow> settled p (with_clock f p)"
  by (simp add: settled_def machine_clock rv_frame)

lemma settled_hart:
  assumes "machine_inv p" "i < length (p_harts p)"
    and "\<And>c. slot (of_nat i) (length (p_harts p)) c \<Longrightarrow> slot (of_nat i) (length (p_harts p)) (snd (f c))"
  shows "settled p (snd (with_hart i f p))"
  using machine_with_hart [OF assms] by (simp add: settled_def rv_frame)

lemma settled_look:
  assumes "machine_inv p" "i < length (p_harts p)" "look i p = (stop, q)"
  shows "settled p q" "c_waiting_for_interrupt (p_harts q ! i) = c_waiting_for_interrupt (p_harts p ! i)"
    "(p_before_step q = None) = (p_before_step p = None)"
proof -
  let ?f = "\<lambda>hk c. case hook_call hk c of (stop, c, hk) \<Rightarrow> ((stop, hk), c)"
  have h: "hook_ok hk" if "p_before_step p = Some hk" for hk
    using that assms(1) by (simp add: machine_inv_def)
  have ok: "hook_ok (snd (fst (?f hk c))) \<and> (slot k n c \<longrightarrow> slot k n (snd (?f hk c))) \<and>
      c_waiting_for_interrupt (snd (?f hk c)) = c_waiting_for_interrupt c" if "hook_ok hk" for hk c k n
    using that by (cases "hook_call hk c") (auto elim!: hook_okE)
  have *: "settled p q \<and> c_waiting_for_interrupt (p_harts q ! i) = c_waiting_for_interrupt (p_harts p ! i) \<and>
    (p_before_step q = None) = (p_before_step p = None)"
  proof (cases "p_before_step p")
    case (Some hk)
    let ?q = "snd (with_hart i (?f hk) p)"
    have r: "fst (with_hart i (?f hk) p) = fst (?f hk (lend p (p_harts p ! i)))"
      and w: "p_harts ?q ! i = snd (?f hk (lend p (p_harts p ! i)))"
      using assms(2) by (simp_all add: with_hart_def split_beta)
    have "settled p ?q"
      using ok [OF h [OF Some]] by (intro settled_hart assms) auto
    moreover have "q = ?q\<lparr>p_before_step := Some (snd (fst (with_hart i (?f hk) p)))\<rparr>"
      using assms(3) Some by (auto simp: look_def Let_def split_beta)
    ultimately show ?thesis
      using w r ok [OF h [OF Some], of "lend p (p_harts p ! i)"] Some
      by (auto simp: settled_def machine_inv_def slot_lend lend_def)
  qed (use assms in \<open>simp add: look_def settled_def\<close>)
  then show "settled p q" "c_waiting_for_interrupt (p_harts q ! i) = c_waiting_for_interrupt (p_harts p ! i)"
    "(p_before_step q = None) = (p_before_step p = None)"
    by blast+
qed

section \<open>Turns and rounds\<close>

text \<open>Between the two states the machine executed at most the given number of steps.\<close>

definition ran :: "'s platform \<Rightarrow> 's platform \<Rightarrow> nat \<Rightarrow> bool" where
  "ran p q k \<longleftrightarrow> machine_inv q \<and> length (p_harts q) = length (p_harts p) \<and> p_quantum q = p_quantum p \<and>
     unat (p_retired p) \<le> unat (p_retired q) \<and> unat (p_retired q) \<le> unat (p_retired p) + k"

lemma settled_ran: "settled p q \<Longrightarrow> ran p q k"
  by (simp add: settled_def ran_def)

lemma ran_trans: "ran p q k \<Longrightarrow> ran q r l \<Longrightarrow> ran p r (k + l)"
  by (simp add: ran_def)

lemma ran_mono: "ran p q k \<Longrightarrow> k \<le> l \<Longrightarrow> ran p q l"
  by (simp add: ran_def)

lemma ran_inv: "ran p q k \<Longrightarrow> machine_inv q" "ran p q k \<Longrightarrow> length (p_harts q) = length (p_harts p)"
  by (simp_all add: ran_def)

lemma advance_ran:
  assumes "machine_inv p" "i < length (p_harts p)" "advance_hart i budget p = ((n, fault, over), q)" "0 < budget"
    and "unat (p_retired p) + unat budget < 2 ^ 64"
  shows "ran p q (unat n)" "n \<le> budget" "unat (p_retired q) = unat (p_retired p) + unat n"
    "fault = None \<Longrightarrow> \<not> c_waiting_for_interrupt (p_harts p ! i) \<Longrightarrow> 0 < n"
proof -
  let ?k = "if p_before_step p \<noteq> None then 1 else budget"
  let ?f = "\<lambda>h. case run_core ?k h of ((n, fault), h) \<Rightarrow> ((n, fault, c_halted h \<or> parked h \<or> \<not> c_device_touched h), h)"
  obtain m fl c where r: "run_core ?k (lend p (p_harts p ! i)) = ((m, fl), c)"
    by (metis surj_pair)
  have mn: "m = n" "fl = fault"
    and q: "q = (snd (with_hart i ?f p))\<lparr>p_retired := p_retired p + n, p_since_host_poll := p_since_host_poll p + n\<rparr>"
    using assms(3) r by (auto simp: advance_hart_def with_hart_def Let_def)
  have k: "0 < ?k" "?k \<le> budget"
    using assms(4) by (auto simp: word_le_nat_alt unat_gt_0 Suc_le_eq word_gt_0)
  then show n: "n \<le> budget"
    using turn_bound [OF r] mn(1) by simp
  then show ret: "unat (p_retired q) = unat (p_retired p) + unat n"
    using q assms(5) by (simp add: unat_word_ariths word_le_nat_alt)
  have "settled p (snd (with_hart i ?f p))"
  proof (intro settled_hart assms)
    show "slot j l (snd (?f c))" if "slot j l c" for j l c
      using hs.turn [OF that, of ?k] by (simp add: split_beta)
  qed
  then show "ran p q (unat n)"
    using q ret by (simp add: ran_def settled_def)
  show "0 < n" if "fault = None" "\<not> c_waiting_for_interrupt (p_harts p ! i)"
    using turn_progress(1) [of ?k "lend p (p_harts p ! i)" n c] r mn k(1) that by (auto simp: word_gt_0 lend_def)
qed

text \<open>A quantum stays within its budget, and one that runs to its end on an awake hart gets somewhere.\<close>

definition quantum_ok :: "nat \<Rightarrow> u64 \<Rightarrow> 's platform \<Rightarrow> turn \<Rightarrow> 's platform \<Rightarrow> bool" where
  "quantum_ok i budget p t q \<longleftrightarrow>
     ran p q (unat budget) \<and>
     (0 < budget \<longrightarrow> \<not> c_waiting_for_interrupt (p_harts p ! i) \<longrightarrow> (\<exists>w. t = Turn w) \<longrightarrow>
        unat (p_retired p) < unat (p_retired q))"

lemma quantum_ran:
  assumes "machine_inv p" "i < length (p_harts p)" "unat (p_retired p) + unat budget < 2 ^ 64"
    and "hart_quantum i budget used p = (t, q)"
  shows "quantum_ok i budget p t q"
  using assms
proof (induction "unat budget" arbitrary: budget used p rule: less_induct)
  case less
  note p = less.prems(1,2) and small = less.prems(3)
  obtain stop p1 where l: "look i p = (stop, p1)"
    by fastforce
  note look = settled_look [OF p l]
  have p1: "machine_inv p1" "i < length (p_harts p1)" "p_retired p1 = p_retired p"
    using look(1) p(2) by (simp_all add: settled_def)
  obtain n fault over p2 where a: "advance_hart i budget p1 = ((n, fault, over), p2)"
    by (metis surj_pair)
  consider "budget = 0 \<or> stop" | "0 < budget" "\<not> stop" "fault \<noteq> None \<or> over" | "0 < budget" "\<not> stop" "fault = None" "\<not> over"
    by (auto simp: word_gt_0)
  then show ?case
  proof cases
    case 1
    then show ?thesis
      using less.prems(1,4) l look(1)
      by (auto simp: quantum_ok_def hart_quantum.simps [of i budget] settled_def ran_def split: if_splits)
  next
    case 2
    note adv = advance_ran [OF p1(1,2) a 2(1) small [folded p1(3)]]
    have "ran p p2 (unat budget)"
      using adv(1,2) look(1) by (simp add: settled_def ran_def word_le_nat_alt)
    then show ?thesis
      using less.prems(4) l a 2 adv(3,4) look(2) p1(3)
      by (auto simp: quantum_ok_def hart_quantum.simps [of i budget] ran_def unat_gt_0 word_gt_0
          split: if_splits option.splits)
  next
    case 3
    let ?p3 = "poll_devices p2" and ?b = "budget - min budget n"
    note adv = advance_ran [OF p1(1,2) a 3(1) small [folded p1(3)]]
    have "0 < n"
      using advance_progress a 3 by blast
    then have b: "unat ?b = unat budget - unat n" "unat n \<le> unat budget" "0 < unat n"
      using adv(2) by (simp_all add: min_absorb2 unat_sub word_le_nat_alt unat_gt_0 word_gt_0)
    have "settled p2 ?p3"
      using adv(1) by (intro settled_poll) (simp add: ran_def)
    then have p3: "machine_inv ?p3" "i < length (p_harts ?p3)" "p_retired ?p3 = p_retired p2" "ran p ?p3 (unat n)"
      using adv(1) look(1) p(2) by (simp_all add: settled_def ran_def)
    have "hart_quantum i ?b (used + n) ?p3 = (t, q)"
      using less.prems(4) l a 3 by (simp add: hart_quantum.simps [of i budget] word_gt_0)
    then have "quantum_ok i ?b ?p3 t q"
      using less.hyps [of ?b ?p3 "used + n"] b p3 small adv(3) p1(3) by simp
    then show ?thesis
      using p3 b adv(3) p1(3) by (simp add: ran_def quantum_ok_def)
  qed
qed

text \<open>A hart's turn within a round: the bound is the number of steps left, and an awake hart gets somewhere.\<close>

lemma turn_ran:
  assumes "machine_inv p" "i < length (p_harts p)" "p_retired p \<le> max_steps"
    and "with_hart i runnable p = (True, p1)" "with_hart i (\<lambda>h. ((), h\<lparr>c_round_start_instret := c_instret h\<rparr>)) p1 = (u, p2)"
    and "p3 = with_clock f p2" "hart_quantum i (min (p_quantum p3) (max_steps - p_retired p3)) 0 p3 = (t, q)"
  shows "ran p q (unat max_steps - unat (p_retired p))"
    "p_retired p < max_steps \<Longrightarrow> 0 < p_quantum p \<Longrightarrow> t = Turn w \<Longrightarrow> unat (p_retired p) < unat (p_retired q)"
proof -
  let ?b = "min (p_quantum p3) (max_steps - p_retired p3)"
  have p1: "settled p p1"
    using settled_hart [OF assms(1,2), of runnable] hs.ready assms(4) by (metis snd_conv)
  have "settled p1 (snd (with_hart i (\<lambda>h. ((), h\<lparr>c_round_start_instret := c_instret h\<rparr>)) p1))"
    using p1 assms(2) by (intro settled_hart) (auto simp: settled_def slot_def cpu_inv_def)
  then have "settled p p3"
    unfolding assms(5,6) using settled_trans [OF p1] settled_clock settled_trans settled_def by (metis snd_conv)
  then have p3: "machine_inv p3" "i < length (p_harts p3)" "p_retired p3 = p_retired p" "p_quantum p3 = p_quantum p"
    "length (p_harts p3) = length (p_harts p)"
    using assms(2) by (simp_all add: settled_def)
  have "runnable (lend p (p_harts p ! i)) = (True, p_harts p1 ! i)"
    using assms(2,4) by (auto simp: with_hart_def split_beta Let_def prod_eq_iff)
  moreover have "p_harts p3 ! i = (lend p1 (p_harts p1 ! i))\<lparr>c_round_start_instret := c_instret (p_harts p1 ! i)\<rparr>"
    using assms(2,5,6) p1 by (auto simp: with_hart_def settled_def rv_frame lend_def)
  ultimately have awake: "\<not> c_waiting_for_interrupt (p_harts p3 ! i)"
    using ready_awake by (simp add: lend_def)
  have le: "unat (p_retired p) \<le> unat max_steps" "unat max_steps < 2 ^ 64"
    using assms(3) unsigned_less [of max_steps, where 'a = nat] by (simp_all add: word_le_nat_alt)
  have b: "unat ?b \<le> unat max_steps - unat (p_retired p)"
    using p3(3) assms(3) by (simp add: min_def word_le_nat_alt unat_sub)
  then have "unat (p_retired p3) + unat ?b < 2 ^ 64"
    using p3(3) le by simp
  note quantum = quantum_ran [OF p3(1,2) this assms(7)]
  show "ran p q (unat max_steps - unat (p_retired p))"
    using quantum p3 b by (simp add: ran_def quantum_ok_def)
  show "unat (p_retired p) < unat (p_retired q)" if "p_retired p < max_steps" "0 < p_quantum p" "t = Turn w"
  proof -
    have "max_steps - p_retired p3 \<noteq> 0"
      using p3(3) that(1) by auto
    then have "0 < ?b"
      using that(2) p3(4) by (simp add: min_def word_gt_0)
    then show ?thesis
      using quantum awake that(3) p3(3) by (simp add: quantum_ok_def)
  qed
qed

text \<open>A round, and that it gets somewhere when some hart ran.\<close>

definition round_ok :: "u64 \<Rightarrow> bool \<Rightarrow> 's platform \<Rightarrow> round \<Rightarrow> 's platform \<Rightarrow> bool" where
  "round_ok max_steps any p t q \<longleftrightarrow>
     ran p q (unat max_steps - unat (p_retired p)) \<and>
     (p_retired p < max_steps \<longrightarrow> 0 < p_quantum p \<longrightarrow> \<not> any \<longrightarrow> (\<exists>w. t = Round True w) \<longrightarrow> unat (p_retired p) < unat (p_retired q))"

lemma round_ran:
  assumes "machine_inv p" "set is \<subseteq> {..<length (p_harts p)}" "p_retired p \<le> max_steps"
    and "harts_round max_steps is any rm p = (t, q)"
  shows "round_ok max_steps any p t q"
  using assms
proof (induction "is" arbitrary: any rm p)
  case Nil
  then show ?case
    by (auto simp: round_ok_def ran_def)
next
  case (Cons i "is")
  have i: "i < length (p_harts p)" and p: "machine_inv p"
    using Cons.prems by auto
  obtain go p1 where g: "with_hart i runnable p = (go, p1)"
    by fastforce
  show ?case
  proof (cases go)
    case False
    have p1: "settled p p1"
      using settled_hart [OF p i, of runnable] hs.ready g by (metis snd_conv)
    then have "round_ok max_steps any p1 t q"
      using Cons.prems False g by (intro Cons.IH) (auto simp: settled_def)
    then show ?thesis
      using p1 by (simp add: settled_def ran_def round_ok_def)
  next
    case True
    obtain p2 where w: "with_hart i (\<lambda>h. ((), h\<lparr>c_round_start_instret := c_instret h\<rparr>)) p1 = ((), p2)"
      by (simp add: with_hart_def)
    define p3 where "p3 = with_clock (\<lambda>ck. ck\<lparr>ck_live := 0\<rparr>) p2"
    obtain tt p4 where t4: "hart_quantum i (min (p_quantum p3) (max_steps - p_retired p3)) 0 p3 = (tt, p4)"
      by fastforce
    note turn = turn_ran [OF p i Cons.prems(3) g [unfolded eqTrueI [OF True]] w p3_def t4]
    have step: "(t, q) = (case tt of HookStop \<Rightarrow> (RoundHook, p4) | Fatal e \<Rightarrow> (RoundFatal e, p4)
      | Turn used \<Rightarrow> if p_retired p4 \<ge> max_steps then (Round True (max rm used), p4)
          else harts_round max_steps is True (max rm used) p4)"
      using Cons.prems(4) True t4 w by (simp add: g p3_def [symmetric])
    show ?thesis
    proof (cases "\<exists>used. tt = Turn used \<and> p_retired p4 < max_steps")
      case False
      then show ?thesis
        using step turn by (auto simp: round_ok_def split: turn.splits if_splits)
    next
      case more: True
      then obtain used where u: "tt = Turn used" "\<not> max_steps \<le> p_retired p4"
        using not_le by blast
      then have "round_ok max_steps True p4 t q"
        using step turn(1) Cons.prems(2) by (intro Cons.IH) (auto simp: ran_def)
      then show ?thesis
        using turn(1) turn(2) [OF _ _ u(1)] by (auto simp: round_ok_def ran_def)
    qed
  qed
qed

section \<open>Runs\<close>

lemma idle_settled: "machine_inv p \<Longrightarrow> settled p (snd (idle_round k p))"
proof -
  assume p: "machine_inv p"
  let ?q = "p\<lparr>p_since_host_poll := p_since_host_poll p + 64\<rparr>"
  have q: "settled p ?q"
    using p by (simp add: settled_def)
  then have "settled p (with_clock f ?q)" "settled p (snd (fast_forward_idle ?q))" for f
    using settled_trans [OF q] settled_clock [of ?q] settled_skip [of ?q] by (simp_all add: settled_def)
  then show ?thesis
    unfolding idle_round_def Let_def split_beta by (simp add: settled_def)
qed

lemma check_settled: "machine_inv p \<Longrightarrow> settled p (snd (check_stop (poll_devices p)))"
  using settled_poll [of p] settled_stop [of "poll_devices p"] settled_trans by (auto simp: settled_def)

definition next_round :: "u64 \<Rightarrow> u64 \<Rightarrow> 's platform \<Rightarrow> u64 \<Rightarrow> 's platform \<Rightarrow> bool" where
  "next_round max_steps idle p idle' q \<longleftrightarrow>
     idle' = idle \<and> (0 < p_quantum p \<longrightarrow> unat (p_retired p) < unat (p_retired q)) \<or> idle' = idle + 1 \<and> idle' \<le> max_steps"

lemma platform_round_ran:
  assumes "machine_inv p" "p_retired p < max_steps" "platform_round max_steps k idle p = (r, q)"
  shows "ran p q (unat max_steps - unat (p_retired p))" "r = Inr (k', idle') \<Longrightarrow> next_round max_steps idle p idle' q"
proof -
  obtain t p1 where h: "harts_round max_steps [0..<length (p_harts p)] False 0 p = (t, p1)"
    by fastforce
  have ok: "round_ok max_steps False p t p1"
    using round_ran [OF assms(1) _ _ h] assms(2) by (simp add: atLeast0LessThan)
  then have p1: "machine_inv p1" "ran p p1 (unat max_steps - unat (p_retired p))"
    by (auto simp: round_ok_def ran_def)
  have busy: "settled p1 (snd (check_stop (poll_devices (with_clock f p1))))" for f
    using p1(1) check_settled settled_clock settled_trans settled_def by metis
  have idle: "settled p1 (snd (idle_round k p1))"
    by (rule idle_settled [OF p1(1)])
  then have check: "settled p1 (snd (check_stop (poll_devices (snd (idle_round k p1)))))"
    using check_settled settled_trans settled_def by metis
  have "ran p q (unat max_steps - unat (p_retired p)) \<and> (\<forall>k' idle'. r = Inr (k', idle') \<longrightarrow> next_round max_steps idle p idle' q)"
  proof (cases "\<exists>rm. t = Round True rm")
    case True
    then show ?thesis
      using assms(2,3) h busy p1(2) ok
      by (auto simp: platform_round_def Let_def split_beta next_round_def round_ok_def settled_def ran_def split: if_splits)
  next
    case False
    then show ?thesis
      using assms(3) h idle check p1(2)
      by (auto simp: platform_round_def Let_def split_beta next_round_def settled_def ran_def not_less
          split: round.splits if_splits)
  qed
  then show "ran p q (unat max_steps - unat (p_retired p))" "r = Inr (k', idle') \<Longrightarrow> next_round max_steps idle p idle' q"
    by blast+
qed

lemma loop_returns:
  assumes "machine_inv p" "0 < p_quantum p" "p_retired p \<le> max_steps" "idle \<le> max_steps" "max_steps \<noteq> NOT 0"
  shows "\<exists>r q. platform_loop max_steps k idle p = Some (r, q) \<and> ran p q (unat max_steps - unat (p_retired p))"
  using assms
proof (induction "(unat max_steps - unat (p_retired p)) + (unat max_steps - unat idle)" arbitrary: k idle p rule: less_induct)
  case less
  show ?case
  proof (cases "p_retired p < max_steps")
    case True
    obtain r q where r: "platform_round max_steps k idle p = (r, q)"
      by fastforce
    note ran = platform_round_ran [OF less.prems(1) True r]
    have q: "machine_inv q" "p_quantum q = p_quantum p" "p_retired q \<le> max_steps" "p_retired p \<le> p_retired q"
      using ran(1) True by (auto simp: ran_def word_le_nat_alt word_less_nat_alt)
    show ?thesis
    proof (cases r)
      case (Inr s)
      obtain k' idle' where s: "s = (k', idle')"
        by fastforce
      have nr: "next_round max_steps idle p idle' q"
        using ran(2) Inr s by simp
      have "idle \<noteq> - 1"
        using less.prems(4,5) by (auto simp: word_order.extremum_unique)
      then have "idle + 1 \<noteq> 0"
        by (simp add: eq_neg_iff_add_eq_0)
      then have one: "unat (idle + 1) = unat idle + 1"
        by (simp add: add.commute unatSuc)
      have "(unat max_steps - unat (p_retired q)) + (unat max_steps - unat idle') <
          (unat max_steps - unat (p_retired p)) + (unat max_steps - unat idle)" "idle' \<le> max_steps"
        using nr q(3,4) True less.prems(2,4) one
        by (auto simp: next_round_def word_le_nat_alt word_less_nat_alt)
      then have "\<exists>r' q'. platform_loop max_steps k' idle' q = Some (r', q') \<and>
          ran q q' (unat max_steps - unat (p_retired q))"
        using q less.prems by (intro less.hyps) auto
      then show ?thesis
        using True r Inr s ran(1) by (subst platform_loop.simps) (auto simp: ran_def)
    qed (use True r ran(1) in \<open>subst platform_loop.simps, simp\<close>)
  qed (use less.prems in \<open>subst platform_loop.simps, simp add: ran_def\<close>)
qed

lemma loop_inv:
  assumes "platform_loop max_steps k idle p = Some y" "machine_inv p"
  shows "machine_inv (snd y)"
proof -
  have "machine_inv p \<longrightarrow> machine_inv (snd y)"
  proof (rule platform_loop.raw_induct [OF _ assms(1), where P = "\<lambda>max_steps k idle p y. machine_inv p \<longrightarrow> machine_inv (snd y)"])
    fix loop :: "u64 \<Rightarrow> u32 \<Rightarrow> u64 \<Rightarrow> 's platform \<Rightarrow> (unit res \<times> 's platform) option" and m k i p y
    assume IH: "\<And>m k i p y. loop m k i p = Some y \<Longrightarrow> machine_inv p \<longrightarrow> machine_inv (snd y)"
      and y: "(if p_retired p < m then case platform_round m k i p of (Inl r, p) \<Rightarrow> Some (r, p)
        | (Inr s, p) \<Rightarrow> loop m (fst s) (snd s) p else Some (Inr (), p)) = Some y"
    show "machine_inv p \<longrightarrow> machine_inv (snd y)"
    proof
      assume p: "machine_inv p"
      obtain r q where r: "platform_round m k i p = (r, q)"
        by fastforce
      have "machine_inv q" if "p_retired p < m"
        using platform_round_ran(1) [OF p that r] by (simp add: ran_def)
      then show "machine_inv (snd y)"
        using y r p IH by (auto split: if_splits sum.splits)
    qed
  qed
  then show ?thesis
    using assms(2) by simp
qed

section \<open>What a hook keeps\<close>

text \<open>
  The interface between a debugger and the run it watches: what every call of the hook keeps of the hook holds of the
  hook that is left at the end of the run.
\<close>

lemma hook_frame [rv_frame]:
  "p_before_step (with_clock f p) = p_before_step p" "p_before_step (host_arrives p) = p_before_step p"
  "p_before_step (poll_console p) = p_before_step p" "p_before_step (update_lines i p) = p_before_step p"
  "p_before_step (check_tohost p) = p_before_step p" "p_before_step (snd (fast_forward_idle p)) = p_before_step p"
  "p_before_step (snd (advance_hart i b p)) = p_before_step p"
  by (simp_all add: with_clock_def host_arrives_def poll_console_def update_lines_def check_tohost_def
      fast_forward_idle_def advance_hart_def with_hart_frame Let_def split_beta split: sum.split prod.split)

lemma hook_poll [rv_frame]:
  fixes p :: "'s platform"
  shows "p_before_step (poll_devices p) = p_before_step p"
proof -
  have "p_before_step (fold update_lines is q) = p_before_step q" for "is" and q :: "'s platform"
    by (induction "is" arbitrary: q) (simp_all add: rv_frame)
  then show ?thesis
    by (simp add: poll_devices_def Let_def rv_frame)
qed

lemma hook_stop [rv_frame]: "p_before_step (snd (check_stop p)) = p_before_step p"
  by (simp add: check_stop_def Let_def rv_frame)

lemma hook_idle [rv_frame]: "p_before_step (snd (idle_round k p)) = p_before_step p"
  by (simp add: idle_round_def Let_def split_beta rv_frame)

definition watched :: "('s hook \<Rightarrow> bool) \<Rightarrow> 's platform \<Rightarrow> bool" where
  "watched H p \<longleftrightarrow> (\<exists>hk. p_before_step p = Some hk \<and> H hk)"

locale hook_contract =
  fixes H :: "'s hook \<Rightarrow> bool"
  assumes kp_call: "H hk \<Longrightarrow> hook_call hk c = (stop, c', hk') \<Longrightarrow> H hk'"
begin

lemma look: "watched H p \<Longrightarrow> watched H (snd (look i p))"
proof -
  assume "watched H p"
  then obtain hk where hk: "p_before_step p = Some hk" "H hk"
    by (auto simp: watched_def)
  obtain stop c hk' where c: "hook_call hk (lend p (p_harts p ! i)) = (stop, c, hk')"
    by (metis surj_pair)
  then show ?thesis
    using hk kp_call by (auto simp: watched_def look_def with_hart_def)
qed

lemma same: "p_before_step q = p_before_step p \<Longrightarrow> watched H q = watched H p"
  by (simp add: watched_def)

lemma quantum: "watched H p \<Longrightarrow> watched H (snd (hart_quantum i budget used p))"
proof (induction i budget used p rule: hart_quantum.induct)
  case (1 i budget used p)
  obtain stop p1 where l: "look i p = (stop, p1)"
    by fastforce
  obtain n fault over p2 where a: "advance_hart i budget p1 = ((n, fault, over), p2)"
    by (metis surj_pair)
  have p1: "watched H p1"
    using look [OF 1(2), of i] l by simp
  have "p_before_step p2 = p_before_step p1"
    using hook_frame(7) [of i budget p1] a by simp
  then have p2: "watched H p2"
    using p1 same by blast
  have "watched H (poll_devices p2)"
    using p2 same hook_poll by metis
  then show ?case
    using 1 l a p1 p2 by (subst hart_quantum.simps) (auto simp: watched_def split: option.split)
qed

lemma round: "watched H p \<Longrightarrow> watched H (snd (harts_round m is any rm p))"
proof (induction "is" arbitrary: any rm p)
  case (Cons i "is")
  obtain go p1 where g: "with_hart i runnable p = (go, p1)"
    by fastforce
  obtain p2 where w: "with_hart i (\<lambda>h. ((), h\<lparr>c_round_start_instret := c_instret h\<rparr>)) p1 = ((), p2)"
    by (simp add: with_hart_def)
  let ?p3 = "with_clock (\<lambda>ck. ck\<lparr>ck_live := 0\<rparr>) p2"
  have "p_before_step p1 = p_before_step p" "p_before_step p2 = p_before_step p1"
    using with_hart_frame(4) [of i runnable p] g
      with_hart_frame(4) [of i "\<lambda>h. ((), h\<lparr>c_round_start_instret := c_instret h\<rparr>)" p1] w by simp_all
  then have p13: "watched H p1" "watched H ?p3"
    using Cons.prems by (simp_all add: watched_def rv_frame)
  obtain t p4 where t: "hart_quantum i (min (p_quantum ?p3) (m - p_retired ?p3)) 0 ?p3 = (t, p4)"
    by fastforce
  then have "watched H p4"
    using quantum [OF p13(2)] by (metis snd_conv)
  then show ?case
    using Cons.IH p13(1) g w t by (simp split: turn.split)
qed simp

lemma scheduled: "watched H p \<Longrightarrow> watched H (snd (platform_round m k idle p))"
proof -
  assume p: "watched H p"
  obtain t p1 where h: "harts_round m [0..<length (p_harts p)] False 0 p = (t, p1)"
    by fastforce
  then have "watched H p1"
    using round [OF p] by (metis snd_conv)
  then show ?thesis
    using h by (auto simp: platform_round_def Let_def split_beta watched_def rv_frame split: round.split)
qed

lemma loop:
  assumes "platform_loop m k idle p = Some y" "watched H p"
  shows "watched H (snd y)"
proof -
  have "watched H p \<longrightarrow> watched H (snd y)"
  proof (rule platform_loop.raw_induct [OF _ assms(1), where P = "\<lambda>m k idle p y. watched H p \<longrightarrow> watched H (snd y)"])
    fix loop :: "u64 \<Rightarrow> u32 \<Rightarrow> u64 \<Rightarrow> 's platform \<Rightarrow> (unit res \<times> 's platform) option" and m k i p y
    assume IH: "\<And>m k i p y. loop m k i p = Some y \<Longrightarrow> watched H p \<longrightarrow> watched H (snd y)"
      and y: "(if p_retired p < m then case platform_round m k i p of (Inl r, p) \<Rightarrow> Some (r, p)
        | (Inr s, p) \<Rightarrow> loop m (fst s) (snd s) p else Some (Inr (), p)) = Some y"
    obtain r q where r: "platform_round m k i p = (r, q)"
      by fastforce
    then have "watched H p \<longrightarrow> watched H q"
      using scheduled [of p m k i] by simp
    then show "watched H p \<longrightarrow> watched H (snd y)"
      using y r IH by (auto split: if_splits sum.splits)
  qed
  then show ?thesis
    using assms(2) by simp
qed

lemma run: "platform_run m p = Some y \<Longrightarrow> watched H p \<Longrightarrow> watched H (snd y)"
  using loop [of m 0 0 "p\<lparr>p_hook_stopped := False\<rparr>" y] by (simp add: platform_run_def watched_def)

end

end
