(* ===== verification/Strings.thy ===== *)
theory Strings
  imports Rv_Types
begin

text \<open>
  Text as the code handles it, a list of bytes: digits, the conversions of numbers and the splitting functions of the
  standard library that the debugger, the device tree and the command line use.
\<close>

section \<open>Digits\<close>

definition hex_digit :: "nat \<Rightarrow> char" where
  "hex_digit n = ''0123456789abcdef'' ! n"

definition hex_value :: "char \<Rightarrow> u8 option" where
  "hex_value ch =
     (let c = of_char ch :: nat in
      if 48 \<le> c \<and> c \<le> 57 then Some (of_nat (c - 48))
      else if 97 \<le> c \<and> c \<le> 102 then Some (of_nat (c - 97 + 10))
      else if 65 \<le> c \<and> c \<le> 70 then Some (of_nat (c - 65 + 10))
      else None)"

text \<open>
  The conversions of the standard library: digits in a radix with an optional plus sign, refused when empty, malformed
  or too large; and the digits of a number.
\<close>

fun digits_value :: "nat \<Rightarrow> string \<Rightarrow> nat \<Rightarrow> nat option" where
  "digits_value radix [] acc = Some acc"
| "digits_value radix (ch # s) acc =
     (case hex_value ch of
        Some d \<Rightarrow> if unat d < radix then digits_value radix s (acc * radix + unat d) else None
      | None \<Rightarrow> None)"

definition from_str_radix :: "nat \<Rightarrow> nat \<Rightarrow> string \<Rightarrow> nat option" where
  "from_str_radix bound radix s =
     (let s = (case s of ch # rest \<Rightarrow> if ch = CHR ''+'' then rest else s | [] \<Rightarrow> s) in
      if s = [] then None
      else (case digits_value radix s 0 of Some v \<Rightarrow> if v < bound then Some v else None | None \<Rightarrow> None))"

fun show_digits :: "nat \<Rightarrow> nat \<Rightarrow> string" where
  "show_digits radix n = (if radix \<le> 1 \<or> n < radix then [hex_digit n] else show_digits radix (n div radix) @ [hex_digit (n mod radix)])"

declare show_digits.simps [simp del]

definition show_hex :: "nat \<Rightarrow> string" where
  "show_hex n = show_digits 16 n"

definition show_dec :: "nat \<Rightarrow> string" where
  "show_dec n = show_digits 10 n"

section \<open>Splitting\<close>

definition strip_prefix :: "string \<Rightarrow> string \<Rightarrow> string option" where
  "strip_prefix pre s = (if take (length pre) s = pre then Some (drop (length pre) s) else None)"

definition split_once :: "char \<Rightarrow> string \<Rightarrow> (string \<times> string) option" where
  "split_once ch s =
     (if ch \<in> set s then Some (takeWhile (\<lambda>x. x \<noteq> ch) s, tl (dropWhile (\<lambda>x. x \<noteq> ch) s)) else None)"

fun split_on :: "char \<Rightarrow> string \<Rightarrow> string list" where
  "split_on ch [] = [[]]"
| "split_on ch (x # s) = (if x = ch then [] # split_on ch s else (x # hd (split_on ch s)) # tl (split_on ch s))"

definition starts_with :: "string \<Rightarrow> string \<Rightarrow> bool" where
  "starts_with pre s \<longleftrightarrow> take (length pre) s = pre"

fun join_comma :: "string list \<Rightarrow> string" where
  "join_comma [] = []"
| "join_comma [x] = x"
| "join_comma (x # xs) = x @ '','' @ join_comma xs"

definition is_space :: "char \<Rightarrow> bool" where
  "is_space ch \<longleftrightarrow> ch = CHR '' '' \<or> (9 \<le> (of_char ch :: nat) \<and> (of_char ch :: nat) \<le> 13)"

fun split_whitespace :: "string \<Rightarrow> string \<Rightarrow> string list" where
  "split_whitespace [] word = (if word = [] then [] else [word])"
| "split_whitespace (ch # s) word =
     (if is_space ch then (if word = [] then [] else [word]) @ split_whitespace s [] else split_whitespace s (word @ [ch]))"

section \<open>Pieces of text\<close>

definition newline :: string where
  "newline = [CHR 0x0A]"

definition quoted :: "string \<Rightarrow> string" where
  "quoted x = [CHR 0x22] @ x @ [CHR 0x22]"

end
