(* ===== verification/Gdb.thy ===== *)
theory Gdb
  imports Machine Bytes Strings
begin

text \<open>
  The remote debugging stub, \<open>src/src/gdb.rs\<close>: hexadecimal, the framing of packets, registers, memory, breakpoints and
  watchpoints, the hook that watches a running machine, and the packet dispatcher. Text is a list of bytes. The socket
  of the debugger is a stream of results of reading it and a stream that says whether writing succeeds; what was
  written is \<open>g_sent\<close>.
\<close>

section \<open>Hexadecimal\<close>

definition to_hex :: "u8 list \<Rightarrow> string" where
  "to_hex bs = concat (map (\<lambda>b. [hex_digit (unat (drop_bit 4 b)), hex_digit (unat (b AND 15))]) bs)"

fun from_hex :: "string \<Rightarrow> u8 list option" where
  "from_hex [] = Some []"
| "from_hex [a] = None"
| "from_hex (a # b # s) =
     (case (hex_value a, hex_value b, from_hex s) of
        (Some h, Some l, Some bs) \<Rightarrow> Some ((push_bit 4 h OR l) # bs)
      | _ \<Rightarrow> None)"

definition reg_hex :: "u64 \<Rightarrow> nat \<Rightarrow> string" where
  "reg_hex v n = to_hex (map (\<lambda>i. ucast (drop_bit (8 * i) v)) [0..<n])"

definition parse_u64 :: "string \<Rightarrow> u64 option" where
  "parse_u64 s =
     (if s = [] then None
      else map_option of_nat
        (from_str_radix (2 ^ 64) 16 (case strip_prefix ''0x'' s of Some r \<Rightarrow> r | None \<Rightarrow> s)))"

section \<open>Registers\<close>

abbreviation (input) REG_PC :: u32 where "REG_PC \<equiv> 32"
abbreviation (input) REG_FP_BASE :: u32 where "REG_FP_BASE \<equiv> 33"
abbreviation (input) REG_CSR_BASE :: u32 where "REG_CSR_BASE \<equiv> 65"

definition CSR_NAMES :: "(string \<times> u32) list" where
  "CSR_NAMES =
     [(''fflags'', 0x001), (''frm'', 0x002), (''fcsr'', 0x003), (''sstatus'', 0x100), (''sie'', 0x104),
      (''stvec'', 0x105), (''scounteren'', 0x106), (''sscratch'', 0x140), (''sepc'', 0x141), (''scause'', 0x142),
      (''stval'', 0x143), (''sip'', 0x144), (''satp'', 0x180), (''mstatus'', 0x300), (''misa'', 0x301),
      (''medeleg'', 0x302), (''mideleg'', 0x303), (''mie'', 0x304), (''mtvec'', 0x305), (''mcounteren'', 0x306),
      (''mscratch'', 0x340), (''mepc'', 0x341), (''mcause'', 0x342), (''mtval'', 0x343), (''mip'', 0x344),
      (''cycle'', 0xc00), (''time'', 0xc01), (''instret'', 0xc02), (''mhartid'', 0xf14)]"

definition GPR_NAMES :: "string list" where
  "GPR_NAMES =
     [''zero'', ''ra'', ''sp'', ''gp'', ''tp'', ''t0'', ''t1'', ''t2'', ''fp'', ''s1'', ''a0'', ''a1'', ''a2'', ''a3'',
      ''a4'', ''a5'', ''a6'', ''a7'', ''s2'', ''s3'', ''s4'', ''s5'', ''s6'', ''s7'', ''s8'', ''s9'', ''s10'', ''s11'',
      ''t3'', ''t4'', ''t5'', ''t6'']"

definition FP_NAMES :: "string list" where
  "FP_NAMES =
     [''ft0'', ''ft1'', ''ft2'', ''ft3'', ''ft4'', ''ft5'', ''ft6'', ''ft7'', ''fs0'', ''fs1'', ''fa0'', ''fa1'',
      ''fa2'', ''fa3'', ''fa4'', ''fa5'', ''fa6'', ''fa7'', ''fs2'', ''fs3'', ''fs4'', ''fs5'', ''fs6'', ''fs7'',
      ''fs8'', ''fs9'', ''fs10'', ''fs11'', ''ft8'', ''ft9'', ''ft10'', ''ft11'']"

definition csr_is_narrow :: "u32 \<Rightarrow> bool" where
  "csr_is_narrow csr \<longleftrightarrow> 1 \<le> csr \<and> csr \<le> 3"

fun signal_for :: "exception \<Rightarrow> u32" where
  "signal_for Breakpoint = 5"
| "signal_for ECallFromUMode = 5"
| "signal_for ECallFromSMode = 5"
| "signal_for ECallFromMMode = 5"
| "signal_for IllegalInstruction = 4"
| "signal_for InstructionAddressMisaligned = 7"
| "signal_for LoadAddressMisaligned = 7"
| "signal_for StoreAMOAddressMisaligned = 7"
| "signal_for _ = 11"

section \<open>Guest memory as the debugger sees it\<close>

definition dbg_translate :: "u64 \<Rightarrow> bool \<Rightarrow> cpu \<Rightarrow> u64 option \<times> cpu" where
  "dbg_translate vaddr write c =
     (case hart_translate vaddr (if write then Store else Load) (c_priv c) c of
        (Inr pa, c) \<Rightarrow> (Some pa, c)
      | (Inl t, c) \<Rightarrow>
          if write then (None, c)
          else (case hart_translate vaddr Instruction (c_priv c) c of
                  (Inr pa, c) \<Rightarrow> (Some pa, c) | (Inl t, c) \<Rightarrow> (None, c)))"

text \<open>The loops over the pages; the count is what is left of the request.\<close>

definition page_chunk :: "nat \<Rightarrow> u64 \<Rightarrow> nat" where
  "page_chunk n va = min n (unat (PAGE_SIZE - (va AND (PAGE_SIZE - 1))))"

lemma page_chunk_pos: "0 < n \<Longrightarrow> 0 < page_chunk n va"
proof -
  assume "0 < n"
  have "unat (va AND 0xfff) < 2 ^ 12"
    using unat_and_mask_less [of va 12] by (simp add: mask_eq_exp_minus_1)
  then have "unat (PAGE_SIZE - (va AND 0xfff)) = 4096 - unat (va AND 0xfff)"
    by (subst unat_sub) (simp_all add: word_le_nat_alt)
  then show ?thesis
    using \<open>0 < n\<close> \<open>unat (va AND 0xfff) < 2 ^ 12\<close> by (simp add: page_chunk_def)
qed

function dbg_read :: "nat \<Rightarrow> u64 \<Rightarrow> cpu \<Rightarrow> u8 list option \<times> cpu" where
  "dbg_read n va c =
     (if n = 0 then (Some [], c)
      else
        (case dbg_translate va False c of
           (None, c) \<Rightarrow> (None, c)
         | (Some pa, c) \<Rightarrow>
             (let k = page_chunk n va in
              case dram_read_bytes pa k (b_ram (c_bus c)) of
                None \<Rightarrow> (None, c)
              | Some bs \<Rightarrow>
                  (case dbg_read (n - k) (va + of_nat k) c of
                     (None, c) \<Rightarrow> (None, c) | (Some cs, c) \<Rightarrow> (Some (bs @ cs), c)))))"
  by pat_completeness auto

termination
  by (relation "measure (\<lambda>(n, va, c). n)") (simp_all add: page_chunk_pos)

function dbg_write :: "u8 list \<Rightarrow> u64 \<Rightarrow> cpu \<Rightarrow> bool \<times> cpu" where
  "dbg_write bs va c =
     (if bs = [] then (True, c)
      else
        (case dbg_translate va True c of
           (None, c) \<Rightarrow> (False, c)
         | (Some pa, c) \<Rightarrow>
             (let k = page_chunk (length bs) va in
              case dram_write_bytes pa (take k bs) (b_ram (c_bus c)) of
                None \<Rightarrow> (False, c)
              | Some m \<Rightarrow> dbg_write (drop k bs) (va + of_nat k) (c\<lparr>c_bus := (c_bus c)\<lparr>b_ram := m\<rparr>\<rparr>))))"
  by pat_completeness auto

termination
  by (relation "measure (\<lambda>(bs, va, c). length bs)") (simp_all add: page_chunk_pos)

declare dbg_read.simps [simp del] dbg_write.simps [simp del]

section \<open>The session\<close>

datatype stop = StopNone | StopStep | StopBreakpoint | StopWatch | StopInterrupt | StopHalted | StopTrap

record watch =
  w_addr :: u64
  w_len :: u64
  w_last :: "u8 list"

datatype client_read = Data string | WouldBlock | Closed | Failed

record gdb_state =
  g_client :: bool
  g_socket :: "client_read stream"
  g_writes :: "bool stream"
  g_sent :: string
  g_inbuf :: string
  g_last_sent :: string
  g_breakpoints :: "u64 set"
  g_watches :: "watch list"
  g_general_hart :: u32
  g_detached :: bool
  g_killed :: bool
  g_stop :: stop
  g_stop_hart :: u32
  g_stop_addr :: u64
  g_signal :: u32
  g_interrupt_requested :: "bool stream option"

definition poll_interrupt_byte :: "gdb_state \<Rightarrow> bool \<times> gdb_state" where
  "poll_interrupt_byte st =
     (if \<not> g_client st then (False, st)
      else
        (let got = shd (g_socket st); st = st\<lparr>g_socket := stl (g_socket st)\<rparr> in
         case got of
           Closed \<Rightarrow> (True, st)
         | Data bs \<Rightarrow> (CHR 0x03 \<in> set bs, st\<lparr>g_inbuf := g_inbuf st @ filter (\<lambda>b. b \<noteq> CHR 0x03) bs\<rparr>)
         | WouldBlock \<Rightarrow> (False, st)
         | Failed \<Rightarrow> (True, st)))"

section \<open>Framing\<close>

definition checksum :: "string \<Rightarrow> u32" where
  "checksum payload = fold (\<lambda>b a. a + of_char b) payload 0"

definition encode_packet :: "string \<Rightarrow> string" where
  "encode_packet payload =
     (let n = unat (checksum payload AND 0xff)
      in ''$'' @ payload @ ''#'' @ [hex_digit (n div 16), hex_digit (n mod 16)])"

definition write_client :: "string \<Rightarrow> gdb_state \<Rightarrow> bool \<times> gdb_state" where
  "write_client data st =
     (if \<not> g_client st then (False, st)
      else if shd (g_writes st) then (True, st\<lparr>g_writes := stl (g_writes st), g_sent := g_sent st @ data\<rparr>)
      else (False, st\<lparr>g_writes := stl (g_writes st)\<rparr>))"

definition send_packet :: "string \<Rightarrow> gdb_state \<Rightarrow> bool \<times> gdb_state" where
  "send_packet payload st = write_client (encode_packet payload) (st\<lparr>g_last_sent := encode_packet payload\<rparr>)"

lemma write_client_inbuf [simp]: "g_inbuf (snd (write_client d st)) = g_inbuf st"
  by (simp add: write_client_def)

function read_buffered :: "gdb_state \<Rightarrow> string option \<times> gdb_state" where
  "read_buffered st =
     (case g_inbuf st of
        [] \<Rightarrow> (None, st)
      | c # rest \<Rightarrow>
          if c = CHR ''+'' then read_buffered (st\<lparr>g_inbuf := rest\<rparr>)
          else if c = CHR ''-'' then read_buffered (snd (write_client (g_last_sent st) (st\<lparr>g_inbuf := rest\<rparr>)))
          else if c \<noteq> CHR ''$'' then read_buffered (st\<lparr>g_inbuf := rest\<rparr>)
          else if CHR ''#'' \<notin> set (g_inbuf st) then (None, st)
          else
            (let hash = length (takeWhile (\<lambda>b. b \<noteq> CHR ''#'') (g_inbuf st)) in
             if length (g_inbuf st) < hash + 3 then (None, st)
             else
               (let payload = drop 1 (take hash (g_inbuf st));
                    hi = hex_value (g_inbuf st ! (hash + 1));
                    lo = hex_value (g_inbuf st ! (hash + 2));
                    st' = st\<lparr>g_inbuf := drop (hash + 3) (g_inbuf st)\<rparr>
                in case (hi, lo) of
                     (Some h, Some l) \<Rightarrow>
                       if ucast (push_bit 4 h OR l) = checksum payload AND 0xff
                       then (Some payload, snd (write_client ''+'' st'))
                       else read_buffered (snd (write_client ''-'' st'))
                   | _ \<Rightarrow> read_buffered (snd (write_client ''-'' st')))))"
  by pat_completeness auto

termination
  by (relation "measure (\<lambda>st. length (g_inbuf st))") auto

declare read_buffered.simps [simp del]

partial_function (option) read_packet :: "bool \<Rightarrow> gdb_state \<Rightarrow> (string option \<times> gdb_state) option" where
  "read_packet block st =
     (case read_buffered st of
        (Some payload, st) \<Rightarrow> Some (Some payload, st)
      | (None, st) \<Rightarrow>
          if \<not> g_client st then Some (None, st)
          else
            (let got = shd (g_socket st); st = st\<lparr>g_socket := stl (g_socket st)\<rparr> in
             case got of
               Closed \<Rightarrow> Some (None, st)
             | Data bs \<Rightarrow> read_packet block (st\<lparr>g_inbuf := g_inbuf st @ bs\<rparr>)
             | WouldBlock \<Rightarrow> if \<not> block then Some (None, st) else read_packet block st
             | Failed \<Rightarrow> Some (None, st)))"

section \<open>Registers and memory of the selected hart\<close>

record gdb_stub =
  s_platform :: "gdb_state platform"
  s_st :: gdb_state
  s_interval :: u64

definition gdb_new :: "client_read stream \<Rightarrow> bool stream \<Rightarrow> gdb_state platform \<Rightarrow> gdb_stub" where
  "gdb_new socket writes p =
     \<lparr>s_platform = p,
      s_st = \<lparr>g_client = False, g_socket = socket, g_writes = writes, g_sent = [], g_inbuf = [], g_last_sent = [],
        g_breakpoints = {}, g_watches = [], g_general_hart = 0, g_detached = False, g_killed = False,
        g_stop = StopNone, g_stop_hart = 0, g_stop_addr = 0, g_signal = 5, g_interrupt_requested = None\<rparr>,
      s_interval = 4096\<rparr>"

definition with_st :: "(gdb_state \<Rightarrow> gdb_state) \<Rightarrow> gdb_stub \<Rightarrow> gdb_stub" where
  "with_st f s = s\<lparr>s_st := f (s_st s)\<rparr>"

definition on_hart :: "nat \<Rightarrow> (cpu \<Rightarrow> 'a \<times> cpu) \<Rightarrow> gdb_stub \<Rightarrow> 'a \<times> gdb_stub" where
  "on_hart i f s = (let (r, p) = with_hart i f (s_platform s) in (r, s\<lparr>s_platform := p\<rparr>))"

definition hart_for :: "u64 \<Rightarrow> gdb_stub \<Rightarrow> nat option" where
  "hart_for thread_id s =
     (if 1 \<le> thread_id \<and> unat thread_id \<le> length (p_harts (s_platform s)) then Some (unat (thread_id - 1)) else None)"

definition general :: "gdb_stub \<Rightarrow> nat option" where
  "general s = hart_for (ucast (g_general_hart (s_st s)) + 1) s"

fun read_gprs :: "nat list \<Rightarrow> cpu \<Rightarrow> string \<times> cpu" where
  "read_gprs [] c = (reg_hex (c_pc c) 8, c)"
| "read_gprs (i # is) c =
     (let (v, c) = read_reg i c; (r, c) = read_gprs is c in (reg_hex v 8 @ r, c))"

definition read_registers :: "gdb_stub \<Rightarrow> string \<times> gdb_stub" where
  "read_registers s =
     (case general s of None \<Rightarrow> (''E01'', s) | Some h \<Rightarrow> on_hart h (read_gprs [0..<NUM_REGS]) s)"

definition hart_register :: "u32 \<Rightarrow> cpu \<Rightarrow> string \<times> cpu" where
  "hart_register regnum c =
     (if unat regnum < NUM_REGS then (let (v, c) = read_reg (unat regnum) c in (reg_hex v 8, c))
      else if regnum = REG_PC then (reg_hex (c_pc c) 8, c)
      else if REG_FP_BASE \<le> regnum \<and> regnum < REG_FP_BASE + 32
      then (reg_hex (c_fregs c (unat (regnum - REG_FP_BASE))) 8, c)
      else if REG_CSR_BASE \<le> regnum \<and> regnum < REG_CSR_BASE + 4096 then
        (let n = regnum - REG_CSR_BASE in
         if \<not> csr_exists n then (''E02'', c)
         else (reg_hex (csr_read n (c_csrs c)) (if csr_is_narrow n then 4 else 8), c))
      else (''E02'', c))"

definition read_register :: "u32 \<Rightarrow> gdb_stub \<Rightarrow> string \<times> gdb_stub" where
  "read_register regnum s =
     (case general s of None \<Rightarrow> (''E01'', s) | Some h \<Rightarrow> on_hart h (hart_register regnum) s)"

definition set_register :: "u32 \<Rightarrow> u64 \<Rightarrow> cpu \<Rightarrow> string \<times> cpu" where
  "set_register regnum v c =
     (if unat regnum < NUM_REGS then (''OK'', write_reg (unat regnum) v c)
      else if regnum = REG_PC then (''OK'', c\<lparr>c_pc := v\<rparr>)
      else if REG_FP_BASE \<le> regnum \<and> regnum < REG_FP_BASE + 32
      then (''OK'', c\<lparr>c_fregs := (c_fregs c)(unat (regnum - REG_FP_BASE) := v)\<rparr>)
      else if REG_CSR_BASE \<le> regnum \<and> regnum < REG_CSR_BASE + 4096 then
        (let n = regnum - REG_CSR_BASE in
         if \<not> csr_exists n then (''E02'', c) else (''OK'', c\<lparr>c_csrs := csr_write n v (c_csrs c)\<rparr>))
      else (''E02'', c))"

definition write_register :: "u32 \<Rightarrow> string \<Rightarrow> gdb_stub \<Rightarrow> string \<times> gdb_stub" where
  "write_register regnum hexvalue s =
     (case general s of
        None \<Rightarrow> (''E01'', s)
      | Some h \<Rightarrow>
          (case from_hex hexvalue of
             None \<Rightarrow> (''E03'', s)
           | Some bs \<Rightarrow>
               if bs = [] \<or> length bs > 8 then (''E03'', s)
               else on_hart h (set_register regnum (read_le bs)) s))"

definition read_memory :: "u64 \<Rightarrow> u64 \<Rightarrow> gdb_stub \<Rightarrow> string \<times> gdb_stub" where
  "read_memory addr len s =
     (case general s of
        None \<Rightarrow> (''E01'', s)
      | Some h \<Rightarrow>
          (let (r, s) = on_hart h (dbg_read (unat (min len 0x10000)) addr) s
           in (case r of Some d \<Rightarrow> to_hex d | None \<Rightarrow> ''E14'', s)))"

definition write_memory :: "u64 \<Rightarrow> string \<Rightarrow> gdb_stub \<Rightarrow> string \<times> gdb_stub" where
  "write_memory addr hexdata s =
     (case general s of
        None \<Rightarrow> (''E01'', s)
      | Some h \<Rightarrow>
          (case from_hex hexdata of
             None \<Rightarrow> (''E03'', s)
           | Some d \<Rightarrow> (let (ok, s) = on_hart h (dbg_write d addr) s in (if ok then ''OK'' else ''E14'', s))))"

section \<open>Breakpoints and watchpoints\<close>

definition add_watch :: "u64 \<Rightarrow> u64 \<Rightarrow> gdb_stub \<Rightarrow> string \<times> gdb_stub" where
  "add_watch addr kind s =
     (case general s of
        None \<Rightarrow> (''E14'', s)
      | Some h \<Rightarrow>
          (case on_hart h (dbg_read (unat kind) addr) s of
             (None, s) \<Rightarrow> (''E14'', s)
           | (Some d, s) \<Rightarrow>
               (''OK'', with_st (\<lambda>st. st\<lparr>g_watches := g_watches st @ [\<lparr>w_addr = addr, w_len = kind, w_last = d\<rparr>]\<rparr>) s)))"

definition breakpoint_command :: "bool \<Rightarrow> string \<Rightarrow> gdb_stub \<Rightarrow> string \<times> gdb_stub" where
  "breakpoint_command ins args s =
     (let f = split_on CHR '','' args in
      if length f < 3 \<or> length (f ! 0) \<noteq> 1 then (''E01'', s)
      else
        (case (parse_u64 (f ! 1), parse_u64 (hd (split_on CHR '';'' (f ! 2)))) of
           (Some addr, Some kind) \<Rightarrow>
             if f ! 0 = ''0'' \<or> f ! 0 = ''1'' then
               (''OK'', with_st (\<lambda>st. st\<lparr>g_breakpoints :=
                  (if ins then insert addr (g_breakpoints st) else g_breakpoints st - {addr})\<rparr>) s)
             else if f ! 0 = ''2'' then
               (if kind = 0 \<or> kind > 64 then (''E01'', s)
                else if ins then add_watch addr kind s
                else (''OK'', with_st (\<lambda>st. st\<lparr>g_watches :=
                  filter (\<lambda>w. \<not> (w_addr w = addr \<and> w_len w = kind)) (g_watches st)\<rparr>) s))
             else ([], s)
         | _ \<Rightarrow> (''E01'', s)))"

fun reread :: "watch list \<Rightarrow> cpu \<Rightarrow> watch list \<times> cpu" where
  "reread [] c = ([], c)"
| "reread (w # ws) c =
     (case dbg_read (unat (w_len w)) (w_addr w) c of
        (d, c) \<Rightarrow> (case reread ws c of (ws, c) \<Rightarrow> ((case d of Some d \<Rightarrow> w\<lparr>w_last := d\<rparr> | None \<Rightarrow> w) # ws, c)))"

definition refresh_watches :: "gdb_stub \<Rightarrow> gdb_stub" where
  "refresh_watches s =
     (case general s of
        None \<Rightarrow> s
      | Some h \<Rightarrow>
          (let (ws, s) = on_hart h (reread (g_watches (s_st s))) s in with_st (\<lambda>st. st\<lparr>g_watches := ws\<rparr>) s))"

section \<open>The hook of a running machine\<close>

record debug_look =
  h_st :: gdb_state
  h_calls :: u64
  h_leaving :: "u32 set"
  h_interval :: u64

definition interrupted :: "debug_look \<Rightarrow> bool \<times> debug_look" where
  "interrupted d =
     (let calls = h_calls d + 1; d = d\<lparr>h_calls := calls\<rparr>; st = h_st d in
      if calls mod h_interval d = 0 then
        (case g_interrupt_requested st of
           Some asks \<Rightarrow> (shd asks, d\<lparr>h_st := st\<lparr>g_interrupt_requested := Some (stl asks)\<rparr>\<rparr>)
         | None \<Rightarrow> (let (stop, st) = poll_interrupt_byte st in (stop, d\<lparr>h_st := st\<rparr>)))
      else (False, d))"

text \<open>The first watched range that has changed, with that range brought up to date.\<close>

fun watch_hit :: "watch list \<Rightarrow> cpu \<Rightarrow> u64 option \<times> watch list \<times> cpu" where
  "watch_hit [] c = (None, [], c)"
| "watch_hit (w # ws) c =
     (case dbg_read (unat (w_len w)) (w_addr w) c of
        (Some now, c) \<Rightarrow>
          if now \<noteq> w_last w then (Some (w_addr w), w\<lparr>w_last := now\<rparr> # ws, c)
          else (case watch_hit ws c of (hit, ws, c) \<Rightarrow> (hit, w # ws, c))
      | (None, c) \<Rightarrow> (case watch_hit ws c of (hit, ws, c) \<Rightarrow> (hit, w # ws, c)))"

definition before_step :: "debug_look \<Rightarrow> cpu \<Rightarrow> bool \<times> cpu \<times> debug_look" where
  "before_step d c =
     (let (stop, d) = interrupted d in
      if stop then
        (True, c, d\<lparr>h_st := (h_st d)\<lparr>g_stop := StopInterrupt, g_stop_hart := c_hartid c, g_signal := 2\<rparr>\<rparr>)
      else
        (case watch_hit (g_watches (h_st d)) c of
           (hit, ws, c) \<Rightarrow>
             (let d = d\<lparr>h_st := (h_st d)\<lparr>g_watches := ws\<rparr>\<rparr> in
              case hit of
                Some addr \<Rightarrow>
                  (True, c, d\<lparr>h_st := (h_st d)\<lparr>g_stop := StopWatch, g_stop_hart := c_hartid c, g_stop_addr := addr,
                     g_signal := 5\<rparr>\<rparr>)
              | None \<Rightarrow>
                  (let leaves = (c_hartid c \<in> h_leaving d); d = d\<lparr>h_leaving := h_leaving d - {c_hartid c}\<rparr> in
                   if \<not> leaves \<and> c_pc c \<in> g_breakpoints (h_st d) then
                     (True, c, d\<lparr>h_st := (h_st d)\<lparr>g_stop := StopBreakpoint, g_stop_hart := c_hartid c, g_signal := 5\<rparr>\<rparr>)
                   else (False, c, d)))))"

primcorec debug_hook :: "debug_look \<Rightarrow> gdb_state hook" where
  "debug_hook d = Hook (\<lambda>c. map_prod id (map_prod id debug_hook) (before_step d c)) (h_st d)"

section \<open>Running\<close>

text \<open>An operation of the stub returns, panics on an index out of range, or waits for a run that does not end.\<close>

datatype 'a outcome = Done 'a | Panicked | Diverges

fun and_after :: "'a outcome \<Rightarrow> ('a \<Rightarrow> 'b outcome) \<Rightarrow> 'b outcome" where
  "and_after (Done x) f = f x"
| "and_after Panicked f = Panicked"
| "and_after Diverges f = Diverges"

definition classify_trap :: "trap \<Rightarrow> gdb_state \<Rightarrow> gdb_state" where
  "classify_trap t st = st\<lparr>g_stop := StopTrap, g_signal := signal_for (t_cause t)\<rparr>"

definition skip_word :: "cpu \<Rightarrow> unit \<times> cpu" where
  "skip_word c =
     (case dbg_read 4 (c_pc c) c of
        (None, c) \<Rightarrow> ((), c)
      | (Some insn, c) \<Rightarrow>
          (let w = read_le insn in
           ((), if w = 0x00100073 then c\<lparr>c_pc := c_pc c + 4\<rparr>
                else if w AND 0xffff = 0x9002 then c\<lparr>c_pc := c_pc c + 2\<rparr>
                else c)))"

definition skip_ebreak :: "nat \<Rightarrow> gdb_stub \<Rightarrow> gdb_stub outcome" where
  "skip_ebreak hart s =
     (if g_stop (s_st s) \<noteq> StopTrap then Done s
      else if hart \<ge> length (p_harts (s_platform s)) then Panicked
      else Done (snd (on_hart hart skip_word s)))"

definition single_step :: "u32 option \<Rightarrow> gdb_stub \<Rightarrow> gdb_stub outcome" where
  "single_step only_hart s =
     (let h = (case only_hart of Some h \<Rightarrow> h | None \<Rightarrow> g_general_hart (s_st s)) in
      and_after (skip_ebreak (unat h) s) (\<lambda>s.
      let (r, p) = step_hart h (s_platform s);
          s = with_st (\<lambda>st. st\<lparr>g_stop_hart := h\<rparr>) (s\<lparr>s_platform := p\<rparr>)
      in Done (case r of
           Inl t \<Rightarrow> with_st (\<lambda>st. (classify_trap t st)\<lparr>g_stop_hart := p_fault_hart p\<rparr>) s
         | Inr u \<Rightarrow>
             if p_halted p then with_st (\<lambda>st. st\<lparr>g_stop := StopHalted\<rparr>) s
             else with_st (\<lambda>st. st\<lparr>g_stop := StopStep, g_signal := 5\<rparr>) s)))"

fun skip_all :: "nat list \<Rightarrow> gdb_stub \<Rightarrow> gdb_stub outcome" where
  "skip_all [] s = Done s"
| "skip_all (h # hs) s = and_after (skip_ebreak h s) (skip_all hs)"

definition hook_for :: "gdb_stub \<Rightarrow> gdb_state hook" where
  "hook_for s =
     (let hs = p_harts (s_platform s) in
      debug_hook \<lparr>h_st = s_st s, h_calls = 0,
        h_leaving = of_nat ` {i. i < length hs \<and> c_pc (hs ! i) \<in> g_breakpoints (s_st s)},
        h_interval = max (s_interval s) 1\<rparr>)"

definition continue_run :: "gdb_stub \<Rightarrow> gdb_stub outcome" where
  "continue_run s =
     (let p = s_platform s in
      case platform_run (p_retired p + 2 ^ 60) (p\<lparr>p_before_step := Some (hook_for s)\<rparr>) of
        None \<Rightarrow> Diverges
      | Some (r, p) \<Rightarrow>
          (let st = (case p_before_step p of Some hk \<Rightarrow> hook_shared hk | None \<Rightarrow> s_st s);
               p = p\<lparr>p_before_step := None\<rparr>;
               s = s\<lparr>s_platform := p, s_st := st\<rparr>
           in Done (if p_hook_stopped p then s
                else (case r of
                        Inl t \<Rightarrow> with_st (\<lambda>st. (classify_trap t st)\<lparr>g_stop_hart := p_fault_hart p\<rparr>) s
                      | Inr u \<Rightarrow>
                          if p_halted p then with_st (\<lambda>st. st\<lparr>g_stop := StopHalted\<rparr>) s
                          else with_st (\<lambda>st. st\<lparr>g_stop := StopInterrupt, g_signal := 2\<rparr>) s))))"

definition run_until_stop :: "u32 option \<Rightarrow> bool \<Rightarrow> gdb_stub \<Rightarrow> gdb_stub outcome" where
  "run_until_stop only_hart step s =
     (if p_halted (s_platform s) then Done (with_st (\<lambda>st. st\<lparr>g_stop := StopHalted\<rparr>) s)
      else if step then single_step only_hart s
      else and_after (skip_all [0..<length (p_harts (s_platform s))] s) (\<lambda>s. continue_run (refresh_watches s)))"

definition stop_reply :: "gdb_state \<Rightarrow> string" where
  "stop_reply st =
     (case g_stop st of
        StopHalted \<Rightarrow> ''W00''
      | StopWatch \<Rightarrow>
          ''T05watch:'' @ show_hex (unat (g_stop_addr st)) @ '';thread:'' @ show_hex (unat (g_stop_hart st + 1)) @ '';''
      | StopNone \<Rightarrow> ''T05thread:'' @ show_hex (unat (g_general_hart st + 1)) @ '';''
      | _ \<Rightarrow>
          ''T'' @ (if g_signal st < 16 then ''0'' else []) @ show_hex (unat (g_signal st)) @ ''thread:'' @
          show_hex (unat (g_stop_hart st + 1)) @ '';'')"

definition resume :: "bool \<Rightarrow> u32 option \<Rightarrow> gdb_stub \<Rightarrow> (string \<times> gdb_stub) outcome" where
  "resume step hart s = and_after (run_until_stop hart step s) (\<lambda>s. Done (stop_reply (s_st s), s))"

definition vcont_action :: "string \<Rightarrow> bool \<times> u32 option \<Rightarrow> bool \<times> u32 option" where
  "vcont_action action acc =
     (if action = [] \<or> hd action \<noteq> CHR ''s'' \<and> hd action \<noteq> CHR ''S'' then acc
      else
        (True,
         case split_once CHR '':'' action of
           None \<Rightarrow> snd acc
         | Some (u, t) \<Rightarrow>
             (let t = (if t \<noteq> [] \<and> hd t = CHR ''p'' then (case split_once CHR ''.'' t of Some (u, x) \<Rightarrow> x | None \<Rightarrow> t) else t)
              in case parse_u64 t of
                   Some tid \<Rightarrow> if 1 \<le> tid then Some (ucast (tid - 1)) else snd acc
                 | None \<Rightarrow> snd acc)))"

definition vcont :: "string \<Rightarrow> gdb_stub \<Rightarrow> (string \<times> gdb_stub) outcome" where
  "vcont args s =
     (let (step, hart) = fold vcont_action (split_on CHR '';'' args) (False, None) in resume step hart s)"

section \<open>Monitor commands and the target description\<close>

definition hart_line :: "gdb_stub \<Rightarrow> nat \<Rightarrow> string" where
  "hart_line s h =
     (let c = lend (s_platform s) (p_harts (s_platform s) ! h) in
      ''hart '' @ show_dec h @ '': pc=0x'' @ show_hex (unat (c_pc c)) @ '' priv='' @ privilege_name (c_priv c) @
      (if parked c then '' (parked)'' else []) @ (if c_waiting_for_interrupt c then '' (wfi)'' else []) @
      (if of_nat h = g_general_hart (s_st s) then ''  <- selected'' else []))"

definition csr_number :: "string \<Rightarrow> u32 option" where
  "csr_number which =
     (case map_of CSR_NAMES which of
        Some n \<Rightarrow> Some n
      | None \<Rightarrow>
          (case (case strip_prefix ''0x'' which of
                   Some h \<Rightarrow> from_str_radix (2 ^ 32) 16 h | None \<Rightarrow> from_str_radix (2 ^ 32) 10 which) of
             Some n \<Rightarrow> if n < 4096 then Some (of_nat n) else None
           | None \<Rightarrow> None))"

definition monitor :: "string \<Rightarrow> gdb_stub \<Rightarrow> string list" where
  "monitor command s =
     (let words = split_whitespace command [];
          verb = (case words of [] \<Rightarrow> [] | w # ws \<Rightarrow> w);
          which = (case words of w # w' # ws \<Rightarrow> w' | _ \<Rightarrow> []);
          lines =
            (if verb = [] \<or> verb = ''help'' then
               [''monitor harts            list the harts and what each is doing'',
                ''monitor csr NAME|NUMBER  print a control register of the selected hart'',
                ''monitor time             print the machine clock'']
             else if verb = ''harts'' then map (hart_line s) [0..<length (p_harts (s_platform s))]
             else if verb = ''csr'' then
               [case (csr_number which, general s) of
                  (Some n, Some h) \<Rightarrow>
                    if csr_exists n
                    then which @ '' (0x'' @ show_hex (unat n) @ '') = 0x'' @
                      show_hex (unat (csr_read n (c_csrs (p_harts (s_platform s) ! h))))
                    else ''no such control register: '' @ which
                | _ \<Rightarrow> ''no such control register: '' @ which]
             else if verb = ''time'' then
               [show_dec (unat (ck_mtime (if p_wired (s_platform s) then b_clock (p_bus (s_platform s)) else p_own_clock (s_platform s))))]
             else [''unknown monitor command '' @ [CHR 0x27] @ verb @ [CHR 0x27] @ '' (try: monitor help)''])
      in map (\<lambda>l. l @ newline) lines)"

definition xml_reg :: "string \<Rightarrow> nat \<Rightarrow> string \<Rightarrow> nat \<Rightarrow> string" where
  "xml_reg name bits ty num =
     ''    <reg name='' @ quoted name @ '' bitsize='' @ quoted (show_dec bits) @ '' type='' @ quoted ty @
     '' regnum='' @ quoted (show_dec num) @ ''/>'' @ newline"

definition target_xml :: string where
  "target_xml =
     ''<?xml version='' @ quoted ''1.0'' @ ''?>'' @ newline @
     ''<!DOCTYPE target SYSTEM '' @ quoted ''gdb-target.dtd'' @ ''>'' @ newline @
     ''<target version='' @ quoted ''1.0'' @ ''>'' @ newline @
     ''  <architecture>riscv:rv64</architecture>'' @ newline @
     ''  <feature name='' @ quoted ''org.gnu.gdb.riscv.cpu'' @ ''>'' @ newline @
     concat (map (\<lambda>i. xml_reg (GPR_NAMES ! i) 64
       (if i = 1 then ''code_ptr'' else if i \<in> {2, 3, 4, 8} then ''data_ptr'' else ''int'') i) [0..<32]) @
     xml_reg ''pc'' 64 ''code_ptr'' 32 @ ''  </feature>'' @ newline @
     ''  <feature name='' @ quoted ''org.gnu.gdb.riscv.fpu'' @ ''>'' @ newline @
     concat (map (\<lambda>i. xml_reg (FP_NAMES ! i) 64 ''ieee_double'' (unat REG_FP_BASE + i)) [0..<32]) @
     xml_reg ''fflags'' 32 ''int'' 66 @ xml_reg ''frm'' 32 ''int'' 67 @ xml_reg ''fcsr'' 32 ''int'' 68 @
     ''  </feature>'' @ newline @
     ''  <feature name='' @ quoted ''org.gnu.gdb.riscv.csr'' @ ''>'' @ newline @
     concat (map (\<lambda>(name, n). if csr_is_narrow n then [] else xml_reg name 64 ''int'' (unat (REG_CSR_BASE + n))) CSR_NAMES) @
     ''  </feature>'' @ newline @ ''</target>'' @ newline"

section \<open>The dispatcher\<close>

text \<open>The reply and the lines for the debugger's console.\<close>

definition xfer_reply :: "string \<Rightarrow> string" where
  "xfer_reply p =
     (let ol = split_on CHR '','' (last (split_on CHR '':'' p)) in
      case (parse_u64 (ol ! 0), if length ol > 1 then parse_u64 (ol ! 1) else None) of
        (Some off, Some len) \<Rightarrow>
          (let size = of_nat (length target_xml) in
           if off \<ge> size then ''l''
           else
             (let e = min (saturating_add off len) size
              in (if off + len \<ge> size then ''l'' else ''m'') @ take (unat e - unat off) (drop (unat off) target_xml)))
      | _ \<Rightarrow> ''E01'')"

definition handle_query :: "string \<Rightarrow> gdb_stub \<Rightarrow> (string \<times> string list) \<times> gdb_stub" where
  "handle_query p s =
     (if starts_with ''qSupported'' p then
        ((''PacketSize=8000;qXfer:features:read+;swbreak+;hwbreak+;vContSupported+'', []), s)
      else if p = ''qAttached'' then ((''1'', []), s)
      else if p = ''qC'' then ((''QC'' @ show_hex (unat (g_general_hart (s_st s) + 1)), []), s)
      else if p = ''qfThreadInfo'' then
        ((''m'' @ join_comma (map (\<lambda>h. show_hex (h + 1)) [0..<length (p_harts (s_platform s))]), []), s)
      else if p = ''qsThreadInfo'' then ((''l'', []), s)
      else if starts_with ''qThreadExtraInfo'' p then
        (let tid = (case split_once CHR '','' p of
                      Some (u, t) \<Rightarrow> (case parse_u64 t of Some n \<Rightarrow> n | None \<Rightarrow> 0) | None \<Rightarrow> 0)
         in case hart_for tid s of
              None \<Rightarrow> ((''E01'', []), s)
            | Some h \<Rightarrow>
                (let c = lend (s_platform s) (p_harts (s_platform s) ! h);
                     text = ''hart '' @ show_dec (unat (c_hartid c)) @ '' ('' @ privilege_name (c_priv c) @ '')'' @
                       (if parked c then '', parked'' else [])
                 in ((to_hex (map of_char text), []), s)))
      else
        (case strip_prefix ''qRcmd,'' p of
           Some hex \<Rightarrow>
             (case from_hex hex of
                None \<Rightarrow> ((''E01'', []), s)
              | Some bs \<Rightarrow> ((''OK'', monitor (map (\<lambda>b. char_of (unat b)) bs) s), s))
         | None \<Rightarrow>
             if starts_with ''qXfer:features:read:target.xml'' p then ((xfer_reply p, []), s) else (([], []), s)))"

fun write_gprs :: "nat list \<Rightarrow> u8 list \<Rightarrow> cpu \<Rightarrow> unit \<times> cpu" where
  "write_gprs [] bs c = ((), c\<lparr>c_pc := read_le (take 8 bs)\<rparr>)"
| "write_gprs (i # is) bs c = write_gprs is (drop 8 bs) (write_reg i (read_le (take 8 bs)) c)"

definition write_registers :: "string \<Rightarrow> gdb_stub \<Rightarrow> string \<times> gdb_stub" where
  "write_registers rest s =
     (case (general s, from_hex rest) of
        (Some h, Some bs) \<Rightarrow>
          if length bs \<ge> 33 * 8 then (let (u, s) = on_hart h (write_gprs [0..<32] bs) s in (''OK'', s)) else (''E03'', s)
      | _ \<Rightarrow> (''E03'', s))"

definition two_numbers :: "string \<Rightarrow> (u64 \<times> u64) option" where
  "two_numbers x =
     (let f = split_on CHR '','' x in
      if length f = 2 then
        (case (parse_u64 (f ! 0), parse_u64 (f ! 1)) of (Some a, Some n) \<Rightarrow> Some (a, n) | _ \<Rightarrow> None)
      else None)"

definition select_thread :: "string \<Rightarrow> gdb_stub \<Rightarrow> string \<times> gdb_stub" where
  "select_thread rest s =
     (case rest of
        [] \<Rightarrow> (''E01'', s)
      | op # t \<Rightarrow>
          if op = CHR ''g'' then
            (if t = ''-1'' \<or> t = ''0'' then (''OK'', s)
             else (case Option.bind (parse_u64 t) (\<lambda>tid. hart_for tid s) of
                     Some h \<Rightarrow> (''OK'', with_st (\<lambda>st. st\<lparr>g_general_hart := of_nat h\<rparr>) s)
                   | None \<Rightarrow> (''E01'', s)))
          else (''OK'', s))"

definition reply :: "string \<times> gdb_stub \<Rightarrow> ((string \<times> string list) \<times> gdb_stub) outcome" where
  "reply r = Done ((fst r, []), snd r)"

definition handle_packet :: "string \<Rightarrow> gdb_stub \<Rightarrow> ((string \<times> string list) \<times> gdb_stub) outcome" where
  "handle_packet p s =
     (case p of
        [] \<Rightarrow> reply ([], s)
      | cmd # rest \<Rightarrow>
          if cmd = CHR ''?'' then reply (stop_reply (s_st s), s)
          else if cmd = CHR ''g'' then reply (read_registers s)
          else if cmd = CHR ''G'' then reply (write_registers rest s)
          else if cmd = CHR ''p'' then
            reply (case parse_u64 rest of Some n \<Rightarrow> read_register (ucast n) s | None \<Rightarrow> (''E01'', s))
          else if cmd = CHR ''P'' then
            reply (case split_once CHR ''='' rest of
                     None \<Rightarrow> (''E01'', s)
                   | Some (n, v) \<Rightarrow>
                       (case parse_u64 n of Some n \<Rightarrow> write_register (ucast n) v s | None \<Rightarrow> (''E01'', s)))
          else if cmd = CHR ''m'' then
            reply (case two_numbers rest of Some (addr, len) \<Rightarrow> read_memory addr len s | None \<Rightarrow> (''E01'', s))
          else if cmd = CHR ''M'' then
            reply (case split_once CHR '':'' rest of
                     None \<Rightarrow> (''E01'', s)
                   | Some (head, data) \<Rightarrow>
                       (case two_numbers head of Some (addr, u) \<Rightarrow> write_memory addr data s | None \<Rightarrow> (''E01'', s)))
          else if cmd = CHR ''Z'' then reply (breakpoint_command True rest s)
          else if cmd = CHR ''z'' then reply (breakpoint_command False rest s)
          else if cmd = CHR ''c'' \<or> cmd = CHR ''s'' then
            and_after
              (case parse_u64 rest of
                 None \<Rightarrow> Done s
               | Some addr \<Rightarrow>
                   if unat (g_general_hart (s_st s)) \<ge> length (p_harts (s_platform s)) then Panicked
                   else Done (snd (on_hart (unat (g_general_hart (s_st s))) (\<lambda>c. ((), c\<lparr>c_pc := addr\<rparr>)) s)))
              (\<lambda>s. and_after (resume (cmd = CHR ''s'') None s) reply)
          else if cmd = CHR ''D'' then reply (''OK'', with_st (\<lambda>st. st\<lparr>g_detached := True\<rparr>) s)
          else if cmd = CHR ''k'' then reply ([], with_st (\<lambda>st. st\<lparr>g_killed := True\<rparr>) s)
          else if cmd = CHR ''H'' then reply (select_thread rest s)
          else if cmd = CHR ''T'' then
            reply (case Option.bind (parse_u64 rest) (\<lambda>t. hart_for t s) of Some h \<Rightarrow> ''OK'' | None \<Rightarrow> ''E01'', s)
          else if cmd = CHR ''v'' then
            (if p = ''vCont?'' then reply (''vCont;c;C;s;S'', s)
             else (case strip_prefix ''vCont;'' p of Some a \<Rightarrow> and_after (vcont a s) reply | None \<Rightarrow> reply ([], s)))
          else if cmd = CHR ''q'' then (let (r, s) = handle_query p s in Done (r, s))
          else reply ([], s))"

section \<open>The session loop\<close>

text \<open>
  \<open>ok\<close> says whether the listening socket exists and hands out a connection; \<open>None\<close> as the outcome of \<open>serve\<close> is waiting
  for ever for the rest of a packet.
\<close>

definition accept_client :: "bool \<Rightarrow> gdb_stub \<Rightarrow> bool \<times> gdb_stub" where
  "accept_client ok s = (if ok then (True, with_st (\<lambda>st. st\<lparr>g_client := True\<rparr>) s) else (False, s))"

definition set_interrupt_requested :: "bool stream \<Rightarrow> gdb_stub \<Rightarrow> gdb_stub" where
  "set_interrupt_requested f s = with_st (\<lambda>st. st\<lparr>g_interrupt_requested := Some f\<rparr>) s"

definition send_line :: "string \<Rightarrow> gdb_state \<Rightarrow> gdb_state" where
  "send_line line st = snd (send_packet (''O'' @ to_hex (map of_char line)) st)"

partial_function (option) serve :: "gdb_stub \<Rightarrow> (bool \<times> gdb_stub) outcome option" where
  "serve s =
     (case read_packet True (s_st s) of
        None \<Rightarrow> None
      | Some (None, st) \<Rightarrow> Some (Done (False, s\<lparr>s_st := st\<lparr>g_killed := True\<rparr>\<rparr>))
      | Some (Some payload, st) \<Rightarrow>
          (case handle_packet payload (s\<lparr>s_st := st\<rparr>) of
             Panicked \<Rightarrow> Some Panicked
           | Diverges \<Rightarrow> Some Diverges
           | Done ((r, console), s) \<Rightarrow>
               (let s = with_st (fold send_line console) s in
                if g_killed (s_st s) then Some (Done (False, s))
                else
                  (let (ok, st) = send_packet r (s_st s); s = s\<lparr>s_st := st\<rparr> in
                   if \<not> ok then Some (Done (False, s\<lparr>s_st := st\<lparr>g_killed := True\<rparr>\<rparr>))
                   else if g_detached st then Some (Done (True, s))
                   else if starts_with ''W'' r then Some (Done (False, s))
                   else serve s))))"

end
