(* ===== verification/Machine_Run.thy ===== *)
theory Machine_Run
  imports Machine Hart_Trap
begin

text \<open>
  The properties of the machine: its invariant over set-up, single steps and runs; that runs return; the idle clock;
  and the state in which a kernel is entered.
\<close>

section \<open>Setting up\<close>

lemma machine_map:
  assumes "machine_inv p"
    and "\<And>h. csr_inv (c_csrs h) \<Longrightarrow> csr_inv (c_csrs (f h)) \<and> c_hartid (f h) = c_hartid h \<and> c_priv (f h) = c_priv h \<and>
      c_dcache (f h) = c_dcache h"
  shows "machine_inv (p\<lparr>p_harts := map f (p_harts p)\<rparr>)"
  using assms by (simp add: machine_inv_def slot_lend)

lemma machine_new:
  assumes "bus_inv b"
  shows "machine_inv (platform_new world b n)"
proof -
  let ?n = "unat (max n 1)"
  have "unat n < 2 ^ 32"
    using unsigned_less [of n, where 'a = nat] by simp
  then have n: "0 < ?n" "?n < 2 ^ 32"
    by (auto simp: max_def word_le_nat_alt)
  have "unat (of_nat i :: u32) < ?n" if "i < ?n" for i
    using that n(2) by (simp add: unat_of_nat_small)
  then show ?thesis
    using n assms
    by (simp add: machine_inv_def platform_new_def Let_def slot_lend cpu_new_def csr_inv_ops(1) [OF csr_inv_new]
        decoded_inst_default_def bit_0)
qed

lemma machine_setup:
  assumes "machine_inv p"
  shows "machine_inv (wire irq p)" "machine_inv (set_idle_on_wfi on p)"
proof -
  have "machine_inv (p\<lparr>p_harts := map (\<lambda>h. h\<lparr>c_clock := True, c_clint := True, c_uart := True\<rparr>) (p_harts p)\<rparr>)"
    by (rule machine_map [OF assms]) simp
  then have "machine_inv (p\<lparr>p_harts := map (\<lambda>h. h\<lparr>c_clock := True, c_clint := True, c_uart := True\<rparr>) (p_harts p)\<rparr>
      \<lparr>p_wired := True\<rparr>\<lparr>p_uart_irq := irq\<rparr>)"
    by (simp only: machine_fields)
  then show "machine_inv (wire irq p)"
    by (simp add: wire_def)
  show "machine_inv (set_idle_on_wfi on p)"
    unfolding set_idle_on_wfi_def by (rule machine_map [OF assms]) simp
qed

text \<open>The harts as the firmware leaves them, and the parking of all but the first.\<close>

definition prepared :: "u64 \<Rightarrow> u64 \<Rightarrow> 's platform \<Rightarrow> 's platform" where
  "prepared entry dtb p =
     (let hs = map (\<lambda>h. delegate (h\<lparr>c_idle_on_wfi := True\<rparr>)) (p_harts p)
      in p\<lparr>p_harts := hs[0 := write_reg 11 dtb (write_reg 10 0 ((hs ! 0)\<lparr>c_priv := PRIV_SUPERVISOR, c_pc := entry\<rparr>))]\<rparr>)"

definition park :: "nat \<Rightarrow> 's platform \<Rightarrow> 's platform" where
  "park i p = snd (with_hart i (\<lambda>h. ((), set_parked True h)) p)"

lemma enter_supervisor_parts:
  fixes p :: "'s platform"
  shows "enter_supervisor entry dtb p = fold park [1..<length (p_harts p)] (prepared entry dtb p)"
proof -
  have "park = (\<lambda>i (p :: 's platform). snd (with_hart i (\<lambda>h. ((), set_parked True h)) p))"
    by (intro ext) (simp add: park_def)
  then show ?thesis
    by (simp add: enter_supervisor_def prepared_def set_idle_on_wfi_def Let_def comp_def)
qed

lemma delegate_keeps:
  "csr_inv (c_csrs h) \<Longrightarrow> csr_inv (c_csrs (delegate h))" "c_hartid (delegate h) = c_hartid h"
  "c_priv (delegate h) = c_priv h" "c_dcache (delegate h) = c_dcache h" "c_regfile (delegate h) = c_regfile h"
  by (simp_all add: delegate_def Let_def csr_inv_write)

lemma machine_prepared:
  assumes "machine_inv p"
  shows "machine_inv (prepared entry dtb p)"
proof -
  let ?hs = "map (\<lambda>h. delegate (h\<lparr>c_idle_on_wfi := True\<rparr>)) (p_harts p)"
  let ?h = "write_reg 11 dtb (write_reg 10 0 ((?hs ! 0)\<lparr>c_priv := PRIV_SUPERVISOR, c_pc := entry\<rparr>))"
  have m: "machine_inv (p\<lparr>p_harts := ?hs\<rparr>)"
    by (rule machine_map [OF assms]) (simp add: delegate_keeps)
  have "0 < length ?hs"
    using assms by (simp add: machine_inv_def)
  then have "machine_inv (p\<lparr>p_harts := ?hs\<rparr>\<lparr>p_harts := (p_harts (p\<lparr>p_harts := ?hs\<rparr>))[0 := ?h]\<rparr>)"
    using machine_hartD(1,2) [OF m, of 0] by (intro machine_hart [OF m]) (simp_all add: rv_frame)
  then show ?thesis
    by (simp add: prepared_def Let_def)
qed

lemma park_hart:
  assumes "machine_inv p" "i < length (p_harts p)"
  shows "machine_inv (park i p)" "p_mail (park i p) = (p_mail p)[i := (p_mail p ! i)\<lparr>mb_parked := True\<rparr>]"
    "length (p_harts (park i p)) = length (p_harts p)" "p_harts (park i p) = (p_harts p)[i := p_harts (park i p) ! i]"
proof -
  show "machine_inv (park i p)"
    unfolding park_def using assms by (intro machine_with_hart) (simp_all add: set_parked_def hs.kp_reserve slot_place place_simps mailbox_frame)
  have "c_hartid (p_harts p ! i) = of_nat i" "length (p_harts p) < 2 ^ 32"
    using assms machine_hartD(3) by (auto simp: machine_inv_def)
  then have "unat (c_hartid (p_harts p ! i)) = i"
    using assms(2) by (simp add: unat_of_nat_small)
  then show "p_mail (park i p) = (p_mail p)[i := (p_mail p ! i)\<lparr>mb_parked := True\<rparr>]"
    "length (p_harts (park i p)) = length (p_harts p)" "p_harts (park i p) = (p_harts p)[i := p_harts (park i p) ! i]"
    using assms(2) by (simp_all add: park_def with_hart_def set_parked_def set_own_def update_mailbox_def lend_def)
qed

lemma park_all:
  "machine_inv p \<Longrightarrow> set is \<subseteq> {0<..<length (p_harts p)} \<Longrightarrow>
     machine_inv (fold park is p) \<and> p_harts (fold park is p) ! 0 = p_harts p ! 0 \<and>
     p_mail (fold park is p) ! 0 = p_mail p ! 0 \<and> length (p_harts (fold park is p)) = length (p_harts p) \<and>
     (\<forall>i<length (p_harts p). mb_parked (p_mail (fold park is p) ! i) \<longleftrightarrow> i \<in> set is \<or> mb_parked (p_mail p ! i))"
proof (induction "is" arbitrary: p)
  case (Cons i "is")
  have i: "0 < i" "i < length (p_harts p)" and p: "machine_inv p"
    using Cons.prems by auto
  note q = park_hart [OF p i(2)]
  have "length (p_mail p) = length (p_harts p)"
    using p i(2) by (auto simp: machine_inv_def slot_lend)
  then have mail: "mb_parked (p_mail (park i p) ! j) \<longleftrightarrow> j = i \<or> mb_parked (p_mail p ! j)" if "j < length (p_harts p)" for j
    using q(2) that i(2) by (auto simp: nth_list_update)
  have "p_harts (park i p) ! 0 = (p_harts p)[i := p_harts (park i p) ! i] ! 0"
    by (subst q(4)) (rule refl)
  then have zero: "p_harts (park i p) ! 0 = p_harts p ! 0" "p_mail (park i p) ! 0 = p_mail p ! 0"
    using q(2) i(1) by simp_all
  show ?case
    using Cons.IH [OF q(1)] Cons.prems(2) q(3) zero mail by auto
qed simp

lemma machine_enter: "machine_inv p \<Longrightarrow> machine_inv (enter_supervisor entry dtb p)"
  unfolding enter_supervisor_parts
  using park_all [OF machine_prepared, of p "[1..<length (p_harts p)]" entry dtb]
  by (simp add: prepared_def Let_def subset_iff)

lemma step_hart_keeps:
  assumes "machine_inv p"
  shows "machine_inv (snd (step_hart hart p)) \<and> length (p_harts (snd (step_hart hart p))) = length (p_harts p) \<and>
    p_quantum (snd (step_hart hart p)) = p_quantum p"
proof -
  let ?i = "unat hart" and ?f = "\<lambda>h. ((), h\<lparr>c_round_start_instret := c_instret h\<rparr>)"
  define p1 where "p1 = snd (with_hart ?i runnable p)"
  define p3 where "p3 = with_clock (\<lambda>ck. ck\<lparr>ck_live := 0\<rparr>) (snd (with_hart ?i ?f p1))"
  define p4 where "p4 = snd (with_hart ?i (run_core 1) p3)"
  show ?thesis
  proof (cases "?i < length (p_harts p)")
    case True
    have p1: "settled p p1"
      unfolding p1_def using hs.ready by (intro settled_hart assms True)
    then have "settled p1 (snd (with_hart ?i ?f p1))"
      using True by (intro settled_hart) (auto simp: settled_def slot_def cpu_inv_def)
    then have p3: "settled p p3"
      using p1 unfolding p3_def by (simp add: settled_def machine_clock rv_frame)
    then have p4: "settled p p4"
      using True hs.turn settled_hart [of p3 ?i "run_core 1"] unfolding p4_def by (simp add: settled_def)
    have check: "settled (p4\<lparr>p_retired := r\<rparr>) (snd (check_stop (poll_devices (with_clock g (p4\<lparr>p_retired := r\<rparr>)))))" for g r
    proof -
      have c: "settled (p4\<lparr>p_retired := r\<rparr>) (with_clock g (p4\<lparr>p_retired := r\<rparr>))"
        using p4 by (intro settled_clock) (simp add: settled_def)
      then have "machine_inv (with_clock g (p4\<lparr>p_retired := r\<rparr>))"
        by (simp add: settled_def)
      from settled_trans [OF c check_settled [OF this]] show ?thesis .
    qed
    show ?thesis
      using p1 p4 check unfolding step_hart_def Let_def split_beta p1_def [symmetric] p3_def [symmetric] p4_def [symmetric]
      by (simp add: assms settled_def split: option.split)
  qed (use assms in \<open>simp add: step_hart_def\<close>)
qed

section \<open>The idle clock\<close>

text \<open>The deadlines the harts that may still wake up are waiting for, and the ones near enough to count.\<close>

definition near :: "u64 \<Rightarrow> u64 set" where
  "near now = {d. now < d \<and> d - now \<le> HORIZON}"

definition hart_deadlines :: "'s platform \<Rightarrow> cpu \<Rightarrow> u64 set" where
  "hart_deadlines p h = (if parked (lend p h) then {} else
     {clint_mtimecmp (c_hartid h) (b_clint (p_bus p))} \<union> (if sstc_enabled (c_csrs h) then {csr_read STIMECMP (c_csrs h)} else {}))"

definition deadlines :: "'s platform \<Rightarrow> u64 set" where
  "deadlines p = (\<Union>h\<in>set (p_harts p). hart_deadlines p h)"

text \<open>The least of a bound and some values, and that the scan over the harts computes it.\<close>

definition least :: "u64 \<Rightarrow> u64 set \<Rightarrow> u64 \<Rightarrow> bool" where
  "least b X r \<longleftrightarrow> r \<le> b \<and> (\<forall>d\<in>X. r \<le> d) \<and> (r = b \<or> r \<in> X)"

lemma least_empty: "least b {} b"
  by (simp add: least_def)

lemma least_trans: "least b X r \<Longrightarrow> least r Y q \<Longrightarrow> least b (X \<union> Y) q"
  by (auto simp: least_def)

lemma least_consider: "least b ({d} \<inter> near now) (consider_deadline now d b)"
  by (auto simp: least_def consider_deadline_def near_def min_def)

lemma least_hart: "least b (hart_deadlines p h \<inter> near now) (hart_deadline now p h b)"
proof -
  have "{d, e} \<inter> near now = {d} \<inter> near now \<union> {e} \<inter> near now" for d e
    by blast
  then have "least b ({d, e} \<inter> near now) (consider_deadline now e (consider_deadline now d b))" for d e
    using least_trans [OF least_consider [of b d now] least_consider [of _ e now]] by (simp only:)
  then show ?thesis
    by (simp add: hart_deadlines_def hart_deadline_def Let_def least_empty least_consider)
qed

lemma least_fold: "least b ((\<Union>h\<in>set hs. hart_deadlines p h) \<inter> near now) (fold (hart_deadline now p) hs b)"
proof (induction hs arbitrary: b)
  case (Cons h hs)
  show ?case
    using least_trans [OF least_hart [of b p h now] Cons.IH [of "hart_deadline now p h b"]]
    by (simp add: Int_Un_distrib2)
qed (simp add: least_empty)

section \<open>Traps of the kernel\<close>

lemma supervisor_vector:
  assumes "delegated code False c" "e = enter_trap code tval epc False c"
  shows "c_pc e = csr_read STVEC (c_csrs c) AND NOT MTVEC_MODE_MASK"
  using assms(1) unfolding assms(2) enter_trap_def Let_def delegated_def [symmetric] clear_reservation_def
  by (simp add: csr_read_def csr_set_mstatus_frame trap_csr_writes set_own_def update_mailbox_def)

section \<open>Properties\<close>

text \<open>C10: The machine's invariant (every hart has legal control registers, its own identifier and mailbox, a
  privilege level of at most machine mode, and shares a well-formed bus) holds of a new machine and is kept by
  everything the machine does: setting up, entering a kernel, polling the devices, checking for a stop, single
  steps, and runs of any length in any interleaving of the harts, with or without a debugger's hook.\<close>

theorem machine_invariant:
  assumes "bus_inv b" "machine_inv p" "hook_ok hk"
  shows "machine_inv (platform_new world b n) \<and> machine_inv (wire irq p) \<and> machine_inv (set_idle_on_wfi on p) \<and>
    machine_inv (enter_supervisor entry dtb p) \<and> machine_inv (poll_devices p) \<and> machine_inv (snd (check_stop p)) \<and>
    machine_inv (refresh p) \<and> machine_inv (snd (step_hart hart p)) \<and> machine_inv (p\<lparr>p_before_step := Some hk\<rparr>) \<and>
    (\<forall>r q. platform_run max_steps p = Some (r, q) \<longrightarrow> machine_inv q)"
proof -
  have "machine_inv (p\<lparr>p_before_step := Some hk\<rparr>)"
    using assms(2,3) by (simp add: machine_inv_def slot_lend)
  moreover have "machine_inv q" if "platform_run max_steps p = Some (r, q)" for r q
    using loop_inv [OF that [unfolded platform_run_def]] assms(2) by simp
  ultimately show ?thesis
    using machine_new [OF assms(1)] machine_setup [OF assms(2)] machine_enter [OF assms(2)] step_hart_keeps [OF assms(2)]
      settled_poll [OF assms(2)] settled_stop [OF assms(2)] check_settled [OF assms(2)]
    by (simp add: settled_def refresh_def)
qed

primcorec idle_hook :: "unit hook" where
  "idle_hook = Hook (\<lambda>c. (False, c, idle_hook)) ()"

lemma idle_hook_ok: "hook_ok idle_hook"
proof (coinduction rule: hook_ok.coinduct)
  case hook_ok
  then show ?case
    by simp
qed

abbreviation silent_host :: "host_tick stream" where
  "silent_host \<equiv> sconst \<lparr>ht_chunks = [], ht_alive = True, ht_ns = 0\<rparr>"

definition sample_machine :: "unit platform" where
  "sample_machine = platform_new silent_host sample_bus 2"

lemma sample_machine_inv: "machine_inv sample_machine"
  unfolding sample_machine_def by (rule machine_new [OF sample_bus_inv])

lemma machine_invariant_witness: "machine_inv (enter_supervisor 0x80200000 0x82000000 sample_machine)"
  using machine_invariant [OF sample_bus_inv sample_machine_inv idle_hook_ok] by blast



text \<open>C11: Skipping idle time is safe and exact. When all harts sleep, the clock jumps to the earliest timer deadline of
  a hart that is not parked, among the deadlines ahead and within the horizon, so that none of them is passed
  unnoticed; nothing but the clock changes; and the skip is refused exactly when there is no such deadline.\<close>

theorem fast_forward_exact:
  assumes "p_wired p" "now = ck_mtime (b_clock (p_bus p))" "now < 0xffffffefffffffff" "fast_forward_idle p = (ok, q)"
  shows "(ok \<longleftrightarrow> deadlines p \<inter> near now \<noteq> {}) \<and>
    (if ok then ck_mtime (b_clock (p_bus q)) \<in> deadlines p \<inter> near now \<and>
       (\<forall>d\<in>deadlines p \<inter> near now. ck_mtime (b_clock (p_bus q)) \<le> d) \<and>
       q = p\<lparr>p_bus := (p_bus p)\<lparr>b_clock := b_clock (p_bus q)\<rparr>\<rparr>
     else q = p)"
proof -
  define best where "best = fold (hart_deadline now p) (p_harts p) (NOT 0)"
  have l: "least (NOT 0) (deadlines p \<inter> near now) best"
    unfolding best_def deadlines_def by (rule least_fold)
  have ff: "fast_forward_idle p = (if best = NOT 0 then (False, p)
      else (True, p\<lparr>p_bus := (p_bus p)\<lparr>b_clock := advance_to best (b_clock (p_bus p))\<rparr>\<rparr>))"
    using assms(1,2) by (simp add: fast_forward_idle_def best_def Let_def)
  have top: "- 1 \<notin> near now"
    using assms(3) unat_sub [of now "- 1"] 
    by (auto simp: near_def word_le_nat_alt word_less_nat_alt unsigned_minus_1_eq_mask mask_eq_exp_minus_1)
  show ?thesis
  proof (cases "best = NOT 0")
    case True
    then have "deadlines p \<inter> near now = {}"
      using l top by (auto simp: least_def word_order.extremum_unique)
    then show ?thesis
      using ff True assms(4) by simp
  next
    case False
    then have "best \<in> deadlines p \<inter> near now" "\<forall>d\<in>deadlines p \<inter> near now. best \<le> d"
      using l by (auto simp: least_def)
    moreover from this have "ck_mtime (b_clock (p_bus q)) = best" "ok" "q = p\<lparr>p_bus := (p_bus p)\<lparr>b_clock := b_clock (p_bus q)\<rparr>\<rparr>"
      using ff False assms(2,4) by (auto simp: advance_to_def near_def)
    ultimately show ?thesis
      by auto
  qed
qed

lemma fast_forward_exact_witness:
  "\<exists>ok q. fast_forward_idle (wire 10 sample_machine) = (ok, q) \<and>
    (ok \<longleftrightarrow> deadlines (wire 10 sample_machine) \<inter> near 0 \<noteq> {})"
proof -
  let ?p = "wire 10 sample_machine"
  obtain ok q where f: "fast_forward_idle ?p = (ok, q)"
    by fastforce
  have "p_wired ?p" "0 = ck_mtime (b_clock (p_bus ?p))"
    by (simp_all add: wire_def sample_machine_def platform_new_def Let_def sample_bus_def bus_try_new_def dram_try_new_def clock_new_def)
  from fast_forward_exact [OF this _ f] f show ?thesis
    by auto
qed

text \<open>C12: A kernel finds the machine as firmware leaves it. After the entry into supervisor mode, the first hart is in
  supervisor mode at the entry point with its identifier 0 and the device tree in the argument registers, all
  other harts are parked, and any trap of the first hart, the page fault at the start of paging among them, goes to
  the supervisor's own trap vector.\<close>

theorem kernel_entry:
  assumes "machine_inv p" "c_regfile (p_harts p ! 0) = None" "q = enter_supervisor entry dtb p" "h = p_harts q ! 0"
  shows "c_pc h = entry \<and> c_priv h = PRIV_SUPERVISOR \<and> fst (read_reg 10 h) = 0 \<and> fst (read_reg 11 h) = dtb \<and>
    c_hartid h = 0 \<and> c_sbi_enabled h \<and> p_mail q ! 0 = p_mail p ! 0 \<and>
    (\<forall>i. 0 < i \<and> i < length (p_harts p) \<longrightarrow> mb_parked (p_mail q ! i)) \<and>
    (\<forall>t. \<exists>h'. handle_trap_or_stop t h = (Inr (), h') \<and> c_priv h' = PRIV_SUPERVISOR \<and>
       c_pc h' = csr_read STVEC (c_csrs h) AND NOT MTVEC_MODE_MASK \<and>
       csr_raw (c_csrs h') SCAUSE = trap_cause_code t \<and> csr_raw (c_csrs h') SEPC = entry AND NOT 1)"
proof -
  have n: "0 < length (p_harts p)"
    using assms(1) by (simp add: machine_inv_def)
  have len: "length (p_harts (prepared entry dtb p)) = length (p_harts p)" "p_mail (prepared entry dtb p) = p_mail p"
    by (simp_all add: prepared_def Let_def)
  note all = park_all [OF machine_prepared [OF assms(1)], of "[1..<length (p_harts p)]" entry dtb]
  have "h = p_harts (prepared entry dtb p) ! 0"
    using all by (simp add: assms(3,4) enter_supervisor_parts len subset_iff)
  then have h: "h = write_reg 11 dtb (write_reg 10 0 ((delegate ((p_harts p ! 0)\<lparr>c_idle_on_wfi := True\<rparr>))
      \<lparr>c_priv := PRIV_SUPERVISOR, c_pc := entry\<rparr>))"
    using n by (simp add: prepared_def Let_def)
  then have "csr_raw (c_csrs h) MEDELEG = 0xffff"
    by (simp add: rv_frame delegate_def Let_def csr_write_def csr_write_mask_def)
  then have d: "delegated (trap_cause_code t) False (h\<lparr>c_last_trap := l\<rparr>)" for t l
    using h by (cases "t_cause t") (simp_all add: delegated_def delegated_exception_def trap_cause_code_def rv_frame)
  have "\<not> c_trap_fatal_without_handler h"
    using h by (simp add: write_reg_def delegate_def Let_def split: option.split)
  then have "\<exists>h'. handle_trap_or_stop t h = (Inr (), h') \<and> c_priv h' = PRIV_SUPERVISOR \<and>
       c_pc h' = csr_read STVEC (c_csrs h) AND NOT MTVEC_MODE_MASK \<and>
       csr_raw (c_csrs h') SCAUSE = trap_cause_code t \<and> csr_raw (c_csrs h') SEPC = c_pc h AND NOT 1" for t
    using Hart_Trap.enter_supervisor(1,2,4) [OF d refl] supervisor_vector [OF d refl]
    by (simp add: handle_trap_or_stop_def take_trap_def)
  moreover have "c_pc h = entry" "c_priv h = PRIV_SUPERVISOR" "fst (read_reg 10 h) = 0" "fst (read_reg 11 h) = dtb"
    "c_hartid h = 0" "c_sbi_enabled h"
    using assms(2) machine_hartD(3) [OF assms(1) n] unfolding h
    by (simp_all add: delegate_keeps rv_frame write_reg_def read_reg_def) (simp add: delegate_def Let_def)
  moreover have "p_mail q ! 0 = p_mail p ! 0" "mb_parked (p_mail q ! i)" if "0 < i" "i < length (p_harts p)" for i
    using all that by (simp_all add: assms(3) enter_supervisor_parts len subset_iff)
  ultimately show ?thesis
    using all by (simp add: assms(3) enter_supervisor_parts len subset_iff)
qed

lemma kernel_entry_witness:
  "c_pc (p_harts (enter_supervisor 0x80200000 0x82000000 sample_machine) ! 0) = 0x80200000"
  using kernel_entry [OF sample_machine_inv _ refl refl, of "0x80200000" "0x82000000"]
  by (simp add: sample_machine_def platform_new_def Let_def cpu_new_def)

end
