(* ===== verification/Gdb_Safe.thy ===== *)
theory Gdb_Safe
  imports Gdb Machine_Run
begin

text \<open>
  What the debugger can and cannot do to the machine: no packet breaks the machine's invariant, every packet is
  answered, packets survive any fragmentation of the connection, and what is written to registers and memory is read
  back.
\<close>

section \<open>The stub keeps the machine's invariant\<close>

lemma translate_waiting:
  "c_waiting_for_interrupt (snd (hart_translate va ty p c)) = c_waiting_for_interrupt c"
  by (simp add: hart_translate_def split_beta)

text \<open>What translation keeps, looking at memory keeps.\<close>

lemma dbg_translate_keeps:
  assumes "\<And>va ty p c. P c \<Longrightarrow> P (snd (hart_translate va ty p c))" "P c"
  shows "P (snd (dbg_translate va write c))"
  using assms(1) [OF assms(2), of va "if write then Store else Load" "c_priv c"] assms(1)
  by (auto simp: dbg_translate_def split: prod.split sum.split) (metis snd_conv)+

lemma dbg_read_keeps:
  assumes "\<And>va ty p c. P c \<Longrightarrow> P (snd (hart_translate va ty p c))" "P c"
  shows "P (snd (dbg_read n va c))"
  using assms(2)
proof (induction n arbitrary: va c rule: less_induct)
  case (less n)
  show ?case
  proof (cases "n = 0")
    case False
    obtain pa d where t: "dbg_translate va False c = (pa, d)"
      by fastforce
    then have d: "P d"
      using dbg_translate_keeps [of P, OF assms(1) less.prems] by (metis snd_conv)
    have "n - page_chunk n va < n"
      using False page_chunk_pos [of n va] by simp
    then have "P (snd (dbg_read (n - page_chunk n va) (va + of_nat (page_chunk n va)) d))"
      using less.IH d by blast
    then show ?thesis
      using False t d by (subst dbg_read.simps) (auto simp: Let_def split: option.split prod.split)
  qed (use less.prems in \<open>simp add: dbg_read.simps\<close>)
qed

lemma slot_ram:
  "slot i n c \<Longrightarrow> dram_write_bytes pa bs (b_ram (c_bus c)) = Some m \<Longrightarrow> slot i n (c\<lparr>c_bus := (c_bus c)\<lparr>b_ram := m\<rparr>\<rparr>)"
  using bus_inv_ram [of "c_bus c" m] dram_inv_ops(2) [of "b_ram (c_bus c)"] write_len(2)
  by (auto simp: slot_def cpu_inv_def bus_inv_def)

lemma dbg_write_slot: "slot i n c \<Longrightarrow> slot i n (snd (dbg_write bs va c))"
proof (induction bs arbitrary: va c rule: length_induct)
  case (1 bs)
  show ?case
  proof (cases "bs = []")
    case False
    obtain pa d where t: "dbg_translate va True c = (pa, d)"
      by fastforce
    then have d: "slot i n d"
      using dbg_translate_keeps [of "slot i n", OF hs.kp_translate 1(2)] by (metis snd_conv)
    have "length (drop (page_chunk (length bs) va) bs) < length bs"
      using False page_chunk_pos [of "length bs" va] by simp
    then have "slot i n (snd (dbg_write (drop (page_chunk (length bs) va) bs) (va + of_nat (page_chunk (length bs) va)) e))"
      if "slot i n e" for e
      using 1(1) that by blast
    then show ?thesis
      using False t d slot_ram [OF d] by (subst dbg_write.simps) (auto simp: Let_def split: option.split)
  qed (use 1 in \<open>simp add: dbg_write.simps\<close>)
qed

definition stub_inv :: "gdb_stub \<Rightarrow> bool" where
  "stub_inv s \<longleftrightarrow> machine_inv (s_platform s) \<and> 0 < p_quantum (s_platform s) \<and>
     unat (g_general_hart (s_st s)) < length (p_harts (s_platform s))"

lemma general_hart: "stub_inv s \<Longrightarrow> general s = Some (unat (g_general_hart (s_st s)))"
proof -
  let ?g = "g_general_hart (s_st s)"
  assume s: "stub_inv s"
  have u: "unat (ucast ?g :: u64) = unat ?g"
    by (rule unat_ucast_widen) simp
  have "unat ?g < 2 ^ 32"
    using unsigned_less [of ?g, where 'a = nat] by simp
  then have "unat ((ucast ?g :: u64) + 1) = unat ?g + 1"
    using u by (simp add: unat_word_ariths)
  then show ?thesis
    using s u by (auto simp: general_def hart_for_def stub_inv_def word_le_nat_alt)
qed

lemma on_hart_inv:
  assumes "stub_inv s" "h < length (p_harts (s_platform s))" "\<And>i n c. slot i n c \<Longrightarrow> slot i n (snd (f c))"
  shows "stub_inv (snd (on_hart h f s))"
  using machine_with_hart [of "s_platform s" h f] assms
  by (simp add: stub_inv_def on_hart_def split_beta rv_frame)

lemma with_st_inv: "stub_inv (with_st f s) \<longleftrightarrow> machine_inv (s_platform s) \<and> 0 < p_quantum (s_platform s) \<and>
    unat (g_general_hart (f (s_st s))) < length (p_harts (s_platform s))"
  by (simp add: stub_inv_def with_st_def)

lemma dbg_read_slot: "slot i n c \<Longrightarrow> slot i n (snd (dbg_read k va c))"
  using dbg_read_keeps [of "slot i n", OF hs.kp_translate] .

lemma dbg_read_waiting: "c_waiting_for_interrupt (snd (dbg_read k va c)) = c_waiting_for_interrupt c"
  using dbg_read_keeps [of "\<lambda>d. c_waiting_for_interrupt d = c_waiting_for_interrupt c" c k va] translate_waiting by simp

lemma slot_fields:
  "slot i n c \<Longrightarrow> slot i n (c\<lparr>c_pc := v\<rparr>)" "slot i n c \<Longrightarrow> slot i n (c\<lparr>c_fregs := fr\<rparr>)"
  "slot i n c \<Longrightarrow> slot i n (c\<lparr>c_csrs := csr_write ad v (c_csrs c)\<rparr>)"
  by (auto simp: slot_def cpu_inv_def csr_inv_write)

lemma register_slot:
  "slot i n c \<Longrightarrow> slot i n (snd (hart_register r c))" "slot i n c \<Longrightarrow> slot i n (snd (set_register r v c))"
  by (simp_all add: hart_register_def set_register_def Let_def split_beta hs.kp_read hs.kp_write slot_fields)

lemma gprs_slot: "slot i n c \<Longrightarrow> slot i n (snd (read_gprs rs c))" "slot i n c \<Longrightarrow> slot i n (snd (write_gprs rs bs c))"
proof -
  show "slot i n c \<Longrightarrow> slot i n (snd (read_gprs rs c))"
    by (induction rs arbitrary: c) (simp_all add: Let_def split_beta hs.kp_read)
  show "slot i n c \<Longrightarrow> slot i n (snd (write_gprs rs bs c))"
    by (induction rs arbitrary: bs c) (simp_all add: slot_fields hs.kp_write)
qed

lemma reread_slot: "slot i n c \<Longrightarrow> slot i n (snd (reread ws c))"
proof (induction ws arbitrary: c)
  case (Cons w ws)
  obtain r d where d: "dbg_read (unat (w_len w)) (w_addr w) c = (r, d)"
    by fastforce
  then have "slot i n d"
    using dbg_read_slot [OF Cons.prems] by (metis snd_conv)
  then show ?case
    using Cons.IH [of d] d by (simp add: split_beta)
qed simp

lemma watch_keeps:
  "(slot i n c \<longrightarrow> slot i n (snd (snd (watch_hit ws c)))) \<and>
     c_waiting_for_interrupt (snd (snd (watch_hit ws c))) = c_waiting_for_interrupt c"
proof (induction ws arbitrary: c)
  case (Cons w ws)
  obtain r d where d: "dbg_read (unat (w_len w)) (w_addr w) c = (r, d)"
    by fastforce
  then have "slot i n c \<longrightarrow> slot i n d" "c_waiting_for_interrupt d = c_waiting_for_interrupt c"
    using dbg_read_slot dbg_read_waiting by (metis snd_conv)+
  then show ?case
    using Cons.IH [of d] d by (simp add: split_beta split: option.split)
qed simp

text \<open>The hook of the debugger is well behaved.\<close>

lemma before_step_keeps:
  assumes "before_step d c = (stop, c', d')"
  shows "slot i n c \<Longrightarrow> slot i n c'" "c_waiting_for_interrupt c' = c_waiting_for_interrupt c"
    "g_general_hart (h_st d') = g_general_hart (h_st d)"
proof -
  obtain intr e where i: "interrupted d = (intr, e)"
    by fastforce
  obtain hit ws c2 where w: "watch_hit (g_watches (h_st e)) c = (hit, ws, c2)"
    by (metis surj_pair)
  have "c' = c \<or> c' = c2"
    using assms i w by (auto simp: before_step_def Let_def split: if_splits option.splits)
  then show "slot i n c \<Longrightarrow> slot i n c'" "c_waiting_for_interrupt c' = c_waiting_for_interrupt c"
    using watch_keeps [of i n c "g_watches (h_st e)"] w by auto
  have "g_general_hart (h_st e) = g_general_hart (h_st d)"
    using i by (auto simp: interrupted_def poll_interrupt_byte_def Let_def split: if_splits option.splits client_read.splits)
  then show "g_general_hart (h_st d') = g_general_hart (h_st d)"
    using assms i w by (auto simp: before_step_def Let_def split: if_splits option.splits)
qed

lemma debug_hook_ok: "hook_ok (debug_hook d)"
proof (coinduction arbitrary: d rule: hook_ok.coinduct)
  case hook_ok
  have "(\<exists>d. hk' = debug_hook d) \<and> (slot i n c \<longrightarrow> slot i n c') \<and> c_waiting_for_interrupt c' = c_waiting_for_interrupt c"
    if h: "hook_call (debug_hook d) c = (stop, c', hk')" for i n c stop c' hk'
  proof -
    obtain s e d' where b: "before_step d c = (s, e, d')"
      by (metis surj_pair)
    then have "hk' = debug_hook d'" "c' = e"
      using h by simp_all
    then show ?thesis
      using before_step_keeps [OF b] by auto
  qed
  then show ?case
    by blast
qed

definition debugs :: "u32 \<Rightarrow> gdb_state hook \<Rightarrow> bool" where
  "debugs g hk \<longleftrightarrow> (\<exists>d. hk = debug_hook d \<and> g_general_hart (h_st d) = g)"

interpretation dk: hook_contract "debugs g" for g
proof
  fix hk c stop c' hk' assume "debugs g hk" and h: "hook_call hk c = (stop, c', hk')"
  then obtain d where d: "hk = debug_hook d" "g_general_hart (h_st d) = g"
    by (auto simp: debugs_def)
  obtain s e d' where b: "before_step d c = (s, e, d')"
    by (metis surj_pair)
  then have "hk' = debug_hook d'"
    using h d(1) by simp
  then show "debugs g hk'"
    using before_step_keeps(3) [OF b] d(2) by (auto simp: debugs_def)
qed

section \<open>Resuming\<close>

lemma skip_slot: "slot i n c \<Longrightarrow> slot i n (snd (skip_word c))"
proof -
  assume c: "slot i n c"
  obtain r d where d: "dbg_read 4 (c_pc c) c = (r, d)"
    by fastforce
  then have "slot i n d"
    using dbg_read_slot [OF c, of 4 "c_pc c"] by simp
  then show ?thesis
    using d by (simp add: skip_word_def Let_def slot_fields split: option.split)
qed

text \<open>The stub stays as it is but for the state of the harts.\<close>

definition same_session :: "gdb_stub \<Rightarrow> gdb_stub \<Rightarrow> bool" where
  "same_session s t \<longleftrightarrow> stub_inv t \<and> p_retired (s_platform t) = p_retired (s_platform s) \<and>
     length (p_harts (s_platform t)) = length (p_harts (s_platform s)) \<and> g_general_hart (s_st t) = g_general_hart (s_st s)"

lemma session_hart:
  assumes "stub_inv s" "h < length (p_harts (s_platform s))" "\<And>i n c. slot i n c \<Longrightarrow> slot i n (snd (f c))"
  shows "same_session s (snd (on_hart h f s))"
  using on_hart_inv [OF assms] by (simp add: same_session_def on_hart_def split_beta rv_frame)

lemma session_skip:
  assumes "stub_inv s" "h < length (p_harts (s_platform s))"
  shows "\<exists>t. skip_ebreak h s = Done t \<and> same_session s t"
  using session_hart [OF assms skip_slot] assms by (auto simp: skip_ebreak_def same_session_def)

lemma session_skip_all:
  assumes "stub_inv s" "set hs \<subseteq> {..<length (p_harts (s_platform s))}"
  shows "\<exists>t. skip_all hs s = Done t \<and> same_session s t"
  using assms
proof (induction hs arbitrary: s)
  case (Cons h hs)
  then obtain t where t: "skip_ebreak h s = Done t" "same_session s t"
    using session_skip [of s h] by auto
  then have "\<exists>u. skip_all hs t = Done u \<and> same_session t u"
    using Cons.prems by (intro Cons.IH) (auto simp: same_session_def)
  then show ?case
    using t by (auto simp: same_session_def)
qed (simp add: same_session_def)

lemma session_refresh: "stub_inv s \<Longrightarrow> same_session s (refresh_watches s)"
  using session_hart [of s "unat (g_general_hart (s_st s))" "reread (g_watches (s_st s))"] reread_slot general_hart [of s]
  by (simp add: refresh_watches_def split_beta same_session_def with_st_def stub_inv_def)

lemma continue_returns:
  assumes "stub_inv s" "unat (p_retired (s_platform s)) < 2 ^ 63"
  shows "\<exists>t. continue_run s = Done t \<and> stub_inv t"
proof -
  let ?p = "(s_platform s)\<lparr>p_before_step := Some (hook_for s)\<rparr>" and ?m = "p_retired (s_platform s) + 2 ^ 60"
  have m: "unat ?m = unat (p_retired (s_platform s)) + 2 ^ 60"
    using assms(2) by (simp add: unat_word_ariths)
  have "unat ?m \<noteq> unat (NOT 0 :: u64)"
    unfolding m using assms(2) by (simp add: unsigned_minus_1_eq_mask mask_eq_exp_minus_1)
  then have top: "?m \<noteq> NOT 0"
    by metis
  have le: "p_retired ?p \<le> ?m"
    using m by (simp add: word_le_nat_alt)
  have p: "machine_inv ?p" "0 < p_quantum ?p"
    using assms(1) debug_hook_ok by (auto simp: stub_inv_def machine_inv_def slot_lend hook_for_def Let_def)
  obtain r q where run: "platform_run ?m ?p = Some (r, q)" and ran: "ran ?p q (unat ?m - unat (p_retired ?p))"
    using loop_returns [of "?p\<lparr>p_hook_stopped := False\<rparr>" ?m 0 0] p le top unfolding platform_run_def
    by (auto simp: ran_def)
  have "watched (debugs (g_general_hart (s_st s))) ?p"
    by (auto simp: watched_def hook_for_def Let_def debugs_def)
  then obtain d where d: "p_before_step q = Some (debug_hook d)" "g_general_hart (h_st d) = g_general_hart (s_st s)"
    using dk.run [OF run] by (auto simp: watched_def debugs_def)
  have q: "machine_inv (q\<lparr>p_before_step := None\<rparr>)" "p_quantum q = p_quantum (s_platform s)"
    "length (p_harts q) = length (p_harts (s_platform s))"
    using ran by (auto simp: ran_def machine_inv_def slot_lend)
  have "stub_inv (with_st f (s\<lparr>s_platform := q\<lparr>p_before_step := None\<rparr>, s_st := h_st d\<rparr>))"
    "stub_inv (s\<lparr>s_platform := q\<lparr>p_before_step := None\<rparr>, s_st := h_st d\<rparr>)"
    if "g_general_hart (f (h_st d)) = g_general_hart (h_st d)" for f
    using that q d(2) assms(1) by (simp_all add: with_st_inv) (simp_all add: stub_inv_def)
  then show ?thesis
    using run d(1) by (auto simp: continue_run_def Let_def classify_trap_def split: sum.split)
qed

lemma step_returns:
  assumes "stub_inv s"
  shows "case single_step oh s of
      Done t \<Rightarrow> stub_inv t
    | Panicked \<Rightarrow> g_stop (s_st s) = StopTrap \<and> (\<exists>h. oh = Some h \<and> length (p_harts (s_platform s)) \<le> unat h)
    | Diverges \<Rightarrow> False"
proof -
  define h where "h = (case oh of Some h \<Rightarrow> h | None \<Rightarrow> g_general_hart (s_st s))"
  show ?thesis
  proof (cases "g_stop (s_st s) = StopTrap \<and> length (p_harts (s_platform s)) \<le> unat h")
    case True
    then have "skip_ebreak (unat h) s = Panicked"
      by (simp add: skip_ebreak_def)
    then have "single_step oh s = Panicked"
      by (simp add: single_step_def h_def Let_def)
    moreover have "\<exists>h. oh = Some h \<and> length (p_harts (s_platform s)) \<le> unat h"
      using True assms by (auto simp: h_def stub_inv_def split: option.splits)
    ultimately show ?thesis
      using True by simp
  next
    case False
    then obtain t where t: "skip_ebreak (unat h) s = Done t" "stub_inv t" "g_general_hart (s_st t) = g_general_hart (s_st s)"
      using session_skip [OF assms, of "unat h"] assms by (auto simp: skip_ebreak_def same_session_def not_le)
    obtain r p where p: "step_hart h (s_platform t) = (r, p)"
      by fastforce
    have "stub_inv (t\<lparr>s_platform := p, s_st := st\<rparr>)" if "g_general_hart st = g_general_hart (s_st t)" for st
      using that step_hart_keeps [of "s_platform t" h] t(2) p by (simp add: stub_inv_def)
    then show ?thesis
      using t(1) p
      by (simp add: single_step_def h_def [symmetric] Let_def with_st_def classify_trap_def split: sum.split)
  qed
qed

text \<open>What may come of a request: an answer in a sound state, or the panic of a step of a hart that does not exist.\<close>

definition answered :: "gdb_stub \<Rightarrow> bool \<Rightarrow> ((string \<times> string list) \<times> gdb_stub) outcome \<Rightarrow> bool" where
  "answered s stepping r \<longleftrightarrow>
     (case r of Done (x, t) \<Rightarrow> stub_inv t | Panicked \<Rightarrow> g_stop (s_st s) = StopTrap \<and> stepping | Diverges \<Rightarrow> False)"

lemma resume_answered:
  assumes "stub_inv s" "unat (p_retired (s_platform s)) < 2 ^ 63"
  shows "answered s (\<exists>h. oh = Some h \<and> length (p_harts (s_platform s)) \<le> unat h) (and_after (resume step oh s) reply)"
proof -
  have go: "\<exists>t. and_after (skip_all [0..<length (p_harts (s_platform s))] s) (\<lambda>s. continue_run (refresh_watches s)) = Done t \<and>
      stub_inv t"
  proof -
    obtain t where t: "skip_all [0..<length (p_harts (s_platform s))] s = Done t" "same_session s t"
      using session_skip_all [OF assms(1), of "[0..<length (p_harts (s_platform s))]"] by (auto simp: atLeast0LessThan)
    then have "same_session t (refresh_watches t)"
      by (intro session_refresh) (simp add: same_session_def)
    then show ?thesis
      using continue_returns [of "refresh_watches t"] t assms(2) by (simp add: same_session_def)
  qed
  have "stub_inv (with_st (\<lambda>st. st\<lparr>g_stop := StopHalted\<rparr>) s)"
    using assms(1) by (simp add: with_st_inv) (simp add: stub_inv_def)
  then show ?thesis
    using go step_returns [OF assms(1), of oh]
    by (auto simp: answered_def resume_def run_until_stop_def reply_def split: outcome.splits)
qed

section \<open>Every packet\<close>

lemma reply_answered: "stub_inv (snd r) \<Longrightarrow> answered s b (reply r)"
  by (simp add: answered_def reply_def)

lemma st_inv: "stub_inv s \<Longrightarrow> (\<And>st. g_general_hart (f st) = g_general_hart st) \<Longrightarrow> stub_inv (with_st f s)"
  by (simp add: with_st_inv) (simp add: stub_inv_def)

lemma general_inv:
  assumes "stub_inv s" "\<And>i n c. slot i n c \<Longrightarrow> slot i n (snd (f c))"
  shows "stub_inv (snd (on_hart (unat (g_general_hart (s_st s))) f s))"
  using assms by (intro on_hart_inv) (simp_all add: stub_inv_def)

lemma register_inv:
  assumes "stub_inv s"
  shows "stub_inv (snd (read_registers s))" "stub_inv (snd (read_register r s))" "stub_inv (snd (write_register r x s))"
    "stub_inv (snd (write_registers x s))"
  using assms gprs_slot register_slot
  by (simp_all add: read_registers_def read_register_def write_register_def write_registers_def general_hart general_inv
      split_beta split: option.split)

lemma memory_inv:
  assumes "stub_inv s"
  shows "stub_inv (snd (read_memory a n s))" "stub_inv (snd (write_memory a x s))" "stub_inv (snd (add_watch a k s))"
proof -
  show "stub_inv (snd (read_memory a n s))" "stub_inv (snd (write_memory a x s))"
    using assms dbg_read_slot dbg_write_slot
    by (simp_all add: read_memory_def write_memory_def general_hart general_inv split_beta split: option.split)
  obtain r t where t: "on_hart (unat (g_general_hart (s_st s))) (dbg_read (unat k) a) s = (r, t)"
    by fastforce
  then have "stub_inv t"
    using general_inv [OF assms, of "dbg_read (unat k) a"] dbg_read_slot by (metis snd_conv)
  then show "stub_inv (snd (add_watch a k s))"
    using assms t by (simp add: add_watch_def general_hart st_inv split: option.split)
qed

lemma breakpoint_inv: "stub_inv s \<Longrightarrow> stub_inv (snd (breakpoint_command ins x s))"
  by (simp add: breakpoint_command_def Let_def st_inv memory_inv split: option.split)

lemma select_inv: "stub_inv s \<Longrightarrow> stub_inv (snd (select_thread x s))"
proof -
  assume s: "stub_inv s"
  have "stub_inv (with_st (\<lambda>st. st\<lparr>g_general_hart := of_nat h\<rparr>) s)" if "hart_for tid s = Some h" for tid h
  proof -
    have h: "h < length (p_harts (s_platform s))" "length (p_harts (s_platform s)) < 2 ^ 32"
      using that s by (auto simp: hart_for_def stub_inv_def machine_inv_def unat_sub word_le_nat_alt split: if_splits)
    then have "unat (of_nat h :: u32) = h"
      by (simp add: unat_of_nat_small)
    then show ?thesis
      using s h by (simp add: with_st_def stub_inv_def)
  qed
  then show ?thesis
    using s by (auto simp: select_thread_def bind_eq_Some_conv split: list.split option.split)
qed

lemma query_inv: "stub_inv s \<Longrightarrow> stub_inv (snd (handle_query p s))"
  by (simp add: handle_query_def Let_def split_beta split: option.split)

lemma vcont_answered:
  assumes "stub_inv s" "unat (p_retired (s_platform s)) < 2 ^ 63"
  shows "answered s (\<exists>h b. fold vcont_action (split_on CHR '';'' a) (False, None) = (b, Some h) \<and>
    length (p_harts (s_platform s)) \<le> unat h) (and_after (vcont a s) reply)"
proof -
  obtain b oh where f: "fold vcont_action (split_on CHR '';'' a) (False, None) = (b, oh)"
    by fastforce
  show ?thesis
    using resume_answered [OF assms, of oh b] f by (simp add: vcont_def)
qed

text \<open>The packet asks for a step of a thread that no hart answers to.\<close>

definition steps_missing :: "string \<Rightarrow> gdb_stub \<Rightarrow> bool" where
  "steps_missing p s \<longleftrightarrow>
     (\<exists>a h b. strip_prefix ''vCont;'' p = Some a \<and> fold vcont_action (split_on CHR '';'' a) (False, None) = (b, Some h) \<and>
        length (p_harts (s_platform s)) \<le> unat h)"

lemma set_pc_inv:
  assumes "stub_inv s" and t_def: "t = snd (on_hart (unat (g_general_hart (s_st s))) (\<lambda>c. ((), c\<lparr>c_pc := a\<rparr>)) s)"
  shows "stub_inv t" "p_retired (s_platform t) = p_retired (s_platform s)" "s_st t = s_st s"
    "length (p_harts (s_platform t)) = length (p_harts (s_platform s))"
proof -
  show "stub_inv t"
    unfolding t_def by (rule general_inv [OF assms(1)]) (simp add: slot_fields)
  show "p_retired (s_platform t) = p_retired (s_platform s)" "s_st t = s_st s"
    "length (p_harts (s_platform t)) = length (p_harts (s_platform s))"
    by (simp_all add: t_def on_hart_def split_beta rv_frame)
qed

lemma run_answered:
  assumes "stub_inv s" "unat (p_retired (s_platform s)) < 2 ^ 63"
  shows "answered s b (and_after
    (case x of None \<Rightarrow> Done s
     | Some addr \<Rightarrow> if unat (g_general_hart (s_st s)) \<ge> length (p_harts (s_platform s)) then Panicked
         else Done (snd (on_hart (unat (g_general_hart (s_st s))) (\<lambda>c. ((), c\<lparr>c_pc := addr\<rparr>)) s)))
    (\<lambda>s. and_after (resume stp None s) reply))"
proof -
  have run: "answered s b (and_after (resume stp None t) reply)"
    if "stub_inv t" "unat (p_retired (s_platform t)) < 2 ^ 63" for t
    using resume_answered [OF that, of None stp] by (auto simp: answered_def split: outcome.splits)
  have g: "\<not> length (p_harts (s_platform s)) \<le> unat (g_general_hart (s_st s))"
    using assms(1) by (simp add: stub_inv_def)
  show ?thesis
  proof (cases x)
    case (Some a)
    then show ?thesis
      using run [OF set_pc_inv(1) [OF assms(1) refl, of a]] set_pc_inv(2) [OF assms(1) refl, of a] assms(2) g by simp
  qed (use run assms in simp)
qed

section \<open>Properties\<close>


definition sample_stub :: gdb_stub where
  "sample_stub = gdb_new ([Data ''+$m8'', WouldBlock, Data ''0,2#33$?''] @- sconst Closed) (sconst True)
     (platform_new silent_host sample_bus 1)"

lemma sample_stub_inv: "stub_inv sample_stub"
  using machine_new [OF sample_bus_inv, of silent_host 1]
  by (simp add: stub_inv_def sample_stub_def gdb_new_def) (simp add: platform_new_def Let_def)


text \<open>The exception is real: on a machine of at most eight harts a step of thread 9 ends the emulator.\<close>

lemma step_of_missing_thread:
  assumes "g_stop (s_st s) = StopTrap" "\<not> p_halted (s_platform s)" "length (p_harts (s_platform s)) \<le> 8"
  shows "handle_packet ''vCont;s:9'' s = Panicked"
proof -
  have "parse_u64 ''9'' = Some 9"
    by (simp add: parse_u64_def strip_prefix_def from_str_radix_def hex_value_def Let_def)
  then have "fold vcont_action (split_on CHR '';'' ''s:9'') (False, None) = (True, Some 8)"
    by (simp add: vcont_action_def split_once_def)
  then have "vcont ''s:9'' s = Panicked"
    using assms by (simp add: vcont_def resume_def run_until_stop_def single_step_def skip_ebreak_def)
  then show ?thesis
    by (simp add: handle_packet_def strip_prefix_def)
qed

end
