(* ===== verification/Gdb_Frame.thy ===== *)
theory Gdb_Frame
  imports Virtio_Ring Gdb_Safe
begin

text \<open>
  Round trips of the debugging protocol: hexadecimal, packets over a connection that cuts them anywhere, and registers
  and memory of the guest.
\<close>

section \<open>Hexadecimal\<close>

lemma hex_digit_value: "n < 16 \<Longrightarrow> hex_value (hex_digit n) = Some (of_nat n)"
proof -
  have "list_all (\<lambda>n. hex_value (hex_digit n) = Some (of_nat n)) [0..<16]"
    by code_simp
  then show "n < 16 \<Longrightarrow> hex_value (hex_digit n) = Some (of_nat n)"
    by (simp add: list_all_iff)
qed

lemma nibbles: "push_bit 4 (drop_bit 4 b) OR (b AND 15) = (b :: u8)"
  by (rule bit_word_eqI) (auto simp: bit_simps mask_bits)

lemma nibble_values: "unat (drop_bit 4 b) < 16" "unat (b AND 15) < 16" for b :: u8
  using unsigned_less [of b, where 'a = nat] unat_and_mask_less [of b 4]
  by (simp_all add: unat_drop_bit_div mask_eq_exp_minus_1 less_mult_imp_div_less)

lemma from_to_hex: "from_hex (to_hex bs) = Some bs"
proof (induction bs)
  case (Cons b bs)
  then show ?case
    using nibble_values [of b] by (simp add: to_hex_def hex_digit_value nibbles)
qed (simp add: to_hex_def)

section \<open>Packets\<close>

lemma checksum_digits:
  fixes s :: u32
  defines "n \<equiv> unat (s AND 0xff)"
  shows "hex_value (hex_digit (n div 16)) = Some (of_nat (n div 16))" "hex_value (hex_digit (n mod 16)) = Some (of_nat (n mod 16))"
    "ucast (push_bit 4 (of_nat (n div 16) :: u8) OR of_nat (n mod 16)) = s AND 0xff"
proof -
  have n: "n < 256"
    unfolding n_def using unat_and_low_mask(6) [of s] .
  show "hex_value (hex_digit (n div 16)) = Some (of_nat (n div 16))" "hex_value (hex_digit (n mod 16)) = Some (of_nat (n mod 16))"
    using n by (simp_all add: hex_digit_value)
  have "\<not> bit (push_bit 4 (of_nat (n div 16)) :: u8) k \<or> \<not> bit (of_nat (n mod 16) :: u8) k" for k
    using bit_less_exp [of "of_nat (n mod 16) :: u8" k 4] n by (auto simp: bit_push_bit_iff unat_of_nat_small)
  then have "push_bit 4 (of_nat (n div 16)) OR of_nat (n mod 16) = push_bit 4 (of_nat (n div 16) :: u8) + of_nat (n mod 16)"
    by (simp add: disjunctive_add)
  also have "\<dots> = of_nat (n div 16 * 16 + n mod 16)"
    by (simp only: push_bit_eq_mult of_nat_add of_nat_mult) simp
  also have "\<dots> = of_nat n"
    by simp
  finally have "push_bit 4 (of_nat (n div 16) :: u8) OR of_nat (n mod 16) = of_nat n" .
  then show "ucast (push_bit 4 (of_nat (n div 16) :: u8) OR of_nat (n mod 16)) = s AND 0xff"
    by (simp add: n_def) (rule bit_word_eqI, auto simp: bit_simps mask_bits)
qed

lemma packet_parts:
  assumes "CHR ''#'' \<notin> set payload"
  shows "encode_packet payload = CHR ''$'' # payload @ CHR ''#'' # drop (length payload + 2) (encode_packet payload)"
    "length (encode_packet payload) = length payload + 4"
    "takeWhile (\<lambda>b. b \<noteq> CHR ''#'') (encode_packet payload @ r) = CHR ''$'' # payload"
  using assms by (simp_all add: encode_packet_def Let_def takeWhile_append)

lemma buffered_acks:
  "g_inbuf st = replicate k CHR ''+'' @ x \<Longrightarrow> read_buffered st = read_buffered (st\<lparr>g_inbuf := x\<rparr>)"
proof (induction k arbitrary: st)
  case 0
  then have "st\<lparr>g_inbuf := x\<rparr> = st"
    by simp
  then show ?case
    by simp
next
  case (Suc k)
  have "read_buffered st = read_buffered (st\<lparr>g_inbuf := replicate k CHR ''+'' @ x\<rparr>)"
    using Suc.prems by (subst read_buffered.simps) simp
  then show ?case
    using Suc.IH [of "st\<lparr>g_inbuf := replicate k CHR ''+'' @ x\<rparr>"] by simp
qed

lemma buffered_packet:
  assumes "CHR ''#'' \<notin> set payload" "g_inbuf st = encode_packet payload @ r"
  shows "read_buffered st = (Some payload, snd (write_client ''+'' (st\<lparr>g_inbuf := r\<rparr>)))"
proof -
  have "takeWhile (\<lambda>b. b \<noteq> CHR ''#'') (g_inbuf st) = CHR ''$'' # payload"
    using packet_parts(3) [OF assms(1)] assms(2) by simp
  moreover have "drop (4 + length payload) (a # payload @ b # c # d # r) = r" for a b c d
    by (simp add: drop_Cons')
  ultimately show ?thesis
    using assms checksum_digits [of "checksum payload"]
    by (subst read_buffered.simps) (simp add: encode_packet_def Let_def nth_append)
qed

lemma buffered_partial:
  assumes "CHR ''#'' \<notin> set payload" "g_inbuf st @ y = encode_packet payload" "y \<noteq> []"
  shows "read_buffered st = (None, st)"
proof (cases "g_inbuf st")
  case (Cons c x)
  have c: "c = CHR ''$''"
    using assms(2) Cons by (simp add: encode_packet_def Let_def)
  have len: "length (g_inbuf st) < length payload + 4"
    using assms packet_parts(2) [OF assms(1)] by (metis length_append length_greater_0_conv less_add_same_cancel1)
  have "takeWhile (\<lambda>b. b \<noteq> CHR ''#'') (g_inbuf st) = CHR ''$'' # payload" if "CHR ''#'' \<in> set (g_inbuf st)"
    using packet_parts(3) [OF assms(1), of "[]"] assms(2) that takeWhile_append1 [of "CHR ''#''" "g_inbuf st"]
    by (metis (full_types) append_Nil2)
  then show ?thesis
    using Cons c len by (subst read_buffered.simps) auto
qed (subst read_buffered.simps, simp)

section \<open>The connection\<close>

text \<open>What the reads of the connection bring.\<close>

fun data_of :: "client_read list \<Rightarrow> string" where
  "data_of [] = []"
| "data_of (Data bs # ev) = bs @ data_of ev"
| "data_of (e # ev) = data_of ev"

definition live :: "client_read \<Rightarrow> bool" where
  "live e \<longleftrightarrow> e \<noteq> Closed \<and> e \<noteq> Failed"

text \<open>
  The next packet has been taken: acknowledged, its bytes consumed and no others.
\<close>

definition took :: "client_read list \<Rightarrow> client_read stream \<Rightarrow> string \<Rightarrow> gdb_state \<Rightarrow> gdb_state \<Rightarrow> bool" where
  "took ev tail extra st st' \<longleftrightarrow>
     (\<exists>n\<le>length ev. g_socket st' = drop n ev @- tail \<and> g_inbuf st' @ data_of (drop n ev) = extra) \<and>
     g_sent st' = g_sent st @ ''+''"

lemma prefix_cases:
  "b @ d = u @ x \<Longrightarrow> (\<exists>e. b = u @ e \<and> e @ d = x) \<or> (\<exists>y. y \<noteq> [] \<and> b @ y = u \<and> d = y @ x)"
  by (auto simp: append_eq_append_conv2)

lemma buffered_progress:
  assumes "CHR ''#'' \<notin> set payload" "g_inbuf st @ d = replicate k CHR ''+'' @ encode_packet payload @ extra"
  shows "(\<exists>e. read_buffered st = (Some payload, snd (write_client ''+'' (st\<lparr>g_inbuf := e\<rparr>))) \<and> e @ d = extra) \<or>
    (\<exists>b k'. read_buffered st = (None, st\<lparr>g_inbuf := b\<rparr>) \<and> b @ d = replicate k' CHR ''+'' @ encode_packet payload @ extra \<and> d \<noteq> [])"
  using prefix_cases [OF assms(2)]
proof (elim disjE exE conjE)
  fix b assume b: "g_inbuf st = replicate k CHR ''+'' @ b" "b @ d = encode_packet payload @ extra"
  have r: "read_buffered st = read_buffered (st\<lparr>g_inbuf := b\<rparr>)"
    by (rule buffered_acks [OF b(1)])
  show ?thesis
    using prefix_cases [OF b(2)]
  proof (elim disjE exE conjE)
    fix e assume "b = encode_packet payload @ e" "e @ d = extra"
    then show ?thesis
      using r buffered_packet [OF assms(1), of "st\<lparr>g_inbuf := b\<rparr>" e] by auto
  next
    fix y assume "y \<noteq> []" "b @ y = encode_packet payload" "d = y @ extra"
    then have "read_buffered st = (None, st\<lparr>g_inbuf := b\<rparr>) \<and> b @ d = replicate 0 CHR ''+'' @ encode_packet payload @ extra \<and> d \<noteq> []"
      using r buffered_partial [OF assms(1), of "st\<lparr>g_inbuf := b\<rparr>" y] by simp
    then show ?thesis
      by blast
  qed
next
  fix y assume y: "y \<noteq> []" "g_inbuf st @ y = replicate k CHR ''+''" "d = y @ encode_packet payload @ extra"
  then have "g_inbuf st = replicate (length (g_inbuf st)) CHR ''+''" "y = replicate (length y) CHR ''+''"
    by (metis append_eq_append_conv length_append length_replicate replicate_add)+
  then have "read_buffered st = (None, st\<lparr>g_inbuf := []\<rparr>) \<and> [] @ d = replicate (length y) CHR ''+'' @ encode_packet payload @ extra \<and> d \<noteq> []"
    using buffered_acks [of st "length (g_inbuf st)" "[]"] y(1,3) by (simp add: read_buffered.simps [of "st\<lparr>g_inbuf := []\<rparr>"])
  then show ?thesis
    by blast
qed

lemma take_packet:
  assumes "CHR ''#'' \<notin> set payload" "list_all live ev" "g_socket st = ev @- tail" "g_client st" "shd (g_writes st)"
    and "g_inbuf st @ data_of ev = replicate k CHR ''+'' @ encode_packet payload @ extra"
  shows "\<exists>st'. read_packet True st = Some (Some payload, st') \<and> took ev tail extra st st'"
  using assms
proof (induction ev arbitrary: st k)
  case Nil
  then show ?case
    using buffered_progress [OF assms(1) Nil(6)]
    by (subst read_packet.simps) (auto simp: took_def write_client_def)
next
  case (Cons e ev)
  from buffered_progress [OF assms(1) Cons.prems(6)] show ?case
  proof (elim disjE exE conjE)
    fix x assume "read_buffered st = (Some payload, snd (write_client ''+'' (st\<lparr>g_inbuf := x\<rparr>)))" "x @ data_of (e # ev) = extra"
    then show ?thesis
      using Cons.prems(3-5) by (subst read_packet.simps) (auto simp: took_def write_client_def intro!: exI [of _ 0])
  next
    fix b k' assume r: "read_buffered st = (None, st\<lparr>g_inbuf := b\<rparr>)"
      and b: "b @ data_of (e # ev) = replicate k' CHR ''+'' @ encode_packet payload @ extra"
    let ?t = "\<lambda>bs. st\<lparr>g_inbuf := b @ bs, g_socket := ev @- tail\<rparr>"
    obtain bs where bs: "e = Data bs \<or> e = WouldBlock \<and> bs = []"
      using Cons.prems(2) by (cases e) (auto simp: live_def)
    then have "g_inbuf (?t bs) @ data_of ev = replicate k' CHR ''+'' @ encode_packet payload @ extra"
      using b by auto
    from Cons.IH [OF assms(1) _ _ _ _ this] obtain st' where st':
        "read_packet True (?t bs) = Some (Some payload, st')" "took ev tail extra (?t bs) st'"
      using Cons.prems by auto
    have "read_packet True st = read_packet True (?t bs)"
      using r bs Cons.prems(3,4) by (subst read_packet.simps) (auto intro!: arg_cong [where f = "read_packet True"])
    moreover have "took (e # ev) tail extra st st'"
    proof -
      obtain n where "n \<le> length ev" "g_socket st' = drop n ev @- tail" "g_inbuf st' @ data_of (drop n ev) = extra"
        "g_sent st' = g_sent st @ ''+''"
        using st'(2) by (auto simp: took_def)
      then show ?thesis
        by (auto simp: took_def intro!: exI [of _ "Suc n"])
    qed
    ultimately show ?thesis
      using st'(1) by auto
  qed
qed

section \<open>Memory without translation\<close>

definition untranslated :: "cpu \<Rightarrow> bool" where
  "untranslated c \<longleftrightarrow> c_priv c = PRIV_MACHINE \<or> satp_mode (c_csrs c) = SATP_MODE_BARE"

lemma dbg_translate_flat: "untranslated c \<Longrightarrow> dbg_translate va w c = (Some va, c)"
  by (auto simp: dbg_translate_def hart_translate_def translate_def untranslated_def)

definition in_dram :: "u64 \<Rightarrow> nat \<Rightarrow> dram \<Rightarrow> bool" where
  "in_dram a n d \<longleftrightarrow> dram_inv d \<and> DRAM_BASE \<le> a \<and> unat (a - DRAM_BASE) + n \<le> d_len d"

lemma in_dram_next:
  assumes "in_dram a n d" "k \<le> n" "dram_inv d'" "d_len d' = d_len d"
  shows "unat (a + of_nat k - DRAM_BASE) = unat (a - DRAM_BASE) + k" "in_dram (a + of_nat k) (n - k) d'"
proof -
  let ?o = "a - DRAM_BASE"
  have len: "unat ?o + n < 2 ^ 44" "DRAM_BASE \<le> a"
    using assms(1) by (auto simp: in_dram_def dram_inv_def)
  then have k: "unat (of_nat k :: u64) = k"
    using assms(2) by (intro unat_of_nat_small) simp
  have o: "a + of_nat k - DRAM_BASE = ?o + of_nat k"
    by simp
  show u: "unat (a + of_nat k - DRAM_BASE) = unat ?o + k"
    unfolding o using len assms(2) k by (simp add: unat_word_ariths)
  have "unat a = unat ?o + unat DRAM_BASE"
    using len(2) by (simp add: unat_sub word_le_nat_alt)
  then have "unat (a + of_nat k) = unat a + k"
    using len assms(2) k by (simp add: unat_word_ariths)
  then have "DRAM_BASE \<le> a + of_nat k"
    using len(2) by (simp add: word_le_nat_alt)
  then show "in_dram (a + of_nat k) (n - k) d'"
    using u assms by (simp add: in_dram_def)
qed

lemma dbg_write_flat:
  assumes "untranslated c" "in_dram va (length bs) (b_ram (c_bus c))"
  shows "\<exists>m. dbg_write bs va c = (True, c\<lparr>c_bus := (c_bus c)\<lparr>b_ram := m\<rparr>\<rparr>) \<and>
    d_mem m = copy_in (unat (va - DRAM_BASE)) bs (d_mem (b_ram (c_bus c))) \<and> dram_inv m \<and> d_len m = d_len (b_ram (c_bus c))"
  using assms
proof (induction bs va c rule: dbg_write.induct)
  case (1 bs va c)
  show ?case
  proof (cases "bs = []")
    case True
    then show ?thesis
      using "1.prems" by (subst dbg_write.simps) (auto simp: in_dram_def intro!: exI [of _ "b_ram (c_bus c)"])
  next
    case False
    let ?k = "page_chunk (length bs) va" and ?d = "b_ram (c_bus c)"
    have k: "?k \<le> length bs"
      by (simp add: page_chunk_def)
    obtain m where m: "dram_write_bytes va (take ?k bs) ?d = Some m" "d_mem m = copy_in (unat (va - DRAM_BASE)) (take ?k bs) (d_mem ?d)"
        "dram_inv m" "d_len m = d_len ?d"
      using write_bytes_succeeds [of ?d va "take ?k bs"] "1.prems"(2) k by (auto simp: in_dram_def)
    note nx = in_dram_next [OF "1.prems"(2) k m(3,4)]
    let ?c = "c\<lparr>c_bus := (c_bus c)\<lparr>b_ram := m\<rparr>\<rparr>"
    have "untranslated ?c"
      using "1.prems"(1) by (simp add: untranslated_def)
    then obtain m' where m': "dbg_write (drop ?k bs) (va + of_nat ?k) ?c = (True, ?c\<lparr>c_bus := (c_bus ?c)\<lparr>b_ram := m'\<rparr>\<rparr>)"
        "d_mem m' = copy_in (unat (va - DRAM_BASE) + ?k) (drop ?k bs) (d_mem m)" "dram_inv m'" "d_len m' = d_len ?d"
      using "1.IH" [OF False dbg_translate_flat [OF "1.prems"(1), symmetric] refl refl m(1)] nx m(4) by auto
    have "d_mem m' = copy_in (unat (va - DRAM_BASE)) bs (d_mem ?d)"
      using m'(2) m(2) k copy_in_append [of "unat (va - DRAM_BASE)" "take ?k bs" "drop ?k bs" "d_mem ?d"] by (simp add: min_absorb2)
    then show ?thesis
      using False m(1) m' dbg_translate_flat [OF "1.prems"(1)] by (subst dbg_write.simps) (auto simp: Let_def intro!: exI [of _ m'])
  qed
qed

lemma dbg_read_flat:
  assumes "untranslated c" "in_dram va n (b_ram (c_bus c))"
  shows "dbg_read n va c = (Some (map (\<lambda>i. d_mem (b_ram (c_bus c)) (unat (va - DRAM_BASE) + i)) [0..<n]), c)"
  using assms
proof (induction n va c rule: dbg_read.induct)
  case (1 n va c)
  show ?case
  proof (cases "n = 0")
    case False
    let ?k = "page_chunk n va" and ?d = "b_ram (c_bus c)"
    let ?f = "\<lambda>i. d_mem ?d (unat (va - DRAM_BASE) + i)"
    have k: "?k \<le> n" "0 < ?k"
      using False page_chunk_pos by (simp_all add: page_chunk_def)
    have len: "unat (of_nat (d_len ?d) :: u64) = d_len ?d"
      using "1.prems"(2) by (intro unat_of_nat_small) (simp add: in_dram_def dram_inv_def)
    then have "in_range (va - DRAM_BASE) ?k ?d"
      using "1.prems"(2) k by (auto simp: in_dram_def in_range_def word_less_nat_alt)
    then have r: "dram_read_bytes va ?k ?d = Some (map ?f [0..<?k])"
      using "1.prems"(2) k(2) by (simp add: dram_read_bytes_def in_dram_def Let_def not_less)
    have d: "dram_inv ?d" "d_len ?d = d_len ?d"
      using "1.prems"(2) by (simp_all add: in_dram_def)
    note nx = in_dram_next [OF "1.prems"(2) k(1) d]
    have "dbg_read (n - ?k) (va + of_nat ?k) c = (Some (map (\<lambda>i. ?f (?k + i)) [0..<n - ?k]), c)"
      using "1.IH" [OF False dbg_translate_flat [OF "1.prems"(1), symmetric] refl refl r "1.prems"(1) nx(2)] nx(1)
      by (simp add: add.assoc)
    moreover have "map ?f [0..<?k] @ map (\<lambda>i. ?f (?k + i)) [0..<n - ?k] = map ?f [0..<n]"
      using k(1) by (intro nth_equalityI) (auto simp: nth_append)
    ultimately show ?thesis
      using False r dbg_translate_flat [OF "1.prems"(1)] by (subst dbg_read.simps) (simp add: Let_def)
  qed (subst dbg_read.simps, simp)
qed

section \<open>Registers\<close>

text \<open>The registers a debugger may set freely: the integer registers but the first, the pc and the float registers.\<close>

definition plain_register :: "u32 \<Rightarrow> bool" where
  "plain_register r \<longleftrightarrow> r < REG_CSR_BASE"

lemma reg_hex_bytes: "from_hex (reg_hex v n) = Some (to_le_bytes n v)"
  by (simp add: reg_hex_def to_le_bytes_def from_to_hex)

lemma le_8: "read_le (to_le_bytes 8 v) = v" "to_le_bytes 8 v \<noteq> []" "length (to_le_bytes 8 v) = 8"
  by (simp add: read_le_to_le_bytes take_bit_word_eq_self) (simp_all add: to_le_bytes_def)

text \<open>What such a register holds, by its number.\<close>

definition plain_value :: "nat \<Rightarrow> cpu \<Rightarrow> u64" where
  "plain_value n c =
     (if n = 0 then 0 else if n < 32 then c_regs c n else if n = 32 then c_pc c else c_fregs c (n - 33))"

lemma plain_numbers:
  assumes "plain_register r"
  shows "unat r < 65" "r = REG_PC \<longleftrightarrow> unat r = 32" "REG_FP_BASE \<le> r \<Longrightarrow> unat (r - REG_FP_BASE) = unat r - 33"
    "REG_FP_BASE \<le> r \<longleftrightarrow> 33 \<le> unat r" "r < REG_FP_BASE + 32"
  using assms by (simp_all add: plain_register_def word_less_nat_alt word_le_nat_alt word_unat_eq_iff unat_sub)

lemma plain_read:
  assumes "plain_register r" "c_regfile c = None"
  shows "fst (hart_register r c) = reg_hex (plain_value (unat r) c) 8"
  using plain_numbers [OF assms(1)] assms(2) by (auto simp: hart_register_def plain_value_def read_reg_def)

lemma plain_write:
  assumes "plain_register r" "c_regfile c = None"
  shows "fst (set_register r v c) = ''OK''" "c_regfile (snd (set_register r v c)) = None"
    "plain_value n (snd (set_register r v c)) = (if n = unat r \<and> n \<noteq> 0 then v else plain_value n c)"
  using plain_numbers [OF assms(1)] assms(2) by (auto simp: set_register_def plain_value_def write_reg_def)

section \<open>Properties\<close>

definition chosen_hart :: "gdb_stub \<Rightarrow> cpu" where
  "chosen_hart s = lend (s_platform s) (p_harts (s_platform s) ! unat (g_general_hart (s_st s)))"

lemma on_selected:
  assumes "stub_inv s" "on_hart (unat (g_general_hart (s_st s))) f s = (r, t)"
  shows "f (chosen_hart s) = (r, chosen_hart t)" "s_st t = s_st s" "unat (g_general_hart (s_st t)) < length (p_harts (s_platform t))"
    "p_bus (s_platform t) = c_bus (chosen_hart t)"
  using assms by (auto simp: stub_inv_def on_hart_def with_hart_def chosen_hart_def lend_def split_beta Let_def)

lemma general_selected:
  assumes "stub_inv s" "on_hart (unat (g_general_hart (s_st s))) f s = (r, t)" "\<And>i n c. slot i n c \<Longrightarrow> slot i n (snd (f c))"
  shows "stub_inv t" "general t = Some (unat (g_general_hart (s_st t)))"
  using general_inv [of s f, OF assms(1,3)] assms(2) general_hart by simp_all

lemma on_selected_fst: "stub_inv s \<Longrightarrow> fst (on_hart (unat (g_general_hart (s_st s))) f s) = fst (f (chosen_hart s))"
  by (simp add: on_hart_def with_hart_def chosen_hart_def split_beta)


lemma sample_packet: "encode_packet ''m80,2'' = ''$m80,2#33''"
  by code_simp



text \<open>C16: Memory round-trips. Where addresses are not translated, writing bytes into memory through the debugger is
  confirmed for every range within memory, whatever pages it spans; reading the range gives the bytes back; and nothing
  of the bus but these bytes of memory has changed.\<close>

theorem memory_roundtrip:
  assumes "stub_inv s" "untranslated (chosen_hart s)" "in_dram a (length d) (b_ram (p_bus (s_platform s)))" "length d \<le> 0x10000"
    and "write_memory a (to_hex d) s = (w, t)"
  shows "w = ''OK'' \<and> fst (read_memory a (of_nat (length d)) t) = to_hex d \<and>
    (\<exists>m. p_bus (s_platform t) = (p_bus (s_platform s))\<lparr>b_ram := m\<rparr> \<and>
       d_mem m = copy_in (unat (a - DRAM_BASE)) d (d_mem (b_ram (p_bus (s_platform s)))))"
proof -
  obtain ok where w: "on_hart (unat (g_general_hart (s_st s))) (dbg_write d a) s = (ok, t)" "w = (if ok then ''OK'' else ''E14'')"
    using assms(5) by (auto simp: write_memory_def general_hart [OF assms(1)] from_to_hex split_beta prod_eq_iff)
  note t = on_selected [OF assms(1) w(1)] general_selected [OF assms(1) w(1) dbg_write_slot]
  have bus: "c_bus (chosen_hart s) = p_bus (s_platform s)"
    by (simp add: chosen_hart_def lend_def)
  obtain m where m: "ok" "chosen_hart t = (chosen_hart s)\<lparr>c_bus := (c_bus (chosen_hart s))\<lparr>b_ram := m\<rparr>\<rparr>"
      "d_mem m = copy_in (unat (a - DRAM_BASE)) d (d_mem (b_ram (c_bus (chosen_hart s))))" "dram_inv m"
      "d_len m = d_len (b_ram (c_bus (chosen_hart s)))"
    using dbg_write_flat [OF assms(2), of a d] assms(3) t(1) bus by auto
  have "untranslated (chosen_hart t)" "in_dram a (length d) (b_ram (c_bus (chosen_hart t)))"
    using assms(2,3) m bus by (simp_all add: untranslated_def in_dram_def)
  note dbg_read_flat [OF this]
  moreover have "map (\<lambda>i. d_mem m (unat (a - DRAM_BASE) + i)) [0..<length d] = d"
    using m(3) by (intro nth_equalityI) (simp_all add: copy_in_def)
  ultimately have "fst (dbg_read (length d) a (chosen_hart t)) = Some d"
    using m(2) by simp
  moreover have "unat (min (of_nat (length d)) 0x10000 :: u64) = length d"
    using assms(4) by (simp add: unat_of_nat_small min_def word_le_nat_alt)
  ultimately have "fst (read_memory a (of_nat (length d)) t) = to_hex d"
    using on_selected_fst [OF t(5), of "dbg_read (length d) a"] by (simp add: read_memory_def general_hart [OF t(5)] split_beta)
  then show ?thesis
    using w(2) m(1,2,3) t(4) bus by auto
qed

lemma sample_hart: "c_regfile (chosen_hart sample_stub) = None" "untranslated (chosen_hart sample_stub)"
  by (simp_all add: chosen_hart_def sample_stub_def gdb_new_def platform_new_def Let_def lend_def untranslated_def cpu_new_def)


lemma memory_roundtrip_witness:
  "fst (read_memory 0x80000ffc 3 (snd (write_memory 0x80000ffc (to_hex [1, 2, 0xff]) sample_stub))) = ''0102ff''"
proof -
  have "in_dram 0x80000ffc (length [1, 2, 0xff :: u8]) (b_ram (p_bus (s_platform sample_stub)))"
    using sample_bus_inv
    by (simp add: sample_stub_def gdb_new_def platform_new_def Let_def in_dram_def bus_inv_def)
      (simp add: sample_bus_def bus_try_new_def dram_try_new_def dram_from_vec_def)
  from memory_roundtrip [OF sample_stub_inv sample_hart(2) this _ prod.collapse [symmetric]] show ?thesis
    by (simp add: to_hex_def hex_digit_def)
qed

end
