(* ===== verification/Spec2Isabelle.thy ===== *)
theory Spec2Isabelle
  imports Hart_User Hart_Code Virtio_Disk Elf Gdb_Frame
begin

text \<open>
  A verification development for the RV64GC emulator under \<open>src/src\<close>.

  \<^bold>\<open>The program.\<close> A hart (\<open>cpu/mod.rs\<close>, \<open>cpu/exec.rs\<close>, \<open>cpu/fp.rs\<close>) fetches from and accesses a
  bus (\<open>bus.rs\<close>) through an MMU (\<open>mmu.rs\<close>). The bus owns guest memory (\<open>dram.rs\<close>) and the
  memory-mapped devices: CLINT and clock (\<open>clint.rs\<close>), PLIC (\<open>plic.rs\<close>), UART (\<open>uart.rs\<close>), real-time
  clock (\<open>rtc.rs\<close>), power controller (\<open>syscon.rs\<close>) and virtio devices (\<open>virtio/\<close>). Instructions are
  decoded by \<open>decoder.rs\<close>; the control and status registers are \<open>csr.rs\<close>; \<open>backends.rs\<close> and
  \<open>bitmanip.rs\<close> hold the arithmetic.

  \<^bold>\<open>Conventions.\<close> Unsigned and signed machine integers are words of their width; arithmetic wraps, as
  in the release profile of the build. Sizes and indices are natural numbers. A fallible operation
  on a state returns \<open>'a res \<times> state\<close>, a trap or a value, with the state it leaves behind on either
  branch. Constants are input abbreviations or definitions with the names of the source. State
  shared between components of the source by reference-counted cells lives once in the record
  that owns it in the model (the clock, CLINT, PLIC, UART, RTC and syscon in the bus record).
  Devices that are not modelled are values of the codatatype \<open>ext_device\<close>, with the contract
  \<open>ext_ok\<close>; the host clock and host input are fields of the state.

  \<^bold>\<open>Theories.\<close>
  \<^item> \<open>Prelude\<close>: results with state, bit and word lemmas.
  \<^item> \<open>Rv_Types\<close>: \<open>types.rs\<close>, \<open>trap.rs\<close>, \<open>device.rs\<close>.
  \<^item> \<open>Decoder\<close>: \<open>decoder.rs\<close>; decode/encode round trip, the legality of every expansion of a compressed
    instruction, the offsets of compressed jumps and branches.
  \<^item> \<open>Alu\<close>: \<open>backends.rs\<close>, \<open>bitmanip.rs\<close>; the bit-level meaning of the bit-manipulation instructions.
  \<^item> \<open>Csr\<close>: \<open>csr.rs\<close>; the legal-value invariant and the \<open>sstatus\<close> window.
  \<^item> \<open>Dram\<close>: \<open>dram.rs\<close>; the memory interface \<open>le_memory\<close> and the coherence of cached code.
  \<^item> \<open>Device\<close>: the device interface \<open>mmio_device\<close>, interpreted by \<open>Syscon\<close>, \<open>Clint\<close>, \<open>Plic\<close>, \<open>Uart\<close>, \<open>Rtc\<close>,
    each with its invariant and behaviour.
  \<^item> \<open>Bus\<close>: \<open>bus.rs\<close>; address decoding, faults, the invariant of the whole bus, memory behind the bus.
  \<^item> \<open>Mmu\<close>: \<open>mmu.rs\<close>; \<open>Sv39\<close>: the reference translation, and the refinement of it by the cached one.

  \<^bold>\<open>Not modelled.\<close> The hart, floating point, SBI firmware, virtio, platform set-up, device tree, user
  network and debugger are planned; the host console and sockets are operating-system calls.
\<close>

end
